(* ===== verification/Go_Prelude.thy ===== *)
theory Go_Prelude
  imports Main "HOL-Library.Word" "HOL-Library.Monad_Syntax"
begin

text \<open>
  The shared prelude of the development: the Go machine types, run-time panics,
  slices, byte orders and the conversion between byte slices and strings, with
  the lemma collections the component theories use.

  \<^item> A Go computation that can panic is a value of type \<open>'a option\<close>: \<open>None\<close> is a
    run-time panic (slice bounds out of range, index out of range, failed type
    assertion), \<open>Some x\<close> is a normal return. Errors returned as values are part of
    \<open>x\<close> and are never confused with a panic. Computations are sequenced with the
    library's do-notation for \<open>Option.bind\<close>.
  \<^item> \<open>runs m Q\<close> says that \<open>m\<close> returns normally and that its result satisfies \<open>Q\<close>.
  \<^item> \<open>uint8\<close> \<dots> \<open>uint64\<close> are words of their width; \<open>float32\<close> is kept as its 32 bit
    pattern (\<open>math.Float32frombits\<close> is a reinterpretation of the bits); Go's \<open>int\<close> is
    \<open>int\<close> (64 bits wide; every value computed here stays far inside that range).
\<close>

unbundle bit_operations_syntax

named_theorems runs_intro \<open>rules that discharge a goal "runs (operation) Q"\<close>
named_theorems read_simps \<open>equations that evaluate a read on well-formed input\<close>

type_synonym u8 = "8 word"
type_synonym u16 = "16 word"
type_synonym u32 = "32 word"
type_synonym u64 = "64 word"
type_synonym f32 = "32 word"
type_synonym bytes = "u8 list"

subsection \<open>Computations that can panic\<close>

definition runs :: "'a option \<Rightarrow> ('a \<Rightarrow> bool) \<Rightarrow> bool" where
  "runs m Q \<longleftrightarrow> (\<exists>x. m = Some x \<and> Q x)"

lemma runs_Some [simp]: "runs (Some x) Q \<longleftrightarrow> Q x"
  by (simp add: runs_def)

lemma runs_None [simp]: "\<not> runs None Q"
  by (simp add: runs_def)

lemma runs_bind [simp]: "runs (Option.bind m f) Q \<longleftrightarrow> runs m (\<lambda>x. runs (f x) Q)"
  by (cases m) (auto simp: runs_def)

lemma runs_mono: "runs m P \<Longrightarrow> (\<And>x. P x \<Longrightarrow> Q x) \<Longrightarrow> runs m Q"
  by (auto simp: runs_def)

lemma runs_if [simp]:
  "runs (if b then m else n) Q \<longleftrightarrow> (b \<longrightarrow> runs m Q) \<and> (\<not> b \<longrightarrow> runs n Q)"
  by simp

lemma runs_case_prod [simp]:
  "runs (case p of (x, y) \<Rightarrow> f x y) Q \<longleftrightarrow> (\<forall>x y. p = (x, y) \<longrightarrow> runs (f x y) Q)"
  by (cases p) simp

lemma runsE: "runs m Q \<Longrightarrow> (\<And>x. m = Some x \<Longrightarrow> Q x \<Longrightarrow> R) \<Longrightarrow> R"
  by (auto simp: runs_def)

text \<open>The fact a caller gets from a computation that is known to have returned.\<close>

lemma runs_SomeD: "runs m Q \<Longrightarrow> m = Some x \<Longrightarrow> Q x"
  by (simp add: runs_def)

subsection \<open>Slices\<close>

text \<open>
  \<open>xs[a:b]\<close>: panics unless \<open>0 \<le> a \<le> b \<le> len xs\<close>. (Go allows \<open>b\<close> up to the capacity;
  the model is the stricter one, so a slice expression that returns here returns in
  Go, too.)
\<close>

definition slice :: "'a list \<Rightarrow> nat \<Rightarrow> nat \<Rightarrow> 'a list option" where
  "slice xs a b = (if a \<le> b \<and> b \<le> length xs then Some (take (b - a) (drop a xs)) else None)"

lemma slice_append [read_simps]:
  "slice (pre @ xs @ post) (length pre) (length pre + length xs) = Some xs"
  by (simp add: slice_def)

lemma slice_Some_length: "slice xs a b = Some ys \<Longrightarrow> length ys = b - a"
  by (auto simp: slice_def split: if_splits)

subsection \<open>Byte orders\<close>

fun le_word :: "bytes \<Rightarrow> 'a::len word" where
  "le_word [] = 0"
| "le_word (b # bs) = ucast b OR push_bit 8 (le_word bs)"

definition le_bytes :: "nat \<Rightarrow> 'a::len word \<Rightarrow> bytes" where
  "le_bytes k v = map (\<lambda>i. ucast (drop_bit (8 * i) v)) [0..<k]"

lemma bit_le_word:
  "bit (le_word bs :: 'a::len word) n \<longleftrightarrow>
     n < LENGTH('a) \<and> n div 8 < length bs \<and> bit (bs ! (n div 8)) (n mod 8)"
proof (induction bs arbitrary: n)
  case Nil
  then show ?case by simp
next
  case (Cons b bs)
  show ?case
  proof (cases "n < 8")
    case True
    then show ?thesis by (auto simp: bit_simps dest: bit_imp_le_length)
  next
    case False
    then obtain m where n: "n = 8 + m" by (metis le_Suc_ex not_less)
    have "n div 8 = Suc (m div 8)" and "n mod 8 = m mod 8" using n by simp_all
    moreover have "bit (le_word (b # bs) :: 'a word) n \<longleftrightarrow> n < LENGTH('a) \<and> bit (le_word bs :: 'a word) m"
      using False n by (auto simp: bit_or_iff bit_push_bit_iff bit_ucast_iff dest: bit_imp_le_length)
    ultimately show ?thesis using n by (auto simp: Cons.IH)
  qed
qed

lemma length_le_bytes [simp]: "length (le_bytes k v) = k"
  by (simp add: le_bytes_def)

lemma le_word_le_bytes:
  assumes "LENGTH('a) = 8 * k"
  shows "le_word (le_bytes k v) = (v :: 'a::len word)"
proof (rule bit_word_eqI)
  fix n assume "n < LENGTH('a)"
  moreover from this assms have "n div 8 < k" by simp
  ultimately show "bit (le_word (le_bytes k v) :: 'a word) n = bit v n"
    by (simp add: bit_le_word le_bytes_def bit_simps)
qed

lemma le_bytes_le_word:
  assumes "LENGTH('a) = 8 * k" and "length bs = k"
  shows "le_bytes k (le_word bs :: 'a::len word) = bs"
proof (rule nth_equalityI)
  show "length (le_bytes k (le_word bs :: 'a word)) = length bs" using assms by simp
  fix i assume "i < length (le_bytes k (le_word bs :: 'a word))"
  then have i: "i < k" by simp
  show "le_bytes k (le_word bs :: 'a word) ! i = bs ! i"
  proof (rule bit_word_eqI)
    fix n assume "n < LENGTH(8)"
    then have n: "n < 8" by simp
    moreover from n have "(8 * i + n) div 8 = i" "(8 * i + n) mod 8 = n" by simp_all
    moreover from n i assms have "8 * i + n < LENGTH('a)" by simp
    ultimately show "bit (le_bytes k (le_word bs :: 'a word) ! i) n = bit (bs ! i) n"
      using i assms by (simp add: le_bytes_def bit_simps bit_le_word)
  qed
qed

text \<open>
  \<open>binary.ByteOrder\<close>: the two orders, with \<open>UintN\<close> (panics on a slice shorter than the
  width, ignores what follows it) and the bytes \<open>PutUintN\<close> writes.
\<close>

datatype byte_order = LittleEndian | BigEndian

definition arrange :: "byte_order \<Rightarrow> 'a list \<Rightarrow> 'a list" where
  "arrange ord bs = (case ord of LittleEndian \<Rightarrow> bs | BigEndian \<Rightarrow> rev bs)"

definition get_word :: "byte_order \<Rightarrow> nat \<Rightarrow> bytes \<Rightarrow> 'a::len word option" where
  "get_word ord k b = (if k \<le> length b then Some (le_word (arrange ord (take k b))) else None)"

definition put_word :: "byte_order \<Rightarrow> nat \<Rightarrow> 'a::len word \<Rightarrow> bytes" where
  "put_word ord k v = arrange ord (le_bytes k v)"

lemma arrange_arrange [simp]: "arrange ord (arrange ord bs) = bs"
  by (cases ord) (simp_all add: arrange_def)

lemma length_arrange [simp]: "length (arrange ord bs) = length bs"
  by (cases ord) (simp_all add: arrange_def)

abbreviation Uint8 :: "bytes \<Rightarrow> u8 option" where "Uint8 b \<equiv> get_word LittleEndian 1 b"
abbreviation Uint16 :: "byte_order \<Rightarrow> bytes \<Rightarrow> u16 option" where "Uint16 ord \<equiv> get_word ord 2"
abbreviation Uint32 :: "byte_order \<Rightarrow> bytes \<Rightarrow> u32 option" where "Uint32 ord \<equiv> get_word ord 4"
abbreviation Uint64 :: "byte_order \<Rightarrow> bytes \<Rightarrow> u64 option" where "Uint64 ord \<equiv> get_word ord 8"
abbreviation PutUint16 :: "byte_order \<Rightarrow> u16 \<Rightarrow> bytes" where "PutUint16 ord \<equiv> put_word ord 2"
abbreviation PutUint32 :: "byte_order \<Rightarrow> u32 \<Rightarrow> bytes" where "PutUint32 ord \<equiv> put_word ord 4"
abbreviation PutUint64 :: "byte_order \<Rightarrow> u64 \<Rightarrow> bytes" where "PutUint64 ord \<equiv> put_word ord 8"

text \<open>
  The contract every fixed-width number format keeps: the width of what is written,
  reading back what was written whatever follows it, and that the bytes read are the
  only ones that give the value read.
\<close>

locale byte_codec =
  fixes get :: "bytes \<Rightarrow> 'v option" and put :: "'v \<Rightarrow> bytes" and width :: nat
  assumes length_put: "length (put v) = width"
    and get_put: "get (put v @ xs) = Some v"
    and get_total: "width \<le> length b \<Longrightarrow> \<exists>v. get b = Some v"
    and put_get: "get b = Some v \<Longrightarrow> put v = take width b"
    and get_short: "length b < width \<Longrightarrow> get b = None"
begin

lemma get_exact: "get (put v) = Some v"
  using get_put [of v "[]"] by simp

lemma put_inj: "put v = put w \<Longrightarrow> v = w"
  by (metis get_exact option.inject)

lemma get_iff: "get b = Some v \<longleftrightarrow> (\<exists>xs. b = put v @ xs)"
proof
  assume g: "get b = Some v"
  from put_get [OF g] have "b = put v @ drop width b"
    by (metis append_take_drop_id)
  then show "\<exists>xs. b = put v @ xs" by blast
qed (auto simp: get_put)

end

lemma word_codec:
  assumes "LENGTH('a) = 8 * k"
  shows "byte_codec (get_word ord k :: bytes \<Rightarrow> 'a::len word option) (put_word ord k) k"
proof unfold_locales
  fix v :: "'a word" and b xs :: bytes
  show "length (put_word ord k v) = k" by (simp add: put_word_def)
  show "get_word ord k (put_word ord k v @ xs) = Some v"
    using assms by (simp add: get_word_def put_word_def le_word_le_bytes)
  show "k \<le> length b \<Longrightarrow> \<exists>v::'a word. get_word ord k b = Some v"
    by (simp add: get_word_def)
  show "(get_word ord k b :: 'a word option) = None" if "length b < k"
    using that by (simp add: get_word_def)
  assume g: "get_word ord k b = Some v"
  then have "k \<le> length b" and v: "v = le_word (arrange ord (take k b))"
    by (auto simp: get_word_def split: if_splits)
  with assms have "le_bytes k v = arrange ord (take k b)"
    by (simp add: le_bytes_le_word)
  then show "put_word ord k v = take k b" by (simp add: put_word_def)
qed

interpretation u8c: byte_codec "get_word ord 1 :: bytes \<Rightarrow> u8 option" "put_word ord 1" 1 for ord
  by (rule word_codec) simp
interpretation u16c: byte_codec "get_word ord 2 :: bytes \<Rightarrow> u16 option" "put_word ord 2" 2 for ord
  by (rule word_codec) simp
interpretation u32c: byte_codec "get_word ord 4 :: bytes \<Rightarrow> u32 option" "put_word ord 4" 4 for ord
  by (rule word_codec) simp
interpretation u64c: byte_codec "get_word ord 8 :: bytes \<Rightarrow> u64 option" "put_word ord 8" 8 for ord
  by (rule word_codec) simp

lemmas put_lengths [simp] =
  u8c.length_put u8c.length_put [unfolded One_nat_def] u16c.length_put u32c.length_put u64c.length_put

lemmas get_put_simps [simp] =
  u8c.get_put u16c.get_put u32c.get_put u64c.get_put
  u8c.get_exact u16c.get_exact u32c.get_exact u64c.get_exact

subsection \<open>Strings and byte slices\<close>

definition to_string :: "bytes \<Rightarrow> string" where
  "to_string bs = map (\<lambda>b. char_of (unat b)) bs"

definition to_bytes :: "string \<Rightarrow> bytes" where
  "to_bytes s = map (\<lambda>c. word_of_nat (of_char c)) s"

lemma to_string_to_bytes [simp]: "to_string (to_bytes s) = s"
proof -
  have "unat (word_of_nat (of_char c) :: u8) = of_char c" for c
    by (simp add: unat_of_nat)
  then show ?thesis by (simp add: to_string_def to_bytes_def comp_def)
qed

lemma length_to_bytes [simp]: "length (to_bytes s) = length s"
  by (simp add: to_bytes_def)

lemma length_to_string [simp]: "length (to_string bs) = length bs"
  by (simp add: to_string_def)

lemma to_string_append [simp]: "to_string (xs @ ys) = to_string xs @ to_string ys"
  by (simp add: to_string_def)

lemma to_bytes_append [simp]: "to_bytes (s @ t) = to_bytes s @ to_bytes t"
  by (simp add: to_bytes_def)

end
