(* ===== verification/Go_Errors.thy ===== *)
theory Go_Errors
  imports Go_Prelude
begin

text \<open>
  Go error values (\<open>errors\<close>, \<open>fmt.Errorf\<close>). An error built by \<open>fmt.Errorf\<close> keeps its
  format string and its operands, so nothing of the message is lost and what it wraps
  (\<open>%w\<close>) stays visible to \<open>errors.Is\<close> and \<open>errors.As\<close>; an operand printed with \<open>%v\<close> is
  not wrapped. The sentinels are those of \<open>protocol.go\<close> and \<open>pkg/packets/cursor.go\<close>
  and the two of package \<open>io\<close> the code compares with. \<open>NetError tmo msg\<close> is an error of
  a socket, which implements \<open>net.Error\<close>; \<open>tmo\<close> is what its \<open>Timeout\<close> method returns.
\<close>

datatype err =
    ErrTimeout
  | ErrNotConnected
  | ErrTruncated
  | ErrVersionNotSupported
  | ErrShortPacket
  | IoEOF
  | IoUnexpectedEOF
  | NetError bool string
  | Errorf string "fmt_arg list"
and fmt_arg =
    AInt int
  | AStr string
  | AStrs "string list"
  | AErr err
  | AWrap err

text \<open>\<open>errors.Is(e, target)\<close> for a sentinel \<open>target\<close>: \<open>e\<close> itself, or what it wraps.\<close>

fun errors_Is :: "err \<Rightarrow> err \<Rightarrow> bool" and arg_Is :: "fmt_arg \<Rightarrow> err \<Rightarrow> bool" where
  "errors_Is (Errorf f args) t = list_ex (\<lambda>a. arg_Is a t) args"
| "errors_Is e t = (e = t)"
| "arg_Is (AWrap e) t = errors_Is e t"
| "arg_Is a t = False"

text \<open>
  \<open>errors.As(e, &netErr)\<close> followed by \<open>netErr.Timeout()\<close>: whether the first \<open>net.Error\<close>
  in the chain of wrapped errors is a timeout, \<open>None\<close> when there is none.
\<close>

fun first_Some :: "'a option list \<Rightarrow> 'a option" where
  "first_Some [] = None"
| "first_Some (None # xs) = first_Some xs"
| "first_Some (Some x # xs) = Some x"

fun as_net_error :: "err \<Rightarrow> bool option" and arg_net_error :: "fmt_arg \<Rightarrow> bool option" where
  "as_net_error (NetError tmo msg) = Some tmo"
| "as_net_error (Errorf f args) =
     first_Some (map (\<lambda>a. arg_net_error a) args)"
| "as_net_error e = None"
| "arg_net_error (AWrap e) = as_net_error e"
| "arg_net_error a = None"

definition isTimeout :: "err \<Rightarrow> bool" where
  "isTimeout e = (case as_net_error e of Some tmo \<Rightarrow> tmo | None \<Rightarrow> False)"

definition IsTimeout :: "err \<Rightarrow> bool" where
  "IsTimeout e \<longleftrightarrow> errors_Is e ErrTimeout \<or> isTimeout e"

definition is_short :: "err \<Rightarrow> bool" where
  "is_short e \<longleftrightarrow> errors_Is e ErrShortPacket"

text \<open>Wrapping with a single \<open>%w\<close> operand changes neither test.\<close>

lemma errors_Is_wrap [simp]:
  "errors_Is (Errorf f [AStr s, AWrap e]) t = errors_Is e t"
  "errors_Is (Errorf f [AWrap e]) t = errors_Is e t"
  by simp_all

lemma isTimeout_wrap [simp]:
  "isTimeout (Errorf f [AWrap e]) = isTimeout e"
  "isTimeout (Errorf f [AStr s, AWrap e]) = isTimeout e"
  by (cases "as_net_error e"; simp add: isTimeout_def)+

lemma IsTimeout_wrap [simp]:
  "IsTimeout (Errorf f [AWrap e]) = IsTimeout e"
  "IsTimeout (Errorf f [AStr s, AWrap e]) = IsTimeout e"
  by (simp_all add: IsTimeout_def)

lemma isTimeout_simps [simp]:
  "isTimeout (NetError tmo msg) = tmo"
  "\<not> isTimeout IoEOF" "\<not> isTimeout IoUnexpectedEOF"
  "\<not> isTimeout ErrTimeout" "\<not> isTimeout ErrTruncated" "\<not> isTimeout ErrNotConnected"
  by (simp_all add: isTimeout_def)

end
