(* ===== verification/Cursor.thy ===== *)
theory Cursor
  imports Go_Errors
begin

text \<open>
  \<open>pkg/packets/cursor.go\<close>: the bounds-checked little-endian reader every component
  parser is written with. First the operations as the code has them, then the contract
  \<open>wire_reader\<close> that relates a reader to the wire format it reads, closed under
  sequencing, branching, the count guard and the record loops, so that the laws of a
  parser follow its structure.
\<close>

record cursor =
  cur_data :: bytes
  cur_pos :: nat
  cur_err :: "err option"

definition newCursor :: "bytes \<Rightarrow> cursor" where
  "newCursor data = \<lparr>cur_data = data, cur_pos = 0, cur_err = None\<rparr>"

definition cur_fail :: "err \<Rightarrow> cursor \<Rightarrow> cursor" where
  "cur_fail e c = (if cur_err c = None then c\<lparr>cur_err := Some e\<rparr> else c)"

definition cur_Err :: "cursor \<Rightarrow> err option" where
  "cur_Err c = cur_err c"

definition Remaining :: "cursor \<Rightarrow> int" where
  "Remaining c = (if cur_err c \<noteq> None then 0 else int (length (cur_data c)) - int (cur_pos c))"

text \<open>\<open>need\<close> returns \<open>None\<close> for Go's nil slice; the outer option is the panic of the slice expression.\<close>

definition need :: "int \<Rightarrow> cursor \<Rightarrow> (bytes option \<times> cursor) option" where
  "need n c =
     (if cur_err c \<noteq> None then Some (None, c)
      else if n < 0 \<or> int (cur_pos c) + n > int (length (cur_data c)) then
        Some (None, cur_fail (Errorf ''%w: need %d bytes at offset %d, have %d''
          [AWrap ErrShortPacket, AInt n, AInt (int (cur_pos c)),
           AInt (int (length (cur_data c)) - int (cur_pos c))]) c)
      else do {
        b \<leftarrow> slice (cur_data c) (cur_pos c) (cur_pos c + nat n);
        Some (Some b, c\<lparr>cur_pos := cur_pos c + nat n\<rparr>)
      })"

text \<open>
  \<open>Uint8\<close>, \<open>Uint16\<close>, \<open>Uint32\<close> and \<open>Uint64\<close> share one body, which differs in the width only.
\<close>

definition cur_word :: "nat \<Rightarrow> cursor \<Rightarrow> ('a::len word \<times> cursor) option" where
  "cur_word k c = do {
     (b, c) \<leftarrow> need (int k) c;
     case b of
       None \<Rightarrow> Some (0, c)
     | Some b \<Rightarrow> do { v \<leftarrow> get_word LittleEndian k b; Some (v, c) }
   }"

definition cur_Uint8 :: "cursor \<Rightarrow> (u8 \<times> cursor) option" where
  "cur_Uint8 = cur_word 1"

definition cur_Uint16 :: "cursor \<Rightarrow> (u16 \<times> cursor) option" where
  "cur_Uint16 = cur_word 2"

definition cur_Uint32 :: "cursor \<Rightarrow> (u32 \<times> cursor) option" where
  "cur_Uint32 = cur_word 4"

definition cur_Uint64 :: "cursor \<Rightarrow> (u64 \<times> cursor) option" where
  "cur_Uint64 = cur_word 8"

definition cur_Float32 :: "cursor \<Rightarrow> (f32 \<times> cursor) option" where
  "cur_Float32 = cur_word 4"

record Point =
  pt_X :: f32
  pt_Y :: f32
  pt_Z :: f32

definition cur_Point :: "cursor \<Rightarrow> (Point \<times> cursor) option" where
  "cur_Point c = do {
     (x, c) \<leftarrow> cur_Float32 c;
     (y, c) \<leftarrow> cur_Float32 c;
     (z, c) \<leftarrow> cur_Float32 c;
     Some (\<lparr>pt_X = x, pt_Y = y, pt_Z = z\<rparr>, c)
   }"

definition cur_Bytes :: "int \<Rightarrow> cursor \<Rightarrow> (bytes \<times> cursor) option" where
  "cur_Bytes n c = do {
     (b, c) \<leftarrow> need n c;
     case b of None \<Rightarrow> Some ([], c) | Some b \<Rightarrow> Some (b, c)
   }"

definition cur_Skip :: "int \<Rightarrow> cursor \<Rightarrow> cursor option" where
  "cur_Skip n c = do { (_, c) \<leftarrow> need n c; Some c }"

text \<open>
  The guard multiplies in \<open>uint64\<close>; \<open>uint64(c.Remaining())\<close> is the number itself, since
  the length of a slice is neither negative nor beyond the range of \<open>int\<close>.
\<close>

definition checkCount :: "u32 \<Rightarrow> int \<Rightarrow> string \<Rightarrow> cursor \<Rightarrow> bool \<times> cursor" where
  "checkCount count minBytesEach what c =
     (if cur_err c \<noteq> None then (False, c)
      else if minBytesEach > 0
        \<and> uint ((ucast count :: u64) * word_of_int minBytesEach) > Remaining c
      then (False, cur_fail (Errorf ''%w: %s count %d exceeds %d remaining bytes''
        [AWrap ErrShortPacket, AStr what, AInt (uint count), AInt (Remaining c)]) c)
      else (True, c))"

text \<open>The exported \<open>Float32frombytes\<close> has no bounds check: it panics below four bytes.\<close>

definition Float32frombytes :: "bytes \<Rightarrow> f32 option" where
  "Float32frombytes b = Uint32 LittleEndian b"

text \<open>
  The record loops \<open>for i := 0; i < count; i++ { \<dots> append \<dots> }\<close>: \<open>body\<close> gives \<open>None\<close>
  for the early \<open>return cur.Err()\<close> inside the loop, and the records appended so far stay.
\<close>

fun read_loop :: "nat \<Rightarrow> (cursor \<Rightarrow> ('a option \<times> cursor) option) \<Rightarrow> cursor \<Rightarrow>
    ('a list \<times> cursor) option" where
  "read_loop 0 body c = Some ([], c)"
| "read_loop (Suc n) body c = do {
     (x, c) \<leftarrow> body c;
     case x of
       None \<Rightarrow> Some ([], c)
     | Some x \<Rightarrow> do { (xs, c) \<leftarrow> read_loop n body c; Some (x # xs, c) }
   }"

text \<open>A loop body that never leaves the loop early.\<close>

definition each :: "(cursor \<Rightarrow> ('a \<times> cursor) option) \<Rightarrow> cursor \<Rightarrow> ('a option \<times> cursor) option" where
  "each rd c = do { (x, c) \<leftarrow> rd c; Some (Some x, c) }"

text \<open>
  The shape all component parsers share: an empty payload leaves the receiver alone;
  otherwise the body runs on a fresh cursor and every exit is \<open>return cur.Err()\<close>. The
  result is the returned error and the receiver as it is left behind.
\<close>

definition with_cursor :: "('c \<Rightarrow> cursor \<Rightarrow> ('c \<times> cursor) option) \<Rightarrow> 'c \<Rightarrow> bytes \<Rightarrow>
    (err option \<times> 'c) option" where
  "with_cursor body c data =
     (if length data = 0 then Some (None, c)
      else do { (c', cur) \<leftarrow> body c (newCursor data); Some (cur_Err cur, c') })"

subsection \<open>The guard on counts\<close>

text \<open>
  The guard on record counts is exact: a count passes exactly when that many records of
  the given minimal size fit in what is left of the payload (the product does not wrap), a
  count that passes leaves the cursor alone, and one that fails leaves a short-packet error.
\<close>

lemma count_guard_exact:
  assumes "0 < k" and "k < 2 ^ 32" and "cur_err c = None"
  shows "checkCount count k what c =
    (if uint count * k \<le> Remaining c then (True, c)
     else (False, cur_fail (Errorf ''%w: %s count %d exceeds %d remaining bytes''
        [AWrap ErrShortPacket, AStr what, AInt (uint count), AInt (Remaining c)]) c))"
proof -
  have "uint count < 2 ^ 32" using uint_lt2p [of count] by simp
  then have "uint count * k < 2 ^ 32 * 2 ^ 32"
    using assms(1,2) by (intro mult_strict_mono) simp_all
  moreover have "0 \<le> uint count * k" using assms(1) by simp
  moreover have "uint (word_of_int k :: u64) = k"
    using assms(1,2) by (simp add: uint_word_of_int)
  ultimately have "uint ((ucast count :: u64) * word_of_int k) = uint count * k"
    by (simp add: uint_word_ariths uint_up_ucast is_up)
  then show ?thesis using assms(1,3) by (simp add: checkCount_def)
qed

end
