(* ===== verification/Wire_Format.thy ===== *)
theory Wire_Format
  imports Cursor
begin

text \<open>
  The contract between a cursor reader and the wire format it reads.

  \<^item> \<open>cur_at pre rest\<close> is a cursor without error that has consumed \<open>pre\<close> and has \<open>rest\<close>
    left.
  \<^item> \<open>cur_step c c'\<close> is what every reader guarantees about the cursor, on any input: the
    data is kept, the position stays inside it and never moves back, only
    \<open>ErrShortPacket\<close> is recorded, and a cursor in the error state is left as it is.
  \<^item> \<open>wire_reader rd fmt\<close>: \<open>rd\<close> never panics and is a \<open>cur_step\<close>; on a byte sequence
    \<open>bs\<close> that encodes \<open>x\<close> (\<open>fmt x bs\<close>) it returns \<open>x\<close> and consumes exactly \<open>bs\<close>,
    whatever follows; and when it ends without error, what it consumed encodes what it
    returned.
\<close>

definition cur_at :: "bytes \<Rightarrow> bytes \<Rightarrow> cursor" where
  "cur_at pre rest = \<lparr>cur_data = pre @ rest, cur_pos = length pre, cur_err = None\<rparr>"

definition cur_ok :: "cursor \<Rightarrow> bool" where
  "cur_ok c \<longleftrightarrow> cur_pos c \<le> length (cur_data c) \<and> (\<forall>e. cur_err c = Some e \<longrightarrow> is_short e)"

definition cur_step :: "cursor \<Rightarrow> cursor \<Rightarrow> bool" where
  "cur_step c c' \<longleftrightarrow> cur_ok c' \<and> cur_data c' = cur_data c \<and> cur_pos c \<le> cur_pos c'
     \<and> (cur_err c \<noteq> None \<longrightarrow> c' = c)"

lemma cur_at_simps [simp]:
  "cur_err (cur_at pre rest) = None" "cur_ok (cur_at pre rest)"
  "cur_data (cur_at pre rest) = pre @ rest" "cur_pos (cur_at pre rest) = length pre"
  "Remaining (cur_at pre rest) = int (length rest)"
  by (simp_all add: cur_at_def cur_ok_def Remaining_def)

lemma newCursor_at: "newCursor data = cur_at [] data"
  by (simp add: newCursor_def cur_at_def)

lemma cur_at_inject: "cur_at p r = cur_at p' r' \<longleftrightarrow> p = p' \<and> r = r'"
  by (auto simp: cur_at_def)

lemma cur_at_cases:
  assumes "cur_ok c" and "cur_err c = None"
  obtains pre rest where "c = cur_at pre rest"
proof
  show "c = cur_at (take (cur_pos c) (cur_data c)) (drop (cur_pos c) (cur_data c))"
    using assms by (cases c) (auto simp: cur_at_def cur_ok_def)
qed

lemma cur_step_refl: "cur_ok c \<Longrightarrow> cur_step c c"
  by (simp add: cur_step_def)

lemma cur_step_trans: "cur_step a b \<Longrightarrow> cur_step b c \<Longrightarrow> cur_step a c"
  by (auto simp: cur_step_def)

lemma cur_step_ok: "cur_step a b \<Longrightarrow> cur_ok b"
  by (simp add: cur_step_def)

lemma cur_step_noerr: "cur_step a b \<Longrightarrow> cur_err b = None \<Longrightarrow> cur_err a = None"
  by (auto simp: cur_step_def)

lemma cur_fail_step: "cur_ok c \<Longrightarrow> is_short e \<Longrightarrow> cur_step c (cur_fail e c)"
  by (auto simp: cur_step_def cur_fail_def cur_ok_def)

lemma cur_fail_err [simp]:
  "cur_err (cur_fail e c) = Some (case cur_err c of None \<Rightarrow> e | Some e' \<Rightarrow> e')"
  by (auto simp: cur_fail_def)

subsection \<open>The contract\<close>

locale wire_reader =
  fixes rd :: "cursor \<Rightarrow> ('a \<times> cursor) option" and fmt :: "'a \<Rightarrow> bytes \<Rightarrow> bool"
  assumes fwd: "fmt x bs \<Longrightarrow> rd (cur_at pre (bs @ rest)) = Some (x, cur_at (pre @ bs) rest)"
    and bwd: "rd (cur_at pre rest) = Some (x, c') \<Longrightarrow> cur_err c' = None \<Longrightarrow>
      \<exists>bs rest'. rest = bs @ rest' \<and> c' = cur_at (pre @ bs) rest' \<and> fmt x bs"
    and safe: "cur_ok c \<Longrightarrow> runs (rd c) (\<lambda>(x, c'). cur_step c c')"
begin

lemma fwd_exact: "fmt x bs \<Longrightarrow> rd (cur_at pre bs) = Some (x, cur_at (pre @ bs) [])"
  using fwd [of x bs pre "[]"] by simp

text \<open>Success is stable: more bytes after those consumed change nothing.\<close>

lemma stable:
  assumes "rd (cur_at pre rest) = Some (x, c')" and "cur_err c' = None"
  obtains bs rest' where "rest = bs @ rest'" and "c' = cur_at (pre @ bs) rest'"
    and "\<And>extra. rd (cur_at pre (rest @ extra)) = Some (x, cur_at (pre @ bs) (rest' @ extra))"
proof -
  from bwd [OF assms] obtain bs rest' where *: "rest = bs @ rest'"
      "c' = cur_at (pre @ bs) rest'" "fmt x bs" by blast
  have "rd (cur_at pre (rest @ extra)) = Some (x, cur_at (pre @ bs) (rest' @ extra))" for extra
    using fwd [OF *(3), of pre "rest' @ extra"] *(1) by simp
  then show thesis by (rule that [OF *(1,2)])
qed

text \<open>The format is prefix free, so a byte sequence encodes at most one value.\<close>

lemma prefix_free:
  assumes "fmt x bs" and "fmt y (bs @ extra)"
  shows "x = y \<and> extra = []"
proof -
  have "rd (cur_at [] (bs @ extra)) = Some (x, cur_at bs extra)"
    using fwd [OF assms(1), of "[]" extra] by simp
  moreover have "rd (cur_at [] (bs @ extra)) = Some (y, cur_at (bs @ extra) [])"
    using fwd_exact [OF assms(2), of "[]"] by simp
  ultimately show ?thesis by (simp add: cur_at_inject)
qed

text \<open>A proper prefix of an encoding is not read successfully.\<close>

lemma truncated:
  assumes "fmt x bs" and "k < length bs" and "rd (cur_at pre (take k bs)) = Some (y, c')"
  shows "cur_err c' \<noteq> None"
proof
  assume "cur_err c' = None"
  with assms(3) obtain b r where b: "take k bs = b @ r"
    and ext: "\<And>extra. rd (cur_at pre (take k bs @ extra)) = Some (y, cur_at (pre @ b) (r @ extra))"
    by (rule stable) blast
  from ext [of "drop k bs"] fwd_exact [OF assms(1), of pre]
  have "b = bs" by (simp add: cur_at_inject)
  moreover have "length b \<le> k" using arg_cong [OF b, of length] assms(2) by simp
  ultimately show False using assms(2) by simp
qed

end

lemma wire_cong:
  assumes "wire_reader rd f" and "\<And>x bs. f x bs = g x bs"
  shows "wire_reader rd g"
proof -
  have "f = g" using assms(2) by (intro ext)
  with assms(1) show ?thesis by simp
qed

subsection \<open>Closure: return, sequence, branch\<close>

lemma wire_return: "wire_reader (\<lambda>c. Some (x, c)) (\<lambda>y bs. y = x \<and> bs = [])"
  by unfold_locales (auto simp: cur_step_refl)

lemma wire_bind:
  assumes "wire_reader r f" and "\<And>x. wire_reader (s x) (g x)"
  shows "wire_reader (\<lambda>c. do { (x, c) \<leftarrow> r c; s x c })
           (\<lambda>y bs. \<exists>x b1 b2. bs = b1 @ b2 \<and> f x b1 \<and> g x y b2)"
proof unfold_locales
  fix y bs pre rest
  assume "\<exists>x b1 b2. bs = b1 @ b2 \<and> f x b1 \<and> g x y b2"
  then obtain x b1 b2 where *: "bs = b1 @ b2" "f x b1" "g x y b2" by blast
  show "(do { (x, c) \<leftarrow> r (cur_at pre (bs @ rest)); s x c }) = Some (y, cur_at (pre @ bs) rest)"
    using wire_reader.fwd [OF assms(1) *(2), of pre "b2 @ rest"]
      wire_reader.fwd [OF assms(2) *(3), of "pre @ b1" rest] *(1) by simp
next
  fix pre rest y c'
  assume run: "(do { (x, c) \<leftarrow> r (cur_at pre rest); s x c }) = Some (y, c')" and ok: "cur_err c' = None"
  then obtain x c where r: "r (cur_at pre rest) = Some (x, c)" and s: "s x c = Some (y, c')"
    by (auto simp: bind_eq_Some_conv)
  have c: "cur_ok c" using runs_SomeD [OF wire_reader.safe [OF assms(1)] r] by (simp add: cur_step_ok)
  then have "cur_step c c'" using runs_SomeD [OF wire_reader.safe [OF assms(2)] s] by simp
  with ok have "cur_err c = None" by (rule cur_step_noerr [rotated])
  from wire_reader.bwd [OF assms(1) r this] obtain b1 r1 where
    1: "rest = b1 @ r1" "c = cur_at (pre @ b1) r1" "f x b1" by blast
  from wire_reader.bwd [OF assms(2) s [unfolded 1(2)] ok] obtain b2 r2 where
    2: "r1 = b2 @ r2" "c' = cur_at ((pre @ b1) @ b2) r2" "g x y b2" by blast
  show "\<exists>bs rest'. rest = bs @ rest' \<and> c' = cur_at (pre @ bs) rest' \<and>
      (\<exists>x b1 b2. bs = b1 @ b2 \<and> f x b1 \<and> g x y b2)"
    using 1 2 by (intro exI [of _ "b1 @ b2"] exI [of _ r2]) auto
next
  fix c assume "cur_ok c"
  then have "runs (r c) (\<lambda>(x, c'). cur_step c c')" by (rule wire_reader.safe [OF assms(1)])
  then show "runs (do { (x, c) \<leftarrow> r c; s x c }) (\<lambda>(x, c'). cur_step c c')"
    unfolding runs_bind
  proof (rule runs_mono, clarsimp)
    fix x d assume d: "cur_step c d"
    then have "runs (s x d) (\<lambda>(y, c'). cur_step d c')"
      by (intro wire_reader.safe [OF assms(2)] cur_step_ok)
    then show "runs (s x d) (\<lambda>(y, c'). cur_step c c')"
      by (rule runs_mono) (auto intro: cur_step_trans [OF d])
  qed
qed

lemma wire_if:
  assumes "b \<Longrightarrow> wire_reader r f" and "\<not> b \<Longrightarrow> wire_reader s g"
  shows "wire_reader (\<lambda>c. if b then r c else s c) (\<lambda>x bs. if b then f x bs else g x bs)"
  using assms by (cases b) simp_all

subsection \<open>Closure: the count guard\<close>

lemma checkCount_step:
  assumes "cur_ok c" and "checkCount n k w c = (ok, c')"
  shows "cur_step c c' \<and> (ok \<longrightarrow> c' = c) \<and> (\<not> ok \<longrightarrow> cur_err c' \<noteq> None)"
  using assms by (auto simp: checkCount_def cur_step_refl is_short_def intro!: cur_fail_step split: if_splits)

lemma checkCount_True_iff:
  assumes "0 < k" and "k < 2 ^ 32"
  shows "checkCount n k w (cur_at pre rest) = (True, c') \<longleftrightarrow>
    unat n * nat k \<le> length rest \<and> c' = cur_at pre rest"
proof -
  have k: "uint (word_of_int k :: u64) = k" using assms by (simp add: uint_word_of_int)
  have n: "uint (ucast n :: u64) = uint n" by (simp add: uint_up_ucast is_up)
  have "uint n * k < 2 ^ 32 * 2 ^ 32"
    using assms uint_lt2p [of n] by (intro mult_strict_mono) auto
  then have "uint ((ucast n :: u64) * word_of_int k) = uint n * k"
    using assms by (simp add: uint_word_ariths k n)
  moreover have "uint n * k = int (unat n * nat k)"
    using assms by simp
  ultimately have "uint ((ucast n :: u64) * word_of_int k) \<le> int (length rest) \<longleftrightarrow>
      unat n * nat k \<le> length rest"
    by (simp only: of_nat_le_iff)
  then show ?thesis
    using assms(1) by (simp add: checkCount_def not_less [symmetric]) metis
qed

lemma wire_guard:
  assumes "wire_reader r f" and "\<And>x bs. f x bs \<Longrightarrow> unat n * nat k \<le> length bs"
    and "0 < k" and "k < 2 ^ 32"
  shows "wire_reader (\<lambda>c. case checkCount n k w c of (ok, c) \<Rightarrow> if \<not> ok then Some (d, c) else r c) f"
proof unfold_locales
  fix x bs pre rest assume f: "f x bs"
  then have "checkCount n k w (cur_at pre (bs @ rest)) = (True, cur_at pre (bs @ rest))"
    using assms(2) [OF f] by (simp add: checkCount_True_iff [OF assms(3,4)])
  with f show "(case checkCount n k w (cur_at pre (bs @ rest)) of
      (ok, c) \<Rightarrow> if \<not> ok then Some (d, c) else r c) = Some (x, cur_at (pre @ bs) rest)"
    by (simp add: wire_reader.fwd [OF assms(1)])
next
  fix pre rest x c'
  assume run: "(case checkCount n k w (cur_at pre rest) of
      (ok, c) \<Rightarrow> if \<not> ok then Some (d, c) else r c) = Some (x, c')" and ok: "cur_err c' = None"
  obtain b c1 where 1: "checkCount n k w (cur_at pre rest) = (b, c1)" by fastforce
  with checkCount_step [OF _ 1] run ok have "b" and "c1 = cur_at pre rest"
    by (auto split: if_splits)
  with 1 run have "r (cur_at pre rest) = Some (x, c')" by simp
  from wire_reader.bwd [OF assms(1) this ok]
  show "\<exists>bs rest'. rest = bs @ rest' \<and> c' = cur_at (pre @ bs) rest' \<and> f x bs" .
next
  fix c assume c: "cur_ok c"
  obtain b c1 where 1: "checkCount n k w c = (b, c1)" by fastforce
  with checkCount_step [OF c 1] wire_reader.safe [OF assms(1) c]
  show "runs (case checkCount n k w c of (ok, c) \<Rightarrow> if \<not> ok then Some (d, c) else r c)
      (\<lambda>(x, c'). cur_step c c')"
    by (auto simp: runs_def)
qed

subsection \<open>Closure: record loops\<close>

definition opt_fmt :: "('a \<Rightarrow> bytes \<Rightarrow> bool) \<Rightarrow> 'a option \<Rightarrow> bytes \<Rightarrow> bool" where
  "opt_fmt f r bs = (case r of None \<Rightarrow> False | Some x \<Rightarrow> f x bs)"

fun fmt_list :: "('a \<Rightarrow> bytes \<Rightarrow> bool) \<Rightarrow> 'a list \<Rightarrow> bytes \<Rightarrow> bool" where
  "fmt_list f [] bs = (bs = [])"
| "fmt_list f (x # xs) bs = (\<exists>b1 b2. bs = b1 @ b2 \<and> f x b1 \<and> fmt_list f xs b2)"

lemma opt_fmt_simps [simp]:
  "opt_fmt f (Some x) bs = f x bs" "opt_fmt f None bs = False"
  by (simp_all add: opt_fmt_def)

lemma fmt_list_length:
  assumes "fmt_list f xs bs" and "\<And>x b. f x b \<Longrightarrow> k \<le> length b"
  shows "length xs * k \<le> length bs"
  using assms(1)
proof (induction xs arbitrary: bs)
  case (Cons x xs)
  then obtain b1 b2 where "bs = b1 @ b2" "f x b1" "fmt_list f xs b2" by auto
  with Cons.IH [of b2] assms(2) [of x b1] show ?case by simp
qed simp

lemma fmt_list_enc:
  "fmt_list (\<lambda>x b. valid x \<and> b = enc x) xs bs \<longleftrightarrow> list_all valid xs \<and> bs = concat (map enc xs)"
  "fmt_list (\<lambda>x b. b = enc x) xs bs \<longleftrightarrow> bs = concat (map enc xs)"
  by (induction xs arbitrary: bs) auto+

lemma fmt_list_cong [fundef_cong]:
  "xs = ys \<Longrightarrow> bs = cs \<Longrightarrow> (\<And>x b. x \<in> set ys \<Longrightarrow> f x b = g x b) \<Longrightarrow> fmt_list f xs bs = fmt_list g ys cs"
  by (induction xs arbitrary: bs ys cs) auto

lemma wire_each:
  assumes "wire_reader r f"
  shows "wire_reader (each r) (opt_fmt f)"
proof -
  have "wire_reader (\<lambda>c. do { (x, c) \<leftarrow> r c; Some (Some x, c) })
      (\<lambda>y bs. \<exists>x b1 b2. bs = b1 @ b2 \<and> f x b1 \<and> (y = Some x \<and> b2 = []))"
    by (intro wire_bind assms wire_return)
  then have "wire_reader (each r) (\<lambda>y bs. \<exists>x b1 b2. bs = b1 @ b2 \<and> f x b1 \<and> (y = Some x \<and> b2 = []))"
    by (simp add: each_def [abs_def])
  then show ?thesis
    by (rule wire_cong) (auto simp: opt_fmt_def split: option.split)
qed

lemma wire_loop:
  assumes "wire_reader body (opt_fmt f)"
  shows "wire_reader (read_loop n body) (\<lambda>xs bs. length xs = n \<and> fmt_list f xs bs)"
proof (induction n)
  case 0
  have "read_loop 0 body = (\<lambda>c. Some ([], c))" by (simp add: fun_eq_iff)
  moreover have "wire_reader (\<lambda>c. Some ([], c)) (\<lambda>xs bs. length xs = 0 \<and> fmt_list f xs bs)"
    by (rule wire_cong [OF wire_return [of "[]"]]) auto
  ultimately show ?case by (simp only:)
next
  case (Suc n)
  let ?s = "\<lambda>y c. case y of None \<Rightarrow> Some ([], c)
      | Some x \<Rightarrow> do { (xs, c) \<leftarrow> read_loop n body c; Some (x # xs, c) }"
  let ?g = "\<lambda>y zs bs. case y of None \<Rightarrow> zs = [] \<and> bs = []
      | Some x \<Rightarrow> \<exists>xs b1 b2. bs = b1 @ b2 \<and> (length xs = n \<and> fmt_list f xs b1) \<and> zs = x # xs \<and> b2 = []"
  have "wire_reader (?s y) (?g y)" for y
    using wire_return [of "[]"] wire_bind [OF Suc.IH wire_return, of "\<lambda>xs. the y # xs"]
    by (cases y) simp_all
  from wire_bind [OF assms this]
  have "wire_reader (\<lambda>c. read_loop (Suc n) body c)
      (\<lambda>zs bs. \<exists>y b1 b2. bs = b1 @ b2 \<and> opt_fmt f y b1 \<and> ?g y zs b2)"
    by (simp only: read_loop.simps(2))
  moreover have "(\<exists>y b1 b2. bs = b1 @ b2 \<and> opt_fmt f y b1 \<and> ?g y zs b2) \<longleftrightarrow>
      length zs = Suc n \<and> fmt_list f zs bs" for zs bs
    by (cases zs) (auto simp: opt_fmt_def split: option.splits, blast)
  ultimately show ?case
    by (rule wire_cong)
qed

lemma wire_times:
  "wire_reader r f \<Longrightarrow> wire_reader (read_loop n (each r)) (\<lambda>xs bs. length xs = n \<and> fmt_list f xs bs)"
  by (intro wire_loop wire_each)

subsection \<open>The primitive reads\<close>

lemma need_at:
  "need (int k) (cur_at pre rest) =
     (if k \<le> length rest then Some (Some (take k rest), cur_at (pre @ take k rest) (drop k rest))
      else Some (None, cur_fail (Errorf ''%w: need %d bytes at offset %d, have %d''
        [AWrap ErrShortPacket, AInt (int k), AInt (int (length pre)), AInt (int (length rest))])
        (cur_at pre rest)))"
  by (simp add: need_def slice_def cur_at_def min_def)

lemma need_err: "cur_err c \<noteq> None \<Longrightarrow> need n c = Some (None, c)"
  by (simp add: need_def)

lemma need_runs:
  assumes "cur_ok c"
  shows "runs (need n c) (\<lambda>(b, c'). cur_step c c' \<and>
    (\<forall>x. b = Some x \<longrightarrow> cur_err c' = None \<and> int (length x) = n) \<and> (b = None \<longrightarrow> cur_err c' \<noteq> None))"
  using assms
  by (auto simp: need_def slice_def cur_step_refl is_short_def cur_ok_def cur_step_def cur_fail_def)

lemma wire_word:
  assumes "LENGTH('a) = 8 * k"
  shows "wire_reader (cur_word k :: cursor \<Rightarrow> ('a::len word \<times> cursor) option)
    (\<lambda>v bs. bs = put_word LittleEndian k v)"
proof unfold_locales
  have codec: "byte_codec (get_word LittleEndian k :: bytes \<Rightarrow> 'a word option) (put_word LittleEndian k) k"
    by (rule word_codec [OF assms])
  fix v :: "'a word" and bs pre rest assume "bs = put_word LittleEndian k v"
  with byte_codec.length_put [OF codec, of v] byte_codec.get_put [OF codec, of v "[]"]
  show "cur_word k (cur_at pre (bs @ rest)) = Some (v, cur_at (pre @ bs) rest)"
    by (simp add: cur_word_def need_at)
next
  have codec: "byte_codec (get_word LittleEndian k :: bytes \<Rightarrow> 'a word option) (put_word LittleEndian k) k"
    by (rule word_codec [OF assms])
  fix pre rest and v :: "'a word" and c'
  assume run: "cur_word k (cur_at pre rest) = Some (v, c')" and ok: "cur_err c' = None"
  then have "k \<le> length rest" and c': "c' = cur_at (pre @ take k rest) (drop k rest)"
    and g: "get_word LittleEndian k (take k rest) = Some v"
    by (auto simp: cur_word_def need_at bind_eq_Some_conv split: if_splits)
  from byte_codec.put_get [OF codec g] have "take k rest = put_word LittleEndian k v" by simp
  with c' show "\<exists>bs rest'. rest = bs @ rest' \<and> c' = cur_at (pre @ bs) rest' \<and>
      bs = put_word LittleEndian k v"
    by (metis append_take_drop_id)
next
  fix c assume "cur_ok c"
  from need_runs [OF this, of "int k"]
  show "runs (cur_word k c) (\<lambda>(v :: 'a word, c'). cur_step c c')"
    unfolding cur_word_def runs_bind
    by (rule runs_mono) (auto simp: get_word_def split: option.splits)
qed

lemma wire_Bytes: "wire_reader (cur_Bytes (int m)) (\<lambda>b bs. bs = b \<and> length b = m)"
proof unfold_locales
  fix b bs pre rest :: bytes assume "bs = b \<and> length b = m"
  then show "cur_Bytes (int m) (cur_at pre (bs @ rest)) = Some (b, cur_at (pre @ bs) rest)"
    by (simp add: cur_Bytes_def need_at)
next
  fix pre rest b c'
  assume "cur_Bytes (int m) (cur_at pre rest) = Some (b, c')" and "cur_err c' = None"
  then show "\<exists>bs rest'. rest = bs @ rest' \<and> c' = cur_at (pre @ bs) rest' \<and> bs = b \<and> length b = m"
    by (cases "m \<le> length rest")
      (auto simp: cur_Bytes_def need_at intro!: exI [of _ "take m rest"] exI [of _ "drop m rest"])
next
  fix c assume "cur_ok c"
  from need_runs [OF this, of "int m"]
  show "runs (cur_Bytes (int m) c) (\<lambda>(b, c'). cur_step c c')"
    unfolding cur_Bytes_def runs_bind
    by (rule runs_mono) (auto split: option.splits)
qed

text \<open>What the fixed-width fields and a point look like on the wire (always little-endian).\<close>

definition enc8 :: "u8 \<Rightarrow> bytes" where "enc8 v = put_word LittleEndian 1 v"
definition enc16 :: "u16 \<Rightarrow> bytes" where "enc16 v = PutUint16 LittleEndian v"
definition enc32 :: "u32 \<Rightarrow> bytes" where "enc32 v = PutUint32 LittleEndian v"
definition enc64 :: "u64 \<Rightarrow> bytes" where "enc64 v = PutUint64 LittleEndian v"

definition enc_Point :: "Point \<Rightarrow> bytes" where
  "enc_Point p = enc32 (pt_X p) @ enc32 (pt_Y p) @ enc32 (pt_Z p)"

lemma length_encs [simp]:
  "length (enc8 a) = 1" "length (enc16 b) = 2" "length (enc32 d) = 4" "length (enc64 e) = 8"
  "length (enc_Point p) = 12"
  by (simp_all add: enc8_def enc16_def enc32_def enc64_def enc_Point_def)

lemma enc_inject [simp]:
  "enc8 a = enc8 a' \<longleftrightarrow> a = a'" "enc16 b = enc16 b' \<longleftrightarrow> b = b'"
  "enc32 d = enc32 d' \<longleftrightarrow> d = d'" "enc64 e = enc64 e' \<longleftrightarrow> e = e'"
  unfolding enc8_def enc16_def enc32_def enc64_def
  by (metis u8c.put_inj, metis u16c.put_inj, metis u32c.put_inj, metis u64c.put_inj)

lemma enc_not_Nil [simp]:
  "enc8 a \<noteq> []" "enc16 b \<noteq> []" "enc32 d \<noteq> []" "enc64 e \<noteq> []"
  by (metis length_encs list.size(3) zero_neq_numeral zero_neq_one)+

lemma enc_Point_inject [simp]: "enc_Point p = enc_Point q \<longleftrightarrow> p = q"
  by (cases p, cases q) (auto simp: enc_Point_def)

interpretation rd8: wire_reader cur_Uint8 "\<lambda>v bs. bs = enc8 v"
  unfolding cur_Uint8_def enc8_def by (rule wire_word) simp
interpretation rd16: wire_reader cur_Uint16 "\<lambda>v bs. bs = enc16 v"
  unfolding cur_Uint16_def enc16_def by (rule wire_word) simp
interpretation rd32: wire_reader cur_Uint32 "\<lambda>v bs. bs = enc32 v"
  unfolding cur_Uint32_def enc32_def by (rule wire_word) simp
interpretation rd64: wire_reader cur_Uint64 "\<lambda>v bs. bs = enc64 v"
  unfolding cur_Uint64_def enc64_def by (rule wire_word) simp
interpretation rdf: wire_reader cur_Float32 "\<lambda>v bs. bs = enc32 v"
  unfolding cur_Float32_def enc32_def by (rule wire_word) simp

lemmas wire_prims =
  rd8.wire_reader_axioms rd16.wire_reader_axioms rd32.wire_reader_axioms
  rd64.wire_reader_axioms rdf.wire_reader_axioms

lemmas wire_rules = wire_prims wire_return wire_bind wire_times wire_loop

interpretation rdpt: wire_reader cur_Point "\<lambda>p bs. bs = enc_Point p"
  unfolding cur_Point_def [abs_def]
  by (rule wire_cong, (rule wire_rules)+) (auto simp: enc_Point_def)

lemma rdpt_reader: "wire_reader cur_Point (\<lambda>p bs. bs = enc_Point p)"
  by (rule rdpt.wire_reader_axioms)

text \<open>
  Turning the closure rules' description of a record list with its count field into the
  plain one: the count is the length, and the records follow one another.
\<close>

lemma guard_loop:
  assumes "length xs = n" and "fmt_list f xs bs" and "\<And>x b. f x b \<Longrightarrow> k \<le> length b"
  shows "n * k \<le> length bs"
  using fmt_list_length [OF assms(2,3)] assms(1) by simp

lemma count_iff:
  fixes n :: u32
  shows "length xs = unat n \<longleftrightarrow> length xs < 2 ^ 32 \<and> n = of_nat (length xs)"
proof
  assume "length xs = unat n"
  moreover have "unat n < 2 ^ LENGTH(32)" by (rule unsigned_less)
  ultimately show "length xs < 2 ^ 32 \<and> n = of_nat (length xs)" by simp
qed (auto simp: unat_of_nat)

text \<open>
  An early exit on a condition \<open>P\<close> of the cursor, leaving it as \<open>g c\<close>: harmless when the
  exit leaves an error and no well-formed input takes it.
\<close>

lemma wire_check:
  assumes "wire_reader r f"
    and "\<And>c. cur_ok c \<Longrightarrow> P c \<Longrightarrow> cur_step c (g c) \<and> cur_err (g c) \<noteq> None"
    and "\<And>x bs pre rest. f x bs \<Longrightarrow> \<not> P (cur_at pre (bs @ rest))"
  shows "wire_reader (\<lambda>c. if P c then Some (d, g c) else r c) f"
proof unfold_locales
  fix x bs pre rest assume "f x bs"
  then show "(if P (cur_at pre (bs @ rest)) then Some (d, g (cur_at pre (bs @ rest)))
      else r (cur_at pre (bs @ rest))) = Some (x, cur_at (pre @ bs) rest)"
    by (simp add: assms(3) wire_reader.fwd [OF assms(1)])
next
  fix pre rest x c'
  assume run: "(if P (cur_at pre rest) then Some (d, g (cur_at pre rest)) else r (cur_at pre rest))
      = Some (x, c')" and ok: "cur_err c' = None"
  with assms(2) [of "cur_at pre rest"] have "r (cur_at pre rest) = Some (x, c')"
    by (auto split: if_splits)
  from wire_reader.bwd [OF assms(1) this ok]
  show "\<exists>bs rest'. rest = bs @ rest' \<and> c' = cur_at (pre @ bs) rest' \<and> f x bs" .
next
  fix c assume "cur_ok c"
  with assms(2) wire_reader.safe [OF assms(1)]
  show "runs (if P c then Some (d, g c) else r c) (\<lambda>(x, c'). cur_step c c')" by simp
qed

lemma wire_guarded_loop:
  assumes "wire_reader body (opt_fmt f)" and "\<And>x b. f x b \<Longrightarrow> nat k \<le> length b"
    and "0 < k" and "k < 2 ^ 32"
  shows "wire_reader (\<lambda>c. case checkCount n k w c of (ok, c) \<Rightarrow>
      if \<not> ok then Some (d, c)
      else do { (xs, c) \<leftarrow> read_loop (unat n) body c; Some (h xs, c) })
    (\<lambda>y bs. \<exists>xs. y = h xs \<and> length xs = unat n \<and> fmt_list f xs bs)"
proof (rule wire_guard [OF _ _ assms(3,4)])
  show "wire_reader (\<lambda>c. do { (xs, c) \<leftarrow> read_loop (unat n) body c; Some (h xs, c) })
      (\<lambda>y bs. \<exists>xs. y = h xs \<and> length xs = unat n \<and> fmt_list f xs bs)"
    by (rule wire_cong [OF wire_bind [OF wire_loop [OF assms(1)] wire_return]]) (simp, blast)
  show "unat n * nat k \<le> length bs" if fmt: "\<exists>xs. y = h xs \<and> length xs = unat n \<and> fmt_list f xs bs" for y bs
  proof -
    from fmt obtain xs where "length xs = unat n" and "fmt_list f xs bs" by blast
    then show ?thesis by (rule guard_loop) (rule assms(2))
  qed
qed

subsection \<open>Components\<close>

text \<open>
  What \<open>IDataObject\<close> promises its caller: \<open>UnmarshalBinary\<close> never panics, the only
  errors are short packets, and an empty payload leaves the receiver as it is.
\<close>

locale data_object =
  fixes unmarshal :: "'c \<Rightarrow> bytes \<Rightarrow> (err option \<times> 'c) option"
  assumes returns: "runs (unmarshal c data) (\<lambda>(e, c'). \<forall>x. e = Some x \<longrightarrow> is_short x)"
    and empty: "unmarshal c [] = Some (None, c)"

text \<open>A component with a wire format: the reader its parser runs, and what it reads.\<close>

locale wire_component =
  fixes dec :: "'c \<Rightarrow> cursor \<Rightarrow> ('c \<times> cursor) option" and fmt :: "'c \<Rightarrow> bytes \<Rightarrow> bool"
  assumes wire: "wire_reader (dec c0) fmt"
    and nonempty: "fmt c bs \<Longrightarrow> bs \<noteq> []"
begin

lemma roundtrip: "fmt c bs \<Longrightarrow> with_cursor dec c0 (bs @ rest) = Some (None, c)"
  using wire_reader.fwd [OF wire, of c bs c0 "[]" rest] nonempty [of c bs]
  by (simp add: with_cursor_def newCursor_at cur_Err_def)

lemma sound:
  assumes "with_cursor dec c0 data = Some (None, c)" and "data \<noteq> []"
  shows "\<exists>bs rest. data = bs @ rest \<and> fmt c bs"
proof -
  from assms obtain cur where d: "dec c0 (cur_at [] data) = Some (c, cur)" and "cur_err cur = None"
    by (auto simp: with_cursor_def newCursor_at cur_Err_def bind_eq_Some_conv)
  from wire_reader.bwd [OF wire this] show ?thesis by blast
qed

lemma returns_short:
  "runs (with_cursor dec c data) (\<lambda>(e, c'). \<forall>x. e = Some x \<longrightarrow> is_short x)"
proof -
  have "runs (dec c (newCursor data)) (\<lambda>(c', cur). cur_step (newCursor data) cur)"
    by (rule wire_reader.safe [OF wire]) (simp add: newCursor_at)
  then show ?thesis
    by (auto simp: with_cursor_def cur_step_def cur_ok_def cur_Err_def elim!: runs_mono)
qed

lemma truncated:
  assumes "fmt c bs" and "0 < k" and "k < length bs"
  shows "\<exists>e c'. with_cursor dec c0 (take k bs) = Some (Some e, c') \<and> is_short e"
proof -
  have "runs (with_cursor dec c0 (take k bs)) (\<lambda>(e, c'). e \<noteq> None)"
  proof -
    have "runs (dec c0 (cur_at [] (take k bs))) (\<lambda>(c', cur). True)"
      by (rule runs_mono [OF wire_reader.safe [OF wire]]) simp_all
    then obtain c' cur where d: "dec c0 (cur_at [] (take k bs)) = Some (c', cur)"
      by (auto simp: runs_def)
    from wire_reader.truncated [OF wire assms(1,3) d] d show ?thesis
      using assms(2,3) by (auto simp: with_cursor_def newCursor_at cur_Err_def)
  qed
  with returns_short [of c0 "take k bs"] show ?thesis
    by (fastforce simp: runs_def)
qed

lemma exact:
  "data \<noteq> [] \<Longrightarrow>
    with_cursor dec c0 data = Some (None, c) \<longleftrightarrow> (\<exists>bs rest. data = bs @ rest \<and> fmt c bs)"
  using sound roundtrip by blast

lemma unique: "fmt c bs \<Longrightarrow> fmt c' (bs @ rest) \<Longrightarrow> c = c' \<and> rest = []"
  by (rule wire_reader.prefix_free [OF wire])

end

sublocale wire_component \<subseteq> data_object "with_cursor dec"
  by unfold_locales (rule returns_short, simp add: with_cursor_def)

end
