(* ===== verification/Markers.thy ===== *)
theory Markers
  imports Wire_Format
begin

text \<open>
  \<open>pkg/packets/markers3d.go\<close> and \<open>pkg/packets/markers2d.go\<close>: the four 3D marker
  components and the two per-camera 2D components, with their wire formats.
\<close>

subsection \<open>3D markers\<close>

record Marker =
  m_Point :: Point
  m_Residual :: f32
  m_ID :: u32

record Component3D =
  c3_Droprate :: u16
  c3_OutOfSyncRate :: u16
  c3_Markers :: "Marker list"

definition zero_Component3D :: Component3D where
  "zero_Component3D = \<lparr>c3_Droprate = 0, c3_OutOfSyncRate = 0, c3_Markers = []\<rparr>"

definition read_marker :: "bool \<Rightarrow> bool \<Rightarrow> cursor \<Rightarrow> (Marker \<times> cursor) option" where
  "read_marker withID withResidual cur = do {
     (p, cur) \<leftarrow> cur_Point cur;
     (i, cur) \<leftarrow> (if withID then cur_Uint32 cur else Some (0, cur));
     (r, cur) \<leftarrow> (if withResidual then cur_Float32 cur else Some (0, cur));
     Some (\<lparr>m_Point = p, m_Residual = r, m_ID = i\<rparr>, cur)
   }"

definition stride3D :: "bool \<Rightarrow> bool \<Rightarrow> int" where
  "stride3D withID withResidual =
     12 + (if withID then 4 else 0) + (if withResidual then 4 else 0)"

definition decode3D :: "bool \<Rightarrow> bool \<Rightarrow> Component3D \<Rightarrow> cursor \<Rightarrow> (Component3D \<times> cursor) option" where
  "decode3D withID withResidual c cur = do {
     (count, cur) \<leftarrow> cur_Uint32 cur;
     (droprate, cur) \<leftarrow> cur_Uint16 cur;
     (oosrate, cur) \<leftarrow> cur_Uint16 cur;
     let c = c\<lparr>c3_Droprate := droprate, c3_OutOfSyncRate := oosrate\<rparr>;
     (case checkCount count (stride3D withID withResidual) ''3d marker'' cur of
        (ok, cur) \<Rightarrow>
          if \<not> ok then Some (c, cur)
          else do {
            (ms, cur) \<leftarrow> read_loop (unat count) (each (read_marker withID withResidual)) cur;
            Some (c\<lparr>c3_Markers := ms\<rparr>, cur)
          })
   }"

definition unmarshal3D :: "bool \<Rightarrow> bool \<Rightarrow> Component3D \<Rightarrow> bytes \<Rightarrow> (err option \<times> Component3D) option" where
  "unmarshal3D withID withResidual = with_cursor (decode3D withID withResidual)"

text \<open>The wire format.\<close>

definition enc_marker :: "bool \<Rightarrow> bool \<Rightarrow> Marker \<Rightarrow> bytes" where
  "enc_marker withID withResidual m =
     enc_Point (m_Point m) @ (if withID then enc32 (m_ID m) else [])
     @ (if withResidual then enc32 (m_Residual m) else [])"

definition wf_marker :: "bool \<Rightarrow> bool \<Rightarrow> Marker \<Rightarrow> bool" where
  "wf_marker withID withResidual m \<longleftrightarrow>
     (withID \<or> m_ID m = 0) \<and> (withResidual \<or> m_Residual m = 0)"

definition fmt3D :: "bool \<Rightarrow> bool \<Rightarrow> Component3D \<Rightarrow> bytes \<Rightarrow> bool" where
  "fmt3D withID withResidual c bs \<longleftrightarrow>
     length (c3_Markers c) < 2 ^ 32 \<and> list_all (wf_marker withID withResidual) (c3_Markers c) \<and>
     bs = enc32 (of_nat (length (c3_Markers c))) @ enc16 (c3_Droprate c)
       @ enc16 (c3_OutOfSyncRate c) @ concat (map (enc_marker withID withResidual) (c3_Markers c))"

lemma wire_marker:
  "wire_reader (read_marker wi wr) (\<lambda>m bs. wf_marker wi wr m \<and> bs = enc_marker wi wr m)"
  unfolding read_marker_def [abs_def]
  by (rule wire_cong, (rule wire_rules rdpt_reader wire_if)+)
    (auto simp: enc_marker_def wf_marker_def)

lemma Component3D_eq:
  fixes x :: Component3D
  shows "x = c\<lparr>c3_Droprate := a, c3_OutOfSyncRate := b, c3_Markers := ms\<rparr> \<longleftrightarrow>
     a = c3_Droprate x \<and> b = c3_OutOfSyncRate x \<and> ms = c3_Markers x"
  by (cases x, cases c) auto

lemma wire3D: "wire_reader (decode3D wi wr c0) (fmt3D wi wr)"
  unfolding decode3D_def [abs_def] Let_def
  by (rule wire_cong,
      (rule wire_prims wire_bind wire_guarded_loop [OF wire_each [OF wire_marker]]
       | simp add: enc_marker_def stride3D_def; fail)+)
    (auto simp: fmt3D_def Component3D_eq count_iff fmt_list_enc)

interpretation m3d: wire_component "decode3D wi wr" "fmt3D wi wr"
  rewrites "with_cursor (decode3D wi wr) = unmarshal3D wi wr" for wi wr
  by (rule wire_component.intro [OF wire3D]) (auto simp: fmt3D_def unmarshal3D_def)

text \<open>The four components; the parsers differ in the two flags only.\<close>

definition Component3D_UnmarshalBinary :: "Component3D \<Rightarrow> bytes \<Rightarrow> (err option \<times> Component3D) option" where
  "Component3D_UnmarshalBinary = unmarshal3D False False"

definition Component3DResidual_UnmarshalBinary :: "Component3D \<Rightarrow> bytes \<Rightarrow> (err option \<times> Component3D) option" where
  "Component3DResidual_UnmarshalBinary = unmarshal3D False True"

definition Component3DNoLabels_UnmarshalBinary :: "Component3D \<Rightarrow> bytes \<Rightarrow> (err option \<times> Component3D) option" where
  "Component3DNoLabels_UnmarshalBinary = unmarshal3D True False"

definition Component3DNoLabelsResidual_UnmarshalBinary :: "Component3D \<Rightarrow> bytes \<Rightarrow> (err option \<times> Component3D) option" where
  "Component3DNoLabelsResidual_UnmarshalBinary = unmarshal3D True True"

subsection \<open>2D markers\<close>

record Marker2D =
  m2_X :: u32
  m2_Y :: u32
  m2_DiameterX :: u16
  m2_DiameterY :: u16

record Camera =
  cam_Markers :: "Marker2D list"
  cam_Status :: u8

record Component2D =
  c2_Droprate :: u16
  c2_OutOfSyncRate :: u16
  c2_Cameras :: "Camera list"

definition zero_Component2D :: Component2D where
  "zero_Component2D = \<lparr>c2_Droprate = 0, c2_OutOfSyncRate = 0, c2_Cameras = []\<rparr>"

definition read_marker2D :: "cursor \<Rightarrow> (Marker2D \<times> cursor) option" where
  "read_marker2D cur = do {
     (x, cur) \<leftarrow> cur_Uint32 cur;
     (y, cur) \<leftarrow> cur_Uint32 cur;
     (dx, cur) \<leftarrow> cur_Uint16 cur;
     (dy, cur) \<leftarrow> cur_Uint16 cur;
     Some (\<lparr>m2_X = x, m2_Y = y, m2_DiameterX = dx, m2_DiameterY = dy\<rparr>, cur)
   }"

definition read_camera :: "cursor \<Rightarrow> (Camera option \<times> cursor) option" where
  "read_camera cur = do {
     (markerCount, cur) \<leftarrow> cur_Uint32 cur;
     (status, cur) \<leftarrow> cur_Uint8 cur;
     (case checkCount markerCount 12 ''2d marker'' cur of (ok, cur) \<Rightarrow>
        if \<not> ok then Some (None, cur)
        else do {
          (ms, cur) \<leftarrow> read_loop (unat markerCount) (each read_marker2D) cur;
          Some (Some \<lparr>cam_Markers = ms, cam_Status = status\<rparr>, cur)
        })
   }"

definition decode2D :: "Component2D \<Rightarrow> cursor \<Rightarrow> (Component2D \<times> cursor) option" where
  "decode2D c cur = do {
     (cameraCount, cur) \<leftarrow> cur_Uint32 cur;
     (droprate, cur) \<leftarrow> cur_Uint16 cur;
     (oosrate, cur) \<leftarrow> cur_Uint16 cur;
     let c = c\<lparr>c2_Droprate := droprate, c2_OutOfSyncRate := oosrate\<rparr>;
     (case checkCount cameraCount 5 ''2d camera'' cur of (ok, cur) \<Rightarrow>
        if \<not> ok then Some (c, cur)
        else do {
          (cams, cur) \<leftarrow> read_loop (unat cameraCount) read_camera cur;
          Some (c\<lparr>c2_Cameras := cams\<rparr>, cur)
        })
   }"

definition unmarshal2D :: "Component2D \<Rightarrow> bytes \<Rightarrow> (err option \<times> Component2D) option" where
  "unmarshal2D = with_cursor decode2D"

definition Component2D_UnmarshalBinary :: "Component2D \<Rightarrow> bytes \<Rightarrow> (err option \<times> Component2D) option" where
  "Component2D_UnmarshalBinary = unmarshal2D"

definition Component2DLinearized_UnmarshalBinary :: "Component2D \<Rightarrow> bytes \<Rightarrow> (err option \<times> Component2D) option" where
  "Component2DLinearized_UnmarshalBinary = unmarshal2D"

text \<open>The wire format.\<close>

definition enc_marker2D :: "Marker2D \<Rightarrow> bytes" where
  "enc_marker2D m = enc32 (m2_X m) @ enc32 (m2_Y m) @ enc16 (m2_DiameterX m) @ enc16 (m2_DiameterY m)"

definition enc_camera :: "Camera \<Rightarrow> bytes" where
  "enc_camera cam = enc32 (of_nat (length (cam_Markers cam))) @ enc8 (cam_Status cam)
     @ concat (map enc_marker2D (cam_Markers cam))"

definition wf_camera :: "Camera \<Rightarrow> bool" where
  "wf_camera cam \<longleftrightarrow> length (cam_Markers cam) < 2 ^ 32"

definition fmt2D :: "Component2D \<Rightarrow> bytes \<Rightarrow> bool" where
  "fmt2D c bs \<longleftrightarrow> length (c2_Cameras c) < 2 ^ 32 \<and> list_all wf_camera (c2_Cameras c) \<and>
     bs = enc32 (of_nat (length (c2_Cameras c))) @ enc16 (c2_Droprate c) @ enc16 (c2_OutOfSyncRate c)
       @ concat (map enc_camera (c2_Cameras c))"

lemma wire_marker2D: "wire_reader read_marker2D (\<lambda>m bs. bs = enc_marker2D m)"
  unfolding read_marker2D_def [abs_def]
  by (rule wire_cong, (rule wire_rules)+) (auto simp: enc_marker2D_def)

lemma Camera_eq: "x = \<lparr>cam_Markers = ms, cam_Status = s\<rparr> \<longleftrightarrow> ms = cam_Markers x \<and> s = cam_Status x"
  by (cases x) auto

lemma wire_camera: "wire_reader read_camera (opt_fmt (\<lambda>cam bs. wf_camera cam \<and> bs = enc_camera cam))"
  unfolding read_camera_def [abs_def]
  by (rule wire_cong,
      (rule wire_prims wire_bind wire_guarded_loop [OF wire_each [OF wire_marker2D]]
       | simp add: enc_marker2D_def; fail)+)
    (auto simp: opt_fmt_def enc_camera_def wf_camera_def Camera_eq count_iff fmt_list_enc
      split: option.splits)

lemma Component2D_eq:
  fixes x :: Component2D
  shows "x = c\<lparr>c2_Droprate := a, c2_OutOfSyncRate := b, c2_Cameras := ms\<rparr> \<longleftrightarrow>
     a = c2_Droprate x \<and> b = c2_OutOfSyncRate x \<and> ms = c2_Cameras x"
  by (cases x, cases c) auto

lemma wire2D: "wire_reader (decode2D c0) fmt2D"
  unfolding decode2D_def [abs_def] Let_def
  by (rule wire_cong,
      (rule wire_prims wire_bind wire_guarded_loop [OF wire_camera]
       | simp add: enc_camera_def; fail)+)
    (auto simp: fmt2D_def Component2D_eq count_iff fmt_list_enc)

interpretation m2d: wire_component decode2D fmt2D
  rewrites "with_cursor decode2D = unmarshal2D"
  by (rule wire_component.intro [OF wire2D]) (auto simp: fmt2D_def unmarshal2D_def)

end
