(* ===== verification/Objects.thy ===== *)
theory Objects
  imports Wire_Format
begin

text \<open>
  \<open>pkg/packets/objects.go\<close>: the four 6DOF components (rotation matrix or Euler
  angles, with or without residual), with their wire formats. Go's fixed arrays
  \<open>[9]float32\<close> and \<open>[3]float32\<close> are lists; the formats record their lengths.
\<close>

subsection \<open>Position and rotation matrix\<close>

record BodyMatrix =
  bm_Point :: Point
  bm_Residual :: f32
  bm_Rotation :: "f32 list"

record Component6D =
  c6_Droprate :: u16
  c6_OutOfSyncRate :: u16
  c6_Bodies :: "BodyMatrix list"

definition zero_Component6D :: Component6D where
  "zero_Component6D = \<lparr>c6_Droprate = 0, c6_OutOfSyncRate = 0, c6_Bodies = []\<rparr>"

definition read_body :: "bool \<Rightarrow> cursor \<Rightarrow> (BodyMatrix \<times> cursor) option" where
  "read_body withResidual cur = do {
     (p, cur) \<leftarrow> cur_Point cur;
     (rot, cur) \<leftarrow> read_loop 9 (each cur_Float32) cur;
     (r, cur) \<leftarrow> (if withResidual then cur_Float32 cur else Some (0, cur));
     Some (\<lparr>bm_Point = p, bm_Residual = r, bm_Rotation = rot\<rparr>, cur)
   }"

definition decode6D :: "bool \<Rightarrow> Component6D \<Rightarrow> cursor \<Rightarrow> (Component6D \<times> cursor) option" where
  "decode6D withResidual c cur = do {
     (count, cur) \<leftarrow> cur_Uint32 cur;
     (droprate, cur) \<leftarrow> cur_Uint16 cur;
     (oosrate, cur) \<leftarrow> cur_Uint16 cur;
     let c = c\<lparr>c6_Droprate := droprate, c6_OutOfSyncRate := oosrate\<rparr>;
     (case checkCount count (48 + (if withResidual then 4 else 0)) ''6d body'' cur of (ok, cur) \<Rightarrow>
        if \<not> ok then Some (c, cur)
        else do {
          (bs, cur) \<leftarrow> read_loop (unat count) (each (read_body withResidual)) cur;
          Some (c\<lparr>c6_Bodies := bs\<rparr>, cur)
        })
   }"

definition unmarshal6D :: "bool \<Rightarrow> Component6D \<Rightarrow> bytes \<Rightarrow> (err option \<times> Component6D) option" where
  "unmarshal6D withResidual = with_cursor (decode6D withResidual)"

definition Component6D_UnmarshalBinary :: "Component6D \<Rightarrow> bytes \<Rightarrow> (err option \<times> Component6D) option" where
  "Component6D_UnmarshalBinary = unmarshal6D False"

definition Component6DResidual_UnmarshalBinary :: "Component6D \<Rightarrow> bytes \<Rightarrow> (err option \<times> Component6D) option" where
  "Component6DResidual_UnmarshalBinary = unmarshal6D True"

definition enc_body :: "bool \<Rightarrow> BodyMatrix \<Rightarrow> bytes" where
  "enc_body withResidual b = enc_Point (bm_Point b) @ concat (map enc32 (bm_Rotation b))
     @ (if withResidual then enc32 (bm_Residual b) else [])"

definition wf_body :: "bool \<Rightarrow> BodyMatrix \<Rightarrow> bool" where
  "wf_body withResidual b \<longleftrightarrow> length (bm_Rotation b) = 9 \<and> (withResidual \<or> bm_Residual b = 0)"

definition fmt6D :: "bool \<Rightarrow> Component6D \<Rightarrow> bytes \<Rightarrow> bool" where
  "fmt6D withResidual c bs \<longleftrightarrow>
     length (c6_Bodies c) < 2 ^ 32 \<and> list_all (wf_body withResidual) (c6_Bodies c) \<and>
     bs = enc32 (of_nat (length (c6_Bodies c))) @ enc16 (c6_Droprate c) @ enc16 (c6_OutOfSyncRate c)
       @ concat (map (enc_body withResidual) (c6_Bodies c))"

lemma length_concat_enc32: "length (concat (map enc32 xs)) = 4 * length xs"
  by (induction xs) auto

lemma BodyMatrix_eq:
  "x = \<lparr>bm_Point = p, bm_Residual = r, bm_Rotation = m\<rparr> \<longleftrightarrow>
     p = bm_Point x \<and> r = bm_Residual x \<and> m = bm_Rotation x"
  by (cases x) auto

lemma wire_body: "wire_reader (read_body wr) (\<lambda>b bs. wf_body wr b \<and> bs = enc_body wr b)"
  unfolding read_body_def [abs_def]
  by (rule wire_cong, (rule wire_rules rdpt_reader wire_if)+)
    (auto simp: enc_body_def wf_body_def fmt_list_enc BodyMatrix_eq)

lemma Component6D_eq:
  fixes x :: Component6D
  shows "x = c\<lparr>c6_Droprate := a, c6_OutOfSyncRate := b, c6_Bodies := ms\<rparr> \<longleftrightarrow>
     a = c6_Droprate x \<and> b = c6_OutOfSyncRate x \<and> ms = c6_Bodies x"
  by (cases x, cases c) auto

lemma wire6D: "wire_reader (decode6D wr c0) (fmt6D wr)"
  unfolding decode6D_def [abs_def] Let_def
  by (rule wire_cong,
      (rule wire_prims wire_bind wire_guarded_loop [OF wire_each [OF wire_body]]
       | simp add: enc_body_def wf_body_def length_concat_enc32; fail)+)
    (auto simp: fmt6D_def Component6D_eq count_iff fmt_list_enc)

interpretation b6d: wire_component "decode6D wr" "fmt6D wr"
  rewrites "with_cursor (decode6D wr) = unmarshal6D wr" for wr
  by (rule wire_component.intro [OF wire6D]) (auto simp: fmt6D_def unmarshal6D_def)

subsection \<open>Position and Euler angles\<close>

record BodyEuler =
  be_Point :: Point
  be_Residual :: f32
  be_Angles :: "f32 list"

record Component6DEuler =
  ce_Droprate :: u16
  ce_OutOfSyncRate :: u16
  ce_Bodies :: "BodyEuler list"

definition zero_Component6DEuler :: Component6DEuler where
  "zero_Component6DEuler = \<lparr>ce_Droprate = 0, ce_OutOfSyncRate = 0, ce_Bodies = []\<rparr>"

definition read_body_euler :: "bool \<Rightarrow> cursor \<Rightarrow> (BodyEuler \<times> cursor) option" where
  "read_body_euler withResidual cur = do {
     (p, cur) \<leftarrow> cur_Point cur;
     (angles, cur) \<leftarrow> read_loop 3 (each cur_Float32) cur;
     (r, cur) \<leftarrow> (if withResidual then cur_Float32 cur else Some (0, cur));
     Some (\<lparr>be_Point = p, be_Residual = r, be_Angles = angles\<rparr>, cur)
   }"

definition decode6DEuler :: "bool \<Rightarrow> Component6DEuler \<Rightarrow> cursor \<Rightarrow> (Component6DEuler \<times> cursor) option" where
  "decode6DEuler withResidual c cur = do {
     (count, cur) \<leftarrow> cur_Uint32 cur;
     (droprate, cur) \<leftarrow> cur_Uint16 cur;
     (oosrate, cur) \<leftarrow> cur_Uint16 cur;
     let c = c\<lparr>ce_Droprate := droprate, ce_OutOfSyncRate := oosrate\<rparr>;
     (case checkCount count (24 + (if withResidual then 4 else 0)) ''6d euler body'' cur of (ok, cur) \<Rightarrow>
        if \<not> ok then Some (c, cur)
        else do {
          (bs, cur) \<leftarrow> read_loop (unat count) (each (read_body_euler withResidual)) cur;
          Some (c\<lparr>ce_Bodies := bs\<rparr>, cur)
        })
   }"

definition unmarshal6DEuler :: "bool \<Rightarrow> Component6DEuler \<Rightarrow> bytes \<Rightarrow> (err option \<times> Component6DEuler) option" where
  "unmarshal6DEuler withResidual = with_cursor (decode6DEuler withResidual)"

definition Component6DEuler_UnmarshalBinary :: "Component6DEuler \<Rightarrow> bytes \<Rightarrow> (err option \<times> Component6DEuler) option" where
  "Component6DEuler_UnmarshalBinary = unmarshal6DEuler False"

definition Component6DEulerResidual_UnmarshalBinary :: "Component6DEuler \<Rightarrow> bytes \<Rightarrow> (err option \<times> Component6DEuler) option" where
  "Component6DEulerResidual_UnmarshalBinary = unmarshal6DEuler True"

definition enc_body_euler :: "bool \<Rightarrow> BodyEuler \<Rightarrow> bytes" where
  "enc_body_euler withResidual b = enc_Point (be_Point b) @ concat (map enc32 (be_Angles b))
     @ (if withResidual then enc32 (be_Residual b) else [])"

definition wf_body_euler :: "bool \<Rightarrow> BodyEuler \<Rightarrow> bool" where
  "wf_body_euler withResidual b \<longleftrightarrow> length (be_Angles b) = 3 \<and> (withResidual \<or> be_Residual b = 0)"

definition fmt6DEuler :: "bool \<Rightarrow> Component6DEuler \<Rightarrow> bytes \<Rightarrow> bool" where
  "fmt6DEuler withResidual c bs \<longleftrightarrow>
     length (ce_Bodies c) < 2 ^ 32 \<and> list_all (wf_body_euler withResidual) (ce_Bodies c) \<and>
     bs = enc32 (of_nat (length (ce_Bodies c))) @ enc16 (ce_Droprate c) @ enc16 (ce_OutOfSyncRate c)
       @ concat (map (enc_body_euler withResidual) (ce_Bodies c))"

lemma BodyEuler_eq:
  "x = \<lparr>be_Point = p, be_Residual = r, be_Angles = m\<rparr> \<longleftrightarrow>
     p = be_Point x \<and> r = be_Residual x \<and> m = be_Angles x"
  by (cases x) auto

lemma wire_body_euler:
  "wire_reader (read_body_euler wr) (\<lambda>b bs. wf_body_euler wr b \<and> bs = enc_body_euler wr b)"
  unfolding read_body_euler_def [abs_def]
  by (rule wire_cong, (rule wire_rules rdpt_reader wire_if)+)
    (auto simp: enc_body_euler_def wf_body_euler_def fmt_list_enc BodyEuler_eq)

lemma Component6DEuler_eq:
  fixes x :: Component6DEuler
  shows "x = c\<lparr>ce_Droprate := a, ce_OutOfSyncRate := b, ce_Bodies := ms\<rparr> \<longleftrightarrow>
     a = ce_Droprate x \<and> b = ce_OutOfSyncRate x \<and> ms = ce_Bodies x"
  by (cases x, cases c) auto

lemma wire6DEuler: "wire_reader (decode6DEuler wr c0) (fmt6DEuler wr)"
  unfolding decode6DEuler_def [abs_def] Let_def
  by (rule wire_cong,
      (rule wire_prims wire_bind wire_guarded_loop [OF wire_each [OF wire_body_euler]]
       | simp add: enc_body_euler_def wf_body_euler_def length_concat_enc32; fail)+)
    (auto simp: fmt6DEuler_def Component6DEuler_eq count_iff fmt_list_enc)

interpretation e6d: wire_component "decode6DEuler wr" "fmt6DEuler wr"
  rewrites "with_cursor (decode6DEuler wr) = unmarshal6DEuler wr" for wr
  by (rule wire_component.intro [OF wire6DEuler]) (auto simp: fmt6DEuler_def unmarshal6DEuler_def)

end
