(* ===== verification/Force.thy ===== *)
theory Force
  imports Wire_Format
begin

text \<open>
  \<open>pkg/packets/force.go\<close>: force plates with many samples or a single one, with their
  wire formats. (\<open>Point\<close> is declared with the cursor that reads it.)
\<close>

record ForceSample =
  fs_Force :: Point
  fs_Moment :: Point
  fs_CenterOfPressure :: Point

record ForcePlate =
  fp_ID :: u32
  fp_Number :: u32
  fp_Samples :: "ForceSample list"

record ComponentForce =
  cf_ForcePlates :: "ForcePlate list"

definition zero_ComponentForce :: ComponentForce where
  "zero_ComponentForce = \<lparr>cf_ForcePlates = []\<rparr>"

definition forceSampleBytes :: int where
  "forceSampleBytes = 36"

definition read_force_sample :: "cursor \<Rightarrow> (ForceSample \<times> cursor) option" where
  "read_force_sample cur = do {
     (f, cur) \<leftarrow> cur_Point cur;
     (m, cur) \<leftarrow> cur_Point cur;
     (p, cur) \<leftarrow> cur_Point cur;
     Some (\<lparr>fs_Force = f, fs_Moment = m, fs_CenterOfPressure = p\<rparr>, cur)
   }"

definition read_force_plate :: "cursor \<Rightarrow> (ForcePlate option \<times> cursor) option" where
  "read_force_plate cur = do {
     (i, cur) \<leftarrow> cur_Uint32 cur;
     (sampleCount, cur) \<leftarrow> cur_Uint32 cur;
     (number, cur) \<leftarrow> cur_Uint32 cur;
     (case checkCount sampleCount forceSampleBytes ''force sample'' cur of (ok, cur) \<Rightarrow>
        if \<not> ok then Some (None, cur)
        else do {
          (ss, cur) \<leftarrow> read_loop (unat sampleCount) (each read_force_sample) cur;
          Some (Some \<lparr>fp_ID = i, fp_Number = number, fp_Samples = ss\<rparr>, cur)
        })
   }"

definition decodeForce :: "ComponentForce \<Rightarrow> cursor \<Rightarrow> (ComponentForce \<times> cursor) option" where
  "decodeForce c cur = do {
     (plateCount, cur) \<leftarrow> cur_Uint32 cur;
     (case checkCount plateCount 12 ''force plate'' cur of (ok, cur) \<Rightarrow>
        if \<not> ok then Some (c, cur)
        else do {
          (ps, cur) \<leftarrow> read_loop (unat plateCount) read_force_plate cur;
          Some (c\<lparr>cf_ForcePlates := ps\<rparr>, cur)
        })
   }"

definition ComponentForce_UnmarshalBinary :: "ComponentForce \<Rightarrow> bytes \<Rightarrow> (err option \<times> ComponentForce) option" where
  "ComponentForce_UnmarshalBinary = with_cursor decodeForce"

definition read_force_plate_single :: "cursor \<Rightarrow> (ForcePlate \<times> cursor) option" where
  "read_force_plate_single cur = do {
     (i, cur) \<leftarrow> cur_Uint32 cur;
     (s, cur) \<leftarrow> read_force_sample cur;
     Some (\<lparr>fp_ID = i, fp_Number = 0, fp_Samples = [s]\<rparr>, cur)
   }"

definition decodeForceSingle :: "ComponentForce \<Rightarrow> cursor \<Rightarrow> (ComponentForce \<times> cursor) option" where
  "decodeForceSingle c cur = do {
     (plateCount, cur) \<leftarrow> cur_Uint32 cur;
     (case checkCount plateCount (4 + forceSampleBytes) ''force plate'' cur of (ok, cur) \<Rightarrow>
        if \<not> ok then Some (c, cur)
        else do {
          (ps, cur) \<leftarrow> read_loop (unat plateCount) (each read_force_plate_single) cur;
          Some (c\<lparr>cf_ForcePlates := ps\<rparr>, cur)
        })
   }"

definition ComponentForceSingle_UnmarshalBinary :: "ComponentForce \<Rightarrow> bytes \<Rightarrow> (err option \<times> ComponentForce) option" where
  "ComponentForceSingle_UnmarshalBinary = with_cursor decodeForceSingle"

text \<open>The wire formats.\<close>

definition enc_force_sample :: "ForceSample \<Rightarrow> bytes" where
  "enc_force_sample s = enc_Point (fs_Force s) @ enc_Point (fs_Moment s) @ enc_Point (fs_CenterOfPressure s)"

definition enc_force_plate :: "ForcePlate \<Rightarrow> bytes" where
  "enc_force_plate p = enc32 (fp_ID p) @ enc32 (of_nat (length (fp_Samples p))) @ enc32 (fp_Number p)
     @ concat (map enc_force_sample (fp_Samples p))"

definition wf_force_plate :: "ForcePlate \<Rightarrow> bool" where
  "wf_force_plate p \<longleftrightarrow> length (fp_Samples p) < 2 ^ 32"

definition fmtForce :: "ComponentForce \<Rightarrow> bytes \<Rightarrow> bool" where
  "fmtForce c bs \<longleftrightarrow> length (cf_ForcePlates c) < 2 ^ 32 \<and> list_all wf_force_plate (cf_ForcePlates c) \<and>
     bs = enc32 (of_nat (length (cf_ForcePlates c))) @ concat (map enc_force_plate (cf_ForcePlates c))"

definition enc_force_plate_single :: "ForcePlate \<Rightarrow> bytes" where
  "enc_force_plate_single p = enc32 (fp_ID p) @ concat (map enc_force_sample (fp_Samples p))"

definition wf_force_plate_single :: "ForcePlate \<Rightarrow> bool" where
  "wf_force_plate_single p \<longleftrightarrow> length (fp_Samples p) = 1 \<and> fp_Number p = 0"

definition fmtForceSingle :: "ComponentForce \<Rightarrow> bytes \<Rightarrow> bool" where
  "fmtForceSingle c bs \<longleftrightarrow>
     length (cf_ForcePlates c) < 2 ^ 32 \<and> list_all wf_force_plate_single (cf_ForcePlates c) \<and>
     bs = enc32 (of_nat (length (cf_ForcePlates c))) @ concat (map enc_force_plate_single (cf_ForcePlates c))"

lemma ForceSample_eq:
  "x = \<lparr>fs_Force = a, fs_Moment = b, fs_CenterOfPressure = d\<rparr> \<longleftrightarrow>
     a = fs_Force x \<and> b = fs_Moment x \<and> d = fs_CenterOfPressure x"
  by (cases x) auto

lemma ForcePlate_eq:
  "x = \<lparr>fp_ID = a, fp_Number = b, fp_Samples = ss\<rparr> \<longleftrightarrow>
     a = fp_ID x \<and> b = fp_Number x \<and> fp_Samples x = ss"
  by (cases x) auto

lemma ComponentForce_eq:
  fixes x :: ComponentForce
  shows "x = c\<lparr>cf_ForcePlates := ps\<rparr> \<longleftrightarrow> ps = cf_ForcePlates x"
  by (cases x, cases c) auto

lemma length_enc_force_sample [simp]: "length (enc_force_sample s) = 36"
  by (simp add: enc_force_sample_def)

lemma wire_force_sample: "wire_reader read_force_sample (\<lambda>s bs. bs = enc_force_sample s)"
  unfolding read_force_sample_def [abs_def]
  by (rule wire_cong, (rule wire_rules rdpt_reader)+) (auto simp: enc_force_sample_def ForceSample_eq)

lemma wire_force_plate:
  "wire_reader read_force_plate (opt_fmt (\<lambda>p bs. wf_force_plate p \<and> bs = enc_force_plate p))"
  unfolding read_force_plate_def [abs_def]
  by (rule wire_cong,
      (rule wire_prims wire_bind wire_guarded_loop [OF wire_each [OF wire_force_sample]]
       | simp add: forceSampleBytes_def; fail)+)
    (auto simp: opt_fmt_def enc_force_plate_def wf_force_plate_def ForcePlate_eq count_iff fmt_list_enc
      split: option.splits)

lemma wireForce: "wire_reader (decodeForce c0) fmtForce"
  unfolding decodeForce_def [abs_def]
  by (rule wire_cong,
      (rule wire_prims wire_bind wire_guarded_loop [OF wire_force_plate]
       | simp add: enc_force_plate_def; fail)+)
    (auto simp: fmtForce_def ComponentForce_eq count_iff fmt_list_enc)

interpretation frc: wire_component decodeForce fmtForce
  rewrites "with_cursor decodeForce = ComponentForce_UnmarshalBinary"
  by (rule wire_component.intro [OF wireForce]) (auto simp: fmtForce_def ComponentForce_UnmarshalBinary_def)

lemma wire_force_plate_single:
  "wire_reader read_force_plate_single (\<lambda>p bs. wf_force_plate_single p \<and> bs = enc_force_plate_single p)"
  unfolding read_force_plate_single_def [abs_def]
  by (rule wire_cong, (rule wire_rules wire_force_sample)+)
    (auto simp: enc_force_plate_single_def wf_force_plate_single_def ForcePlate_eq length_Suc_conv)

lemma wireForceSingle: "wire_reader (decodeForceSingle c0) fmtForceSingle"
  unfolding decodeForceSingle_def [abs_def]
  by (rule wire_cong,
      (rule wire_prims wire_bind wire_guarded_loop [OF wire_each [OF wire_force_plate_single]]
       | auto simp: enc_force_plate_single_def wf_force_plate_single_def forceSampleBytes_def length_Suc_conv; fail)+)
    (auto simp: fmtForceSingle_def ComponentForce_eq count_iff fmt_list_enc)

interpretation frs: wire_component decodeForceSingle fmtForceSingle
  rewrites "with_cursor decodeForceSingle = ComponentForceSingle_UnmarshalBinary"
  by (rule wire_component.intro [OF wireForceSingle])
    (auto simp: fmtForceSingle_def ComponentForceSingle_UnmarshalBinary_def)

end
