(* ===== verification/Gaze_Eye.thy ===== *)
theory Gaze_Eye
  imports Wire_Format
begin

text \<open>
  \<open>pkg/packets/gazevector.go\<close>, \<open>pkg/packets/eyetracker.go\<close> and
  \<open>pkg/packets/skeleton.go\<close>: gaze vectors, pupil diameters and skeletons, with their
  wire formats. A gaze or eye tracker device without samples omits its sample number.
\<close>

subsection \<open>Gaze vectors\<close>

record GazeVectorSample =
  gs_X :: f32
  gs_Y :: f32
  gs_Z :: f32
  gs_PositionX :: f32
  gs_PositionY :: f32
  gs_PositionZ :: f32

record GazeVector =
  gv_SampleNumber :: u32
  gv_Samples :: "GazeVectorSample list"

record ComponentGazeVector =
  cg_GazeVectors :: "GazeVector list"

definition zero_ComponentGazeVector :: ComponentGazeVector where
  "zero_ComponentGazeVector = \<lparr>cg_GazeVectors = []\<rparr>"

definition read_gaze_sample :: "cursor \<Rightarrow> (GazeVectorSample \<times> cursor) option" where
  "read_gaze_sample cur = do {
     (x, cur) \<leftarrow> cur_Float32 cur;
     (y, cur) \<leftarrow> cur_Float32 cur;
     (z, cur) \<leftarrow> cur_Float32 cur;
     (px, cur) \<leftarrow> cur_Float32 cur;
     (py, cur) \<leftarrow> cur_Float32 cur;
     (pz, cur) \<leftarrow> cur_Float32 cur;
     Some (\<lparr>gs_X = x, gs_Y = y, gs_Z = z, gs_PositionX = px, gs_PositionY = py, gs_PositionZ = pz\<rparr>, cur)
   }"

definition read_gaze_vector :: "cursor \<Rightarrow> (GazeVector option \<times> cursor) option" where
  "read_gaze_vector cur = do {
     (sampleCount, cur) \<leftarrow> cur_Uint32 cur;
     (if sampleCount = 0 then Some (Some \<lparr>gv_SampleNumber = 0, gv_Samples = []\<rparr>, cur)
      else do {
        (number, cur) \<leftarrow> cur_Uint32 cur;
        (case checkCount sampleCount 24 ''gaze vector sample'' cur of (ok, cur) \<Rightarrow>
           if \<not> ok then Some (None, cur)
           else do {
             (ss, cur) \<leftarrow> read_loop (unat sampleCount) (each read_gaze_sample) cur;
             Some (Some \<lparr>gv_SampleNumber = number, gv_Samples = ss\<rparr>, cur)
           })
      })
   }"

definition decodeGazeVector :: "ComponentGazeVector \<Rightarrow> cursor \<Rightarrow> (ComponentGazeVector \<times> cursor) option" where
  "decodeGazeVector c cur = do {
     (deviceCount, cur) \<leftarrow> cur_Uint32 cur;
     (case checkCount deviceCount 4 ''gaze vector'' cur of (ok, cur) \<Rightarrow>
        if \<not> ok then Some (c, cur)
        else do {
          (gs, cur) \<leftarrow> read_loop (unat deviceCount) read_gaze_vector cur;
          Some (c\<lparr>cg_GazeVectors := gs\<rparr>, cur)
        })
   }"

definition ComponentGazeVector_UnmarshalBinary :: "ComponentGazeVector \<Rightarrow> bytes \<Rightarrow>
    (err option \<times> ComponentGazeVector) option" where
  "ComponentGazeVector_UnmarshalBinary = with_cursor decodeGazeVector"

definition enc_gaze_sample :: "GazeVectorSample \<Rightarrow> bytes" where
  "enc_gaze_sample s = enc32 (gs_X s) @ enc32 (gs_Y s) @ enc32 (gs_Z s)
     @ enc32 (gs_PositionX s) @ enc32 (gs_PositionY s) @ enc32 (gs_PositionZ s)"

definition enc_gaze_vector :: "GazeVector \<Rightarrow> bytes" where
  "enc_gaze_vector g = enc32 (of_nat (length (gv_Samples g)))
     @ (if gv_Samples g = [] then [] else enc32 (gv_SampleNumber g))
     @ concat (map enc_gaze_sample (gv_Samples g))"

definition wf_gaze_vector :: "GazeVector \<Rightarrow> bool" where
  "wf_gaze_vector g \<longleftrightarrow> length (gv_Samples g) < 2 ^ 32 \<and> (gv_Samples g = [] \<longrightarrow> gv_SampleNumber g = 0)"

definition fmtGazeVector :: "ComponentGazeVector \<Rightarrow> bytes \<Rightarrow> bool" where
  "fmtGazeVector c bs \<longleftrightarrow> length (cg_GazeVectors c) < 2 ^ 32 \<and> list_all wf_gaze_vector (cg_GazeVectors c) \<and>
     bs = enc32 (of_nat (length (cg_GazeVectors c))) @ concat (map enc_gaze_vector (cg_GazeVectors c))"

lemma GazeVectorSample_eq:
  "s = \<lparr>gs_X = x, gs_Y = y, gs_Z = z, gs_PositionX = px, gs_PositionY = py, gs_PositionZ = pz\<rparr> \<longleftrightarrow>
     x = gs_X s \<and> y = gs_Y s \<and> z = gs_Z s \<and> px = gs_PositionX s \<and> py = gs_PositionY s \<and> pz = gs_PositionZ s"
  by (cases s) auto

lemma GazeVector_eq:
  "g = \<lparr>gv_SampleNumber = n, gv_Samples = ss\<rparr> \<longleftrightarrow> gv_SampleNumber g = n \<and> gv_Samples g = ss"
  by (cases g) auto

lemma ComponentGazeVector_eq:
  fixes x :: ComponentGazeVector
  shows "x = c\<lparr>cg_GazeVectors := gs\<rparr> \<longleftrightarrow> gs = cg_GazeVectors x"
  by (cases x, cases c) auto

lemma length_enc_gaze_sample [simp]: "length (enc_gaze_sample s) = 24"
  by (simp add: enc_gaze_sample_def)

lemma wire_gaze_sample: "wire_reader read_gaze_sample (\<lambda>s bs. bs = enc_gaze_sample s)"
  unfolding read_gaze_sample_def [abs_def]
  by (rule wire_cong, (rule wire_rules)+) (auto simp: enc_gaze_sample_def GazeVectorSample_eq)

text \<open>The count of a list that is not empty, as a 32 bit word, is not zero.\<close>

lemma count_zero_iff:
  "length xs < 4294967296 \<Longrightarrow> (of_nat (length xs) :: u32) = 0 \<longleftrightarrow> xs = []"
  using count_iff [of xs 0] by auto

lemma count_exists:
  "length xs < 4294967296 \<Longrightarrow> xs \<noteq> [] \<Longrightarrow>
    \<exists>n::u32. n \<noteq> 0 \<and> (n \<noteq> 0 \<longrightarrow> of_nat (length xs) = n \<and> n = of_nat (length xs))"
  by (rule exI [of _ "of_nat (length xs)"]) (simp add: count_zero_iff)

lemma enc32_shorter: "enc32 a = enc32 b @ enc32 d @ bs \<longleftrightarrow> False"
  by (auto dest: arg_cong [where f = length])

lemma wire_gaze_vector:
  "wire_reader read_gaze_vector (opt_fmt (\<lambda>g bs. wf_gaze_vector g \<and> bs = enc_gaze_vector g))"
  unfolding read_gaze_vector_def [abs_def]
  by (rule wire_cong,
      (rule wire_prims wire_bind wire_if wire_return wire_guarded_loop [OF wire_each [OF wire_gaze_sample]]
       | simp; fail)+)
    (auto simp: opt_fmt_def enc_gaze_vector_def wf_gaze_vector_def GazeVector_eq count_iff
      fmt_list_enc count_zero_iff enc32_shorter split: option.splits if_splits intro: count_exists)

lemma wireGazeVector: "wire_reader (decodeGazeVector c0) fmtGazeVector"
  unfolding decodeGazeVector_def [abs_def]
  by (rule wire_cong,
      (rule wire_prims wire_bind wire_guarded_loop [OF wire_gaze_vector]
       | simp add: enc_gaze_vector_def; fail)+)
    (auto simp: fmtGazeVector_def ComponentGazeVector_eq count_iff fmt_list_enc)

interpretation gaz: wire_component decodeGazeVector fmtGazeVector
  rewrites "with_cursor decodeGazeVector = ComponentGazeVector_UnmarshalBinary"
  by (rule wire_component.intro [OF wireGazeVector])
    (auto simp: fmtGazeVector_def ComponentGazeVector_UnmarshalBinary_def)

subsection \<open>Eye trackers\<close>

record EyeTrackerSample =
  es_LeftPupilDiameter :: f32
  es_RightPupilDiameter :: f32

record EyeTracker =
  et_SampleNumber :: u32
  et_Samples :: "EyeTrackerSample list"

record ComponentEyeTracker =
  ct_EyeTrackers :: "EyeTracker list"

definition zero_ComponentEyeTracker :: ComponentEyeTracker where
  "zero_ComponentEyeTracker = \<lparr>ct_EyeTrackers = []\<rparr>"

definition read_eye_sample :: "cursor \<Rightarrow> (EyeTrackerSample \<times> cursor) option" where
  "read_eye_sample cur = do {
     (l, cur) \<leftarrow> cur_Float32 cur;
     (r, cur) \<leftarrow> cur_Float32 cur;
     Some (\<lparr>es_LeftPupilDiameter = l, es_RightPupilDiameter = r\<rparr>, cur)
   }"

definition read_eye_tracker :: "cursor \<Rightarrow> (EyeTracker option \<times> cursor) option" where
  "read_eye_tracker cur = do {
     (sampleCount, cur) \<leftarrow> cur_Uint32 cur;
     (if sampleCount = 0 then Some (Some \<lparr>et_SampleNumber = 0, et_Samples = []\<rparr>, cur)
      else do {
        (number, cur) \<leftarrow> cur_Uint32 cur;
        (case checkCount sampleCount 8 ''eye tracker sample'' cur of (ok, cur) \<Rightarrow>
           if \<not> ok then Some (None, cur)
           else do {
             (ss, cur) \<leftarrow> read_loop (unat sampleCount) (each read_eye_sample) cur;
             Some (Some \<lparr>et_SampleNumber = number, et_Samples = ss\<rparr>, cur)
           })
      })
   }"

definition decodeEyeTracker :: "ComponentEyeTracker \<Rightarrow> cursor \<Rightarrow> (ComponentEyeTracker \<times> cursor) option" where
  "decodeEyeTracker c cur = do {
     (deviceCount, cur) \<leftarrow> cur_Uint32 cur;
     (case checkCount deviceCount 4 ''eye tracker'' cur of (ok, cur) \<Rightarrow>
        if \<not> ok then Some (c, cur)
        else do {
          (es, cur) \<leftarrow> read_loop (unat deviceCount) read_eye_tracker cur;
          Some (c\<lparr>ct_EyeTrackers := es\<rparr>, cur)
        })
   }"

definition ComponentEyeTracker_UnmarshalBinary :: "ComponentEyeTracker \<Rightarrow> bytes \<Rightarrow>
    (err option \<times> ComponentEyeTracker) option" where
  "ComponentEyeTracker_UnmarshalBinary = with_cursor decodeEyeTracker"

definition enc_eye_sample :: "EyeTrackerSample \<Rightarrow> bytes" where
  "enc_eye_sample s = enc32 (es_LeftPupilDiameter s) @ enc32 (es_RightPupilDiameter s)"

definition enc_eye_tracker :: "EyeTracker \<Rightarrow> bytes" where
  "enc_eye_tracker e = enc32 (of_nat (length (et_Samples e)))
     @ (if et_Samples e = [] then [] else enc32 (et_SampleNumber e))
     @ concat (map enc_eye_sample (et_Samples e))"

definition wf_eye_tracker :: "EyeTracker \<Rightarrow> bool" where
  "wf_eye_tracker e \<longleftrightarrow> length (et_Samples e) < 2 ^ 32 \<and> (et_Samples e = [] \<longrightarrow> et_SampleNumber e = 0)"

definition fmtEyeTracker :: "ComponentEyeTracker \<Rightarrow> bytes \<Rightarrow> bool" where
  "fmtEyeTracker c bs \<longleftrightarrow> length (ct_EyeTrackers c) < 2 ^ 32 \<and> list_all wf_eye_tracker (ct_EyeTrackers c) \<and>
     bs = enc32 (of_nat (length (ct_EyeTrackers c))) @ concat (map enc_eye_tracker (ct_EyeTrackers c))"

lemma EyeTrackerSample_eq:
  "s = \<lparr>es_LeftPupilDiameter = x, es_RightPupilDiameter = y\<rparr> \<longleftrightarrow>
     x = es_LeftPupilDiameter s \<and> y = es_RightPupilDiameter s"
  by (cases s) auto

lemma EyeTracker_eq:
  "e = \<lparr>et_SampleNumber = n, et_Samples = ss\<rparr> \<longleftrightarrow> et_SampleNumber e = n \<and> et_Samples e = ss"
  by (cases e) auto

lemma ComponentEyeTracker_eq:
  fixes x :: ComponentEyeTracker
  shows "x = c\<lparr>ct_EyeTrackers := es\<rparr> \<longleftrightarrow> es = ct_EyeTrackers x"
  by (cases x, cases c) auto

lemma length_enc_eye_sample [simp]: "length (enc_eye_sample s) = 8"
  by (simp add: enc_eye_sample_def)

lemma wire_eye_sample: "wire_reader read_eye_sample (\<lambda>s bs. bs = enc_eye_sample s)"
  unfolding read_eye_sample_def [abs_def]
  by (rule wire_cong, (rule wire_rules)+) (auto simp: enc_eye_sample_def EyeTrackerSample_eq)

lemma wire_eye_tracker:
  "wire_reader read_eye_tracker (opt_fmt (\<lambda>e bs. wf_eye_tracker e \<and> bs = enc_eye_tracker e))"
  unfolding read_eye_tracker_def [abs_def]
  by (rule wire_cong,
      (rule wire_prims wire_bind wire_if wire_return wire_guarded_loop [OF wire_each [OF wire_eye_sample]]
       | simp; fail)+)
    (auto simp: opt_fmt_def enc_eye_tracker_def wf_eye_tracker_def EyeTracker_eq count_iff
      fmt_list_enc count_zero_iff enc32_shorter split: option.splits if_splits intro: count_exists)

lemma wireEyeTracker: "wire_reader (decodeEyeTracker c0) fmtEyeTracker"
  unfolding decodeEyeTracker_def [abs_def]
  by (rule wire_cong,
      (rule wire_prims wire_bind wire_guarded_loop [OF wire_eye_tracker]
       | simp add: enc_eye_tracker_def; fail)+)
    (auto simp: fmtEyeTracker_def ComponentEyeTracker_eq count_iff fmt_list_enc)

interpretation eye: wire_component decodeEyeTracker fmtEyeTracker
  rewrites "with_cursor decodeEyeTracker = ComponentEyeTracker_UnmarshalBinary"
  by (rule wire_component.intro [OF wireEyeTracker])
    (auto simp: fmtEyeTracker_def ComponentEyeTracker_UnmarshalBinary_def)

subsection \<open>Skeletons\<close>

record Rotation =
  rot_X :: f32
  rot_Y :: f32
  rot_Z :: f32
  rot_W :: f32

record Segment =
  sg_ID :: u32
  sg_Position :: Point
  sg_Rotation :: Rotation

record Skeleton =
  sk_Segments :: "Segment list"

record ComponentSkeleton =
  cs_Skeletons :: "Skeleton list"

definition zero_ComponentSkeleton :: ComponentSkeleton where
  "zero_ComponentSkeleton = \<lparr>cs_Skeletons = []\<rparr>"

definition segmentBytes :: int where
  "segmentBytes = 32"

definition read_segment :: "cursor \<Rightarrow> (Segment \<times> cursor) option" where
  "read_segment cur = do {
     (i, cur) \<leftarrow> cur_Uint32 cur;
     (p, cur) \<leftarrow> cur_Point cur;
     (x, cur) \<leftarrow> cur_Float32 cur;
     (y, cur) \<leftarrow> cur_Float32 cur;
     (z, cur) \<leftarrow> cur_Float32 cur;
     (w, cur) \<leftarrow> cur_Float32 cur;
     Some (\<lparr>sg_ID = i, sg_Position = p,
            sg_Rotation = \<lparr>rot_X = x, rot_Y = y, rot_Z = z, rot_W = w\<rparr>\<rparr>, cur)
   }"

definition read_skeleton :: "cursor \<Rightarrow> (Skeleton option \<times> cursor) option" where
  "read_skeleton cur = do {
     (segmentCount, cur) \<leftarrow> cur_Uint32 cur;
     (case checkCount segmentCount segmentBytes ''skeleton segment'' cur of (ok, cur) \<Rightarrow>
        if \<not> ok then Some (None, cur)
        else do {
          (ss, cur) \<leftarrow> read_loop (unat segmentCount) (each read_segment) cur;
          Some (Some \<lparr>sk_Segments = ss\<rparr>, cur)
        })
   }"

definition decodeSkeleton :: "ComponentSkeleton \<Rightarrow> cursor \<Rightarrow> (ComponentSkeleton \<times> cursor) option" where
  "decodeSkeleton c cur = do {
     (skeletonCount, cur) \<leftarrow> cur_Uint32 cur;
     (case checkCount skeletonCount 4 ''skeleton'' cur of (ok, cur) \<Rightarrow>
        if \<not> ok then Some (c, cur)
        else do {
          (ss, cur) \<leftarrow> read_loop (unat skeletonCount) read_skeleton cur;
          Some (c\<lparr>cs_Skeletons := ss\<rparr>, cur)
        })
   }"

definition ComponentSkeleton_UnmarshalBinary :: "ComponentSkeleton \<Rightarrow> bytes \<Rightarrow>
    (err option \<times> ComponentSkeleton) option" where
  "ComponentSkeleton_UnmarshalBinary = with_cursor decodeSkeleton"

definition enc_segment :: "Segment \<Rightarrow> bytes" where
  "enc_segment s = enc32 (sg_ID s) @ enc_Point (sg_Position s)
     @ enc32 (rot_X (sg_Rotation s)) @ enc32 (rot_Y (sg_Rotation s))
     @ enc32 (rot_Z (sg_Rotation s)) @ enc32 (rot_W (sg_Rotation s))"

definition enc_skeleton :: "Skeleton \<Rightarrow> bytes" where
  "enc_skeleton s = enc32 (of_nat (length (sk_Segments s))) @ concat (map enc_segment (sk_Segments s))"

definition wf_skeleton :: "Skeleton \<Rightarrow> bool" where
  "wf_skeleton s \<longleftrightarrow> length (sk_Segments s) < 2 ^ 32"

definition fmtSkeleton :: "ComponentSkeleton \<Rightarrow> bytes \<Rightarrow> bool" where
  "fmtSkeleton c bs \<longleftrightarrow> length (cs_Skeletons c) < 2 ^ 32 \<and> list_all wf_skeleton (cs_Skeletons c) \<and>
     bs = enc32 (of_nat (length (cs_Skeletons c))) @ concat (map enc_skeleton (cs_Skeletons c))"

lemma Segment_eq:
  "s = \<lparr>sg_ID = i, sg_Position = p, sg_Rotation = \<lparr>rot_X = x, rot_Y = y, rot_Z = z, rot_W = w\<rparr>\<rparr> \<longleftrightarrow>
     i = sg_ID s \<and> p = sg_Position s \<and> x = rot_X (sg_Rotation s) \<and> y = rot_Y (sg_Rotation s)
     \<and> z = rot_Z (sg_Rotation s) \<and> w = rot_W (sg_Rotation s)"
  by (cases s, cases "sg_Rotation s") auto

lemma Skeleton_eq: "s = \<lparr>sk_Segments = ss\<rparr> \<longleftrightarrow> ss = sk_Segments s"
  by (cases s) auto

lemma ComponentSkeleton_eq:
  fixes x :: ComponentSkeleton
  shows "x = c\<lparr>cs_Skeletons := ss\<rparr> \<longleftrightarrow> ss = cs_Skeletons x"
  by (cases x, cases c) auto

lemma length_enc_segment [simp]: "length (enc_segment s) = 32"
  by (simp add: enc_segment_def)

lemma wire_segment: "wire_reader read_segment (\<lambda>s bs. bs = enc_segment s)"
  unfolding read_segment_def [abs_def]
  by (rule wire_cong, (rule wire_rules rdpt_reader)+) (auto simp: enc_segment_def Segment_eq)

lemma wire_skeleton:
  "wire_reader read_skeleton (opt_fmt (\<lambda>s bs. wf_skeleton s \<and> bs = enc_skeleton s))"
  unfolding read_skeleton_def [abs_def]
  by (rule wire_cong,
      (rule wire_prims wire_bind wire_guarded_loop [OF wire_each [OF wire_segment]]
       | simp add: segmentBytes_def; fail)+)
    (auto simp: opt_fmt_def enc_skeleton_def wf_skeleton_def Skeleton_eq count_iff fmt_list_enc
      split: option.splits)

lemma wireSkeleton: "wire_reader (decodeSkeleton c0) fmtSkeleton"
  unfolding decodeSkeleton_def [abs_def]
  by (rule wire_cong,
      (rule wire_prims wire_bind wire_guarded_loop [OF wire_skeleton]
       | simp add: enc_skeleton_def; fail)+)
    (auto simp: fmtSkeleton_def ComponentSkeleton_eq count_iff fmt_list_enc)

interpretation skl: wire_component decodeSkeleton fmtSkeleton
  rewrites "with_cursor decodeSkeleton = ComponentSkeleton_UnmarshalBinary"
  by (rule wire_component.intro [OF wireSkeleton])
    (auto simp: fmtSkeleton_def ComponentSkeleton_UnmarshalBinary_def)

end
