(* ===== verification/Analog.thy ===== *)
theory Analog
  imports Wire_Format
begin

text \<open>
  \<open>pkg/packets/analog.go\<close>: analog devices with many samples per channel or one, with
  their wire formats. The multi-sample format carries its sample count even when there
  is no channel, so it is a relation: the same device has several encodings then. Allocation always succeeds in the model:
  what the guard lets pass is built, however much it is.
\<close>

record AnalogSample =
  as_Value :: f32

record AnalogChannel =
  ac_Samples :: "AnalogSample list"

record AnalogDevice =
  ad_ID :: u32
  ad_SampleNumber :: u32
  ad_Channels :: "AnalogChannel list"

record ComponentAnalog =
  ca_AnalogDevices :: "AnalogDevice list"

definition zero_ComponentAnalog :: ComponentAnalog where
  "zero_ComponentAnalog = \<lparr>ca_AnalogDevices = []\<rparr>"

definition read_analog_sample :: "cursor \<Rightarrow> (AnalogSample \<times> cursor) option" where
  "read_analog_sample cur = do {
     (v, cur) \<leftarrow> cur_Float32 cur;
     Some (\<lparr>as_Value = v\<rparr>, cur)
   }"

definition read_channel :: "u32 \<Rightarrow> cursor \<Rightarrow> (AnalogChannel \<times> cursor) option" where
  "read_channel sampleCount cur =
     (if sampleCount = 0 then Some (\<lparr>ac_Samples = []\<rparr>, cur)
      else do {
        (ss, cur) \<leftarrow> read_loop (unat sampleCount) (each read_analog_sample) cur;
        Some (\<lparr>ac_Samples = ss\<rparr>, cur)
      })"

text \<open>
  The size guard of the multi-sample device multiplies three factors in \<open>uint64\<close>, which
  can wrap around; it runs only while the cursor has no error.
\<close>

definition analog_claim :: "u32 \<Rightarrow> u32 \<Rightarrow> u64" where
  "analog_claim channelCount sampleCount = ucast channelCount * ucast sampleCount * 4"

definition analog_overclaims :: "u32 \<Rightarrow> u32 \<Rightarrow> cursor \<Rightarrow> bool" where
  "analog_overclaims channelCount sampleCount cur \<longleftrightarrow>
     cur_err cur = None \<and> uint (analog_claim channelCount sampleCount) > Remaining cur"

definition read_analog_device :: "cursor \<Rightarrow> (AnalogDevice option \<times> cursor) option" where
  "read_analog_device cur = do {
     (i, cur) \<leftarrow> cur_Uint32 cur;
     (channelCount, cur) \<leftarrow> cur_Uint32 cur;
     (sampleCount, cur) \<leftarrow> cur_Uint32 cur;
     (number, cur) \<leftarrow> cur_Uint32 cur;
     (if analog_overclaims channelCount sampleCount cur then
        Some (None, cur_fail (Errorf ''%w: analog device %d claims %d channels x %d samples''
          [AWrap ErrShortPacket, AInt (uint i), AInt (uint channelCount), AInt (uint sampleCount)]) cur)
      else do {
        (chs, cur) \<leftarrow> read_loop (unat channelCount) (each (read_channel sampleCount)) cur;
        Some (Some \<lparr>ad_ID = i, ad_SampleNumber = number, ad_Channels = chs\<rparr>, cur)
      })
   }"

definition decodeAnalog :: "ComponentAnalog \<Rightarrow> cursor \<Rightarrow> (ComponentAnalog \<times> cursor) option" where
  "decodeAnalog c cur = do {
     (deviceCount, cur) \<leftarrow> cur_Uint32 cur;
     (case checkCount deviceCount 16 ''analog device'' cur of (ok, cur) \<Rightarrow>
        if \<not> ok then Some (c, cur)
        else do {
          (ds, cur) \<leftarrow> read_loop (unat deviceCount) read_analog_device cur;
          Some (c\<lparr>ca_AnalogDevices := ds\<rparr>, cur)
        })
   }"

definition ComponentAnalog_UnmarshalBinary :: "ComponentAnalog \<Rightarrow> bytes \<Rightarrow> (err option \<times> ComponentAnalog) option" where
  "ComponentAnalog_UnmarshalBinary = with_cursor decodeAnalog"

definition read_channel_single :: "cursor \<Rightarrow> (AnalogChannel \<times> cursor) option" where
  "read_channel_single cur = do {
     (s, cur) \<leftarrow> read_analog_sample cur;
     Some (\<lparr>ac_Samples = [s]\<rparr>, cur)
   }"

definition read_analog_device_single :: "cursor \<Rightarrow> (AnalogDevice option \<times> cursor) option" where
  "read_analog_device_single cur = do {
     (i, cur) \<leftarrow> cur_Uint32 cur;
     (channelCount, cur) \<leftarrow> cur_Uint32 cur;
     (case checkCount channelCount 4 ''analog channel'' cur of (ok, cur) \<Rightarrow>
        if \<not> ok then Some (None, cur)
        else do {
          (chs, cur) \<leftarrow> read_loop (unat channelCount) (each read_channel_single) cur;
          Some (Some \<lparr>ad_ID = i, ad_SampleNumber = 0, ad_Channels = chs\<rparr>, cur)
        })
   }"

definition decodeAnalogSingle :: "ComponentAnalog \<Rightarrow> cursor \<Rightarrow> (ComponentAnalog \<times> cursor) option" where
  "decodeAnalogSingle c cur = do {
     (deviceCount, cur) \<leftarrow> cur_Uint32 cur;
     (case checkCount deviceCount 8 ''analog device'' cur of (ok, cur) \<Rightarrow>
        if \<not> ok then Some (c, cur)
        else do {
          (ds, cur) \<leftarrow> read_loop (unat deviceCount) read_analog_device_single cur;
          Some (c\<lparr>ca_AnalogDevices := ds\<rparr>, cur)
        })
   }"

definition ComponentAnalogSingle_UnmarshalBinary :: "ComponentAnalog \<Rightarrow> bytes \<Rightarrow> (err option \<times> ComponentAnalog) option" where
  "ComponentAnalogSingle_UnmarshalBinary = with_cursor decodeAnalogSingle"

text \<open>The wire formats: the samples are grouped by channel.\<close>

definition enc_channel :: "AnalogChannel \<Rightarrow> bytes" where
  "enc_channel ch = concat (map (\<lambda>s. enc32 (as_Value s)) (ac_Samples ch))"

definition wf_channel :: "u32 \<Rightarrow> AnalogChannel \<Rightarrow> bool" where
  "wf_channel sampleCount ch \<longleftrightarrow> length (ac_Samples ch) = unat sampleCount"

definition fmt_analog_device :: "AnalogDevice \<Rightarrow> bytes \<Rightarrow> bool" where
  "fmt_analog_device d bs \<longleftrightarrow> (\<exists>sampleCount :: u32.
     length (ad_Channels d) < 2 ^ 32 \<and>
     list_all (wf_channel sampleCount) (ad_Channels d) \<and>
     bs = enc32 (ad_ID d) @ enc32 (of_nat (length (ad_Channels d))) @ enc32 sampleCount
       @ enc32 (ad_SampleNumber d) @ concat (map enc_channel (ad_Channels d)))"

definition fmtAnalog :: "ComponentAnalog \<Rightarrow> bytes \<Rightarrow> bool" where
  "fmtAnalog c bs \<longleftrightarrow> length (ca_AnalogDevices c) < 2 ^ 32 \<and>
     (\<exists>b. bs = enc32 (of_nat (length (ca_AnalogDevices c))) @ b
        \<and> fmt_list fmt_analog_device (ca_AnalogDevices c) b)"

definition enc_analog_device_single :: "AnalogDevice \<Rightarrow> bytes" where
  "enc_analog_device_single d = enc32 (ad_ID d) @ enc32 (of_nat (length (ad_Channels d)))
     @ concat (map enc_channel (ad_Channels d))"

definition wf_channel_single :: "AnalogChannel \<Rightarrow> bool" where
  "wf_channel_single ch \<longleftrightarrow> length (ac_Samples ch) = 1"

definition wf_analog_device_single :: "AnalogDevice \<Rightarrow> bool" where
  "wf_analog_device_single d \<longleftrightarrow> length (ad_Channels d) < 2 ^ 32 \<and> ad_SampleNumber d = 0 \<and>
     list_all wf_channel_single (ad_Channels d)"

definition fmtAnalogSingle :: "ComponentAnalog \<Rightarrow> bytes \<Rightarrow> bool" where
  "fmtAnalogSingle c bs \<longleftrightarrow>
     length (ca_AnalogDevices c) < 2 ^ 32 \<and> list_all wf_analog_device_single (ca_AnalogDevices c) \<and>
     bs = enc32 (of_nat (length (ca_AnalogDevices c)))
       @ concat (map enc_analog_device_single (ca_AnalogDevices c))"

lemma AnalogSample_eq: "s = \<lparr>as_Value = v\<rparr> \<longleftrightarrow> v = as_Value s"
  by (cases s) auto

lemma AnalogChannel_eq: "ch = \<lparr>ac_Samples = ss\<rparr> \<longleftrightarrow> ac_Samples ch = ss"
  by (cases ch) auto

lemma AnalogDevice_eq:
  "d = \<lparr>ad_ID = i, ad_SampleNumber = n, ad_Channels = chs\<rparr> \<longleftrightarrow>
     i = ad_ID d \<and> ad_SampleNumber d = n \<and> chs = ad_Channels d"
  by (cases d) auto

lemma ComponentAnalog_eq:
  fixes x :: ComponentAnalog
  shows "x = c\<lparr>ca_AnalogDevices := ds\<rparr> \<longleftrightarrow> ds = ca_AnalogDevices x"
  by (cases x, cases c) auto

lemma wire_analog_sample: "wire_reader read_analog_sample (\<lambda>s bs. bs = enc32 (as_Value s))"
  unfolding read_analog_sample_def [abs_def]
  by (rule wire_cong, (rule wire_rules)+) (auto simp: AnalogSample_eq)

lemma wire_channel:
  "wire_reader (read_channel sc) (\<lambda>ch bs. wf_channel sc ch \<and> bs = enc_channel ch)"
  unfolding read_channel_def [abs_def]
  by (rule wire_cong, (rule wire_rules wire_if wire_analog_sample)+)
    (auto simp: enc_channel_def wf_channel_def AnalogChannel_eq fmt_list_enc)

text \<open>On a format that holds what it claims, the guard passes: wrapping only lowers the product.\<close>

lemma unat_up32: "unat (ucast (w :: u32) :: u64) = unat w"
proof -
  have "uint (ucast w :: u64) = uint w" by (simp add: uint_up_ucast is_up)
  then have "nat (uint (ucast w :: u64)) = nat (uint w)" by (rule arg_cong)
  then show ?thesis by simp
qed

lemma analog_claim_le: "unat (analog_claim m n) \<le> 4 * (unat m * unat n)"
proof -
  have "unat (analog_claim m n) = (unat m * unat n * 4) mod 2 ^ 64"
    by (simp add: analog_claim_def unat_word_ariths unat_up32 mod_mult_left_eq)
  also have "\<dots> \<le> unat m * unat n * 4" by (rule mod_less_eq_dividend)
  finally show ?thesis by (simp add: mult.commute)
qed

lemma length_enc_channels:
  "list_all (wf_channel n) chs \<Longrightarrow>
    length (concat (map enc_channel chs)) = 4 * (length chs * unat n)"
proof (induction chs)
  case (Cons ch chs)
  have "length (enc_channel ch) = 4 * length (ac_Samples ch)"
    by (simp add: enc_channel_def length_concat comp_def sum_list_triv)
  with Cons show ?case by (simp add: wf_channel_def algebra_simps)
qed simp

lemma analog_fits:
  assumes "length chs = unat channelCount"
    and "fmt_list (\<lambda>ch bs. wf_channel sampleCount ch \<and> bs = enc_channel ch) chs b"
  shows "\<not> analog_overclaims channelCount sampleCount (cur_at pre (b @ rest))"
proof -
  from assms have "length b = 4 * (unat channelCount * unat sampleCount)"
    unfolding fmt_list_enc using length_enc_channels [of sampleCount chs] by metis
  with analog_claim_le [of channelCount sampleCount]
  have "unat (analog_claim channelCount sampleCount) \<le> length (b @ rest)" by simp
  then have "uint (analog_claim channelCount sampleCount) \<le> int (length (b @ rest))"
    by (metis of_nat_le_iff of_nat_unat)
  then show ?thesis by (simp add: analog_overclaims_def)
qed

lemma wire_analog_device: "wire_reader read_analog_device (opt_fmt fmt_analog_device)"
  unfolding read_analog_device_def [abs_def]
  by (rule wire_cong,
      (rule wire_prims wire_bind wire_return wire_check wire_times wire_channel
       | simp add: cur_fail_step is_short_def; fail | auto simp: analog_fits; fail)+)
    (auto simp: opt_fmt_def fmt_analog_device_def AnalogDevice_eq count_iff fmt_list_enc
      split: option.splits)

lemma wireAnalog: "wire_reader (decodeAnalog c0) fmtAnalog"
  unfolding decodeAnalog_def [abs_def]
  by (rule wire_cong,
      (rule wire_prims wire_bind wire_guarded_loop [OF wire_analog_device]
       | auto simp: fmt_analog_device_def; fail)+)
    (auto simp: fmtAnalog_def ComponentAnalog_eq count_iff)

interpretation ana: wire_component decodeAnalog fmtAnalog
  rewrites "with_cursor decodeAnalog = ComponentAnalog_UnmarshalBinary"
  by (rule wire_component.intro [OF wireAnalog])
    (auto simp: fmtAnalog_def ComponentAnalog_UnmarshalBinary_def)

lemma wire_channel_single:
  "wire_reader read_channel_single (\<lambda>ch bs. wf_channel_single ch \<and> bs = enc_channel ch)"
  unfolding read_channel_single_def [abs_def]
  by (rule wire_cong, (rule wire_rules wire_analog_sample)+)
    (auto simp: enc_channel_def wf_channel_single_def AnalogChannel_eq length_Suc_conv)

lemma wire_analog_device_single:
  "wire_reader read_analog_device_single
    (opt_fmt (\<lambda>d bs. wf_analog_device_single d \<and> bs = enc_analog_device_single d))"
  unfolding read_analog_device_single_def [abs_def]
  by (rule wire_cong,
      (rule wire_prims wire_bind wire_guarded_loop [OF wire_each [OF wire_channel_single]]
       | auto simp: wf_channel_single_def enc_channel_def length_Suc_conv; fail)+)
    (auto simp: opt_fmt_def enc_analog_device_single_def wf_analog_device_single_def AnalogDevice_eq
      count_iff fmt_list_enc split: option.splits)

lemma wireAnalogSingle: "wire_reader (decodeAnalogSingle c0) fmtAnalogSingle"
  unfolding decodeAnalogSingle_def [abs_def]
  by (rule wire_cong,
      (rule wire_prims wire_bind wire_guarded_loop [OF wire_analog_device_single]
       | auto simp: enc_analog_device_single_def; fail)+)
    (auto simp: fmtAnalogSingle_def ComponentAnalog_eq count_iff fmt_list_enc)

interpretation ans: wire_component decodeAnalogSingle fmtAnalogSingle
  rewrites "with_cursor decodeAnalogSingle = ComponentAnalogSingle_UnmarshalBinary"
  by (rule wire_component.intro [OF wireAnalogSingle])
    (auto simp: fmtAnalogSingle_def ComponentAnalogSingle_UnmarshalBinary_def)

subsection \<open>The guard on samples\<close>

text \<open>The guard compares the wrapped product.\<close>

lemma overclaims_at:
  "analog_overclaims channels samples (cur_at pre rest) \<longleftrightarrow> length rest < unat channels * unat samples * 4 mod 2 ^ 64"
proof -
  have "unat (analog_claim channels samples) = unat channels * unat samples * 4 mod 2 ^ 64"
    by (simp add: analog_claim_def unat_word_ariths unat_up32 mod_mult_left_eq)
  then have "uint (analog_claim channels samples) = int (unat channels * unat samples * 4 mod 2 ^ 64)"
    by (metis uint_nat)
  then show ?thesis by (simp add: analog_overclaims_def del: of_nat_mod)
qed

text \<open>A loop that never leaves early makes as many records as it is asked for, with or without an error.\<close>

lemma each_count:
  assumes "read_loop n (each rd) c = Some (xs, c')" and "\<And>c x c'. rd c = Some (x, c') \<Longrightarrow> P x"
  shows "length xs = n \<and> list_all P xs"
  using assms(1)
  by (induction n arbitrary: c xs) (auto simp: each_def bind_eq_Some_conv dest: assms(2))

lemma channel_samples: "read_channel n c = Some (ch, c') \<Longrightarrow> wf_channel n ch"
  by (auto simp: read_channel_def wf_channel_def bind_eq_Some_conv unat_eq_zero split: if_splits
      dest: each_count [where P = "\<lambda>x. True"])

text \<open>With enough bytes left, a loop over records of a fixed size ends without an error.\<close>

lemma each_enough:
  assumes "\<And>pre rest. k \<le> length rest \<Longrightarrow> \<exists>x. rd (cur_at pre rest) = Some (x, cur_at (pre @ take k rest) (drop k rest))"
    and "n * k \<le> length rest"
  shows "\<exists>xs. read_loop n (each rd) (cur_at pre rest) = Some (xs, cur_at (pre @ take (n * k) rest) (drop (n * k) rest))"
  using assms(2)
proof (induction n arbitrary: pre rest)
  case (Suc n)
  from assms(1) [of rest pre] Suc.prems obtain x where
    "each rd (cur_at pre rest) = Some (Some x, cur_at (pre @ take k rest) (drop k rest))" by (auto simp: each_def)
  moreover have "n * k \<le> length (drop k rest)" using Suc.prems by simp
  from Suc.IH [OF this, of "pre @ take k rest"] obtain xs where
    "read_loop n (each rd) (cur_at (pre @ take k rest) (drop k rest))
      = Some (xs, cur_at ((pre @ take k rest) @ take (n * k) (drop k rest)) (drop (n * k) (drop k rest)))" by blast
  ultimately show ?case by (simp add: take_add add.commute)
qed simp

lemma channel_enough:
  assumes "unat n * 4 \<le> length rest"
  shows "\<exists>ch. read_channel n (cur_at pre rest) = Some (ch, cur_at (pre @ take (unat n * 4) rest) (drop (unat n * 4) rest))"
proof (cases "n = 0")
  case False
  have "\<exists>x. read_analog_sample (cur_at pre rest) = Some (x, cur_at (pre @ take 4 rest) (drop 4 rest))"
    if "4 \<le> length rest" for pre rest
    using that need_at [of 4 pre rest]
    by (simp add: read_analog_sample_def cur_Float32_def cur_word_def get_word_def)
  from each_enough [OF this assms, of pre] False show ?thesis by (auto simp: read_channel_def)
qed (simp add: read_channel_def)

lemma channels_read:
  "\<exists>chs c'. read_loop (unat channels) (each (read_channel samples)) (cur_at pre rest) = Some (chs, c')
    \<and> length chs = unat channels \<and> list_all (wf_channel samples) chs
    \<and> (if unat channels * unat samples * 4 \<le> length rest then cur_err c' = None
       else \<exists>x. cur_err c' = Some x \<and> errors_Is x ErrShortPacket)"
proof -
  note W = wire_times [OF wire_channel, of "unat channels" samples]
  from wire_reader.safe [OF W, of "cur_at pre rest"] obtain chs c' where
    run: "read_loop (unat channels) (each (read_channel samples)) (cur_at pre rest) = Some (chs, c')" and ok: "cur_ok c'"
    by (auto simp: runs_def cur_step_def)
  have "cur_err c' \<noteq> None" if "length rest < unat channels * unat samples * 4"
  proof
    assume "cur_err c' = None"
    from wire_reader.bwd [OF W run this] obtain bs rest' where "rest = bs @ rest'" "length bs = 4 * (length chs * unat samples)"
      "length chs = unat channels" using length_enc_channels unfolding fmt_list_enc by metis
    with that show False by simp
  qed
  moreover have "cur_err c' = None" if "unat channels * unat samples * 4 \<le> length rest"
  proof -
    have "unat channels * (unat samples * 4) \<le> length rest" using that by (simp add: mult.assoc)
    from each_enough [OF channel_enough this, of pre] run show ?thesis by auto
  qed
  ultimately show ?thesis
    using run ok each_count [OF run channel_samples]
    by (auto simp: cur_ok_def is_short_def not_le)
qed

text \<open>
  C40: The guard on analog samples bounds the wrapped product of the claimed counts, and what passes
  it is built in full, before and whether or not the samples are there. A payload that claims one
  device is rejected without a device when \<open>channels * samples * 4\<close>, taken modulo \<open>2 ^ 64\<close>, exceeds
  what follows the header. Otherwise the decoder makes all \<open>channels\<close> lists of \<open>samples\<close> samples, and
  fails only then with \<open>ErrShortPacket\<close> if the true product exceeds what follows. So a payload of
  20 bytes that claims \<open>2 ^ 31\<close> channels of \<open>2 ^ 31\<close> samples (product \<open>2 ^ 64\<close>) is no short packet
  for the guard, and one that claims \<open>2 ^ 32 - 1\<close> channels of no samples is decoded successfully.
\<close>

theorem analog_guard_wraps:
  "\<exists>e c'. ComponentAnalog_UnmarshalBinary c
      (enc32 1 @ enc32 i @ enc32 channels @ enc32 samples @ enc32 number @ rest) = Some (e, c')
    \<and> (if length rest < unat channels * unat samples * 4 mod 2 ^ 64
       then ca_AnalogDevices c' = [] \<and> (\<exists>x. e = Some x \<and> errors_Is x ErrShortPacket)
       else (\<exists>chs. ca_AnalogDevices c' = [\<lparr>ad_ID = i, ad_SampleNumber = number, ad_Channels = chs\<rparr>]
             \<and> length chs = unat channels \<and> list_all (\<lambda>ch. length (ac_Samples ch) = unat samples) chs)
         \<and> (if length rest < unat channels * unat samples * 4
            then \<exists>x. e = Some x \<and> errors_Is x ErrShortPacket else e = None))"
proof -
  let ?hdr = "enc32 i @ enc32 channels @ enc32 samples @ enc32 number"
  let ?c = "cur_at (enc32 1 @ ?hdr) rest"
  have count: "checkCount 1 16 ''analog device'' (cur_at (enc32 1) (?hdr @ rest)) = (True, cur_at (enc32 1) (?hdr @ rest))"
    by (simp add: checkCount_True_iff)
  have start: "cur_Uint32 (newCursor (enc32 1 @ ?hdr @ rest)) = Some (1, cur_at (enc32 1) (?hdr @ rest))"
    unfolding newCursor_at using rd32.fwd [of "enc32 1" 1 "[]" "?hdr @ rest"] by simp
  have dev: "read_analog_device (cur_at (enc32 1) (?hdr @ rest)) =
    (if analog_overclaims channels samples ?c then
       Some (None, cur_fail (Errorf ''%w: analog device %d claims %d channels x %d samples''
          [AWrap ErrShortPacket, AInt (uint i), AInt (uint channels), AInt (uint samples)]) ?c)
     else do {
       (chs, cur) \<leftarrow> read_loop (unat channels) (each (read_channel samples)) ?c;
       Some (Some \<lparr>ad_ID = i, ad_SampleNumber = number, ad_Channels = chs\<rparr>, cur)
     })"
    using rd32.fwd [of "enc32 i" i "enc32 1" "enc32 channels @ enc32 samples @ enc32 number @ rest"]
      rd32.fwd [of "enc32 channels" channels "enc32 1 @ enc32 i" "enc32 samples @ enc32 number @ rest"]
      rd32.fwd [of "enc32 samples" samples "enc32 1 @ enc32 i @ enc32 channels" "enc32 number @ rest"]
      rd32.fwd [of "enc32 number" number "enc32 1 @ enc32 i @ enc32 channels @ enc32 samples" rest]
    by (simp add: read_analog_device_def cong: if_cong)
  obtain chs c' where "read_loop (unat channels) (each (read_channel samples)) ?c = Some (chs, c')"
    "length chs = unat channels" "list_all (wf_channel samples) chs"
    "if unat channels * unat samples * 4 \<le> length rest then cur_err c' = None
     else \<exists>x. cur_err c' = Some x \<and> errors_Is x ErrShortPacket"
    using channels_read [of channels samples "enc32 1 @ ?hdr" rest] by blast
  then show ?thesis
    using start count dev
    by (auto simp: ComponentAnalog_UnmarshalBinary_def with_cursor_def decodeAnalog_def cur_Err_def overclaims_at
        wf_channel_def [abs_def] not_less [symmetric])
qed

end
