(* ===== verification/Timecode.thy ===== *)
theory Timecode
  imports Wire_Format
begin

text \<open>
  \<open>pkg/packets/timecode.go\<close> and \<open>pkg/packets/image.go\<close>: timecodes (SMPTE, IRIG, camera
  time) and camera images. A timecode is decoded from two words of which not every bit is
  kept, so its wire format is a relation.
\<close>

subsection \<open>Timecodes\<close>

abbreviation TimecodeTypeSMPTE :: u32 where "TimecodeTypeSMPTE \<equiv> 0"
abbreviation TimecodeTypeIRIG :: u32 where "TimecodeTypeIRIG \<equiv> 1"
abbreviation TimecodeTypeCameraTime :: u32 where "TimecodeTypeCameraTime \<equiv> 2"

record IrigTime =
  irig_Year :: u32
  irig_Day :: u32
  irig_Hour :: u32
  irig_Minute :: u32
  irig_Second :: u32
  irig_Tenth :: u32

definition zero_IrigTime :: IrigTime where
  "zero_IrigTime = \<lparr>irig_Year = 0, irig_Day = 0, irig_Hour = 0, irig_Minute = 0, irig_Second = 0, irig_Tenth = 0\<rparr>"

definition IrigTime_Convert :: "u32 \<Rightarrow> u32 \<Rightarrow> IrigTime" where
  "IrigTime_Convert high low = \<lparr>
     irig_Year = 0x7F AND high,
     irig_Day = 0x1FF AND drop_bit 7 high,
     irig_Hour = 0x1F AND low,
     irig_Minute = 0x3F AND drop_bit 5 low,
     irig_Second = 0x3F AND drop_bit 11 low,
     irig_Tenth = 0xF AND drop_bit 17 low\<rparr>"

record SmpteTime =
  smpte_Hour :: u32
  smpte_Minute :: u32
  smpte_Second :: u32
  smpte_Frame :: u32
  smpte_SubFrame :: u32

definition zero_SmpteTime :: SmpteTime where
  "zero_SmpteTime = \<lparr>smpte_Hour = 0, smpte_Minute = 0, smpte_Second = 0, smpte_Frame = 0, smpte_SubFrame = 0\<rparr>"

definition SmpteTime_Convert :: "u32 \<Rightarrow> u32 \<Rightarrow> SmpteTime" where
  "SmpteTime_Convert high low = \<lparr>
     smpte_Hour = 0x1F AND low,
     smpte_Minute = 0x3F AND drop_bit 5 low,
     smpte_Second = 0x3F AND drop_bit 11 low,
     smpte_Frame = 0x1F AND drop_bit 17 low,
     smpte_SubFrame = 0x1FF AND drop_bit 22 low\<rparr>"

type_synonym CameraTime = u64

definition CameraTime_Convert :: "u32 \<Rightarrow> u32 \<Rightarrow> CameraTime" where
  "CameraTime_Convert high low = push_bit 32 (ucast high) OR ucast low"

text \<open>
  \<open>time.Duration(i) * 100 * time.Nanosecond\<close>: a conversion to \<open>int64\<close> and a product in
  \<open>int64\<close>, which wraps around; the result is the signed reading of the 64 bits.
\<close>

definition CameraTime_Duration :: "CameraTime \<Rightarrow> int" where
  "CameraTime_Duration i = sint (i * 100)"

record Timecode =
  tc_Type :: u32
  tc_Irig :: IrigTime
  tc_Smpte :: SmpteTime
  tc_CameraTime :: CameraTime
  tc_High :: u32
  tc_Low :: u32

definition zero_Timecode :: Timecode where
  "zero_Timecode = \<lparr>tc_Type = 0, tc_Irig = zero_IrigTime, tc_Smpte = zero_SmpteTime,
     tc_CameraTime = 0, tc_High = 0, tc_Low = 0\<rparr>"

record ComponentTimecode =
  ctc_Timecodes :: "Timecode list"

definition zero_ComponentTimecode :: ComponentTimecode where
  "zero_ComponentTimecode = \<lparr>ctc_Timecodes = []\<rparr>"

text \<open>The switch on the type, on a fresh entry of the slice.\<close>

definition convert_timecode :: "u32 \<Rightarrow> u32 \<Rightarrow> u32 \<Rightarrow> Timecode" where
  "convert_timecode ty high low =
     (let tc = zero_Timecode\<lparr>tc_Type := ty\<rparr> in
      if ty = TimecodeTypeSMPTE then tc\<lparr>tc_Smpte := SmpteTime_Convert high low\<rparr>
      else if ty = TimecodeTypeIRIG then tc\<lparr>tc_Irig := IrigTime_Convert high low\<rparr>
      else if ty = TimecodeTypeCameraTime then tc\<lparr>tc_CameraTime := CameraTime_Convert high low\<rparr>
      else tc\<lparr>tc_High := high, tc_Low := low\<rparr>)"

definition read_timecode :: "cursor \<Rightarrow> (Timecode \<times> cursor) option" where
  "read_timecode cur = do {
     (ty, cur) \<leftarrow> cur_Uint32 cur;
     (high, cur) \<leftarrow> cur_Uint32 cur;
     (low, cur) \<leftarrow> cur_Uint32 cur;
     Some (convert_timecode ty high low, cur)
   }"

definition timecodeEntryBytes :: int where
  "timecodeEntryBytes = 12"

definition decodeTimecode :: "ComponentTimecode \<Rightarrow> cursor \<Rightarrow> (ComponentTimecode \<times> cursor) option" where
  "decodeTimecode c cur = do {
     (count, cur) \<leftarrow> cur_Uint32 cur;
     (case checkCount count timecodeEntryBytes ''timecode'' cur of (ok, cur) \<Rightarrow>
        if \<not> ok then Some (c, cur)
        else do {
          (ts, cur) \<leftarrow> read_loop (unat count) (each read_timecode) cur;
          Some (c\<lparr>ctc_Timecodes := ts\<rparr>, cur)
        })
   }"

definition ComponentTimecode_UnmarshalBinary :: "ComponentTimecode \<Rightarrow> bytes \<Rightarrow>
    (err option \<times> ComponentTimecode) option" where
  "ComponentTimecode_UnmarshalBinary = with_cursor decodeTimecode"

definition fmt_timecode :: "Timecode \<Rightarrow> bytes \<Rightarrow> bool" where
  "fmt_timecode tc bs \<longleftrightarrow> (\<exists>ty high low.
     bs = enc32 ty @ enc32 high @ enc32 low \<and> tc = convert_timecode ty high low)"

definition fmtTimecode :: "ComponentTimecode \<Rightarrow> bytes \<Rightarrow> bool" where
  "fmtTimecode c bs \<longleftrightarrow> length (ctc_Timecodes c) < 2 ^ 32 \<and>
     (\<exists>b. bs = enc32 (of_nat (length (ctc_Timecodes c))) @ b \<and> fmt_list fmt_timecode (ctc_Timecodes c) b)"

lemma ComponentTimecode_eq:
  fixes x :: ComponentTimecode
  shows "x = c\<lparr>ctc_Timecodes := ts\<rparr> \<longleftrightarrow> ts = ctc_Timecodes x"
  by (cases x, cases c) auto

lemma wire_timecode: "wire_reader read_timecode fmt_timecode"
  unfolding read_timecode_def [abs_def]
  by (rule wire_cong, (rule wire_rules)+) (auto simp: fmt_timecode_def)

lemma wireTimecode: "wire_reader (decodeTimecode c0) fmtTimecode"
  unfolding decodeTimecode_def [abs_def]
  by (rule wire_cong,
      (rule wire_prims wire_bind wire_guarded_loop [OF wire_each [OF wire_timecode]]
       | auto simp: fmt_timecode_def timecodeEntryBytes_def; fail)+)
    (auto simp: fmtTimecode_def ComponentTimecode_eq count_iff)

interpretation tcd: wire_component decodeTimecode fmtTimecode
  rewrites "with_cursor decodeTimecode = ComponentTimecode_UnmarshalBinary"
  by (rule wire_component.intro [OF wireTimecode])
    (auto simp: fmtTimecode_def ComponentTimecode_UnmarshalBinary_def)

subsection \<open>Images\<close>

abbreviation ImageFormatTypeRawGreyscale :: u32 where "ImageFormatTypeRawGreyscale \<equiv> 0"
abbreviation ImageFormatTypeRawBGR :: u32 where "ImageFormatTypeRawBGR \<equiv> 1"
abbreviation ImageFormatTypeJPG :: u32 where "ImageFormatTypeJPG \<equiv> 2"
abbreviation ImageFormatTypePNG :: u32 where "ImageFormatTypePNG \<equiv> 3"

record Image =
  im_ID :: u32
  im_Format :: u32
  im_Width :: u32
  im_Height :: u32
  im_LeftCrop :: f32
  im_TopCrop :: f32
  im_RightCrop :: f32
  im_BottomCrop :: f32
  im_Size :: u32
  im_Data :: bytes

record ComponentImage =
  ci_Images :: "Image list"

definition zero_ComponentImage :: ComponentImage where
  "zero_ComponentImage = \<lparr>ci_Images = []\<rparr>"

definition imageHeaderBytes :: int where
  "imageHeaderBytes = 36"

text \<open>
  The exit for an image that claims more than remains returns an error of its own while
  the cursor has none; the cursor is local and dropped by that return, so recording the
  error in it and leaving by \<open>return cur.Err()\<close> gives the same result.
\<close>

definition read_image :: "cursor \<Rightarrow> (Image option \<times> cursor) option" where
  "read_image cur = do {
     (i, cur) \<leftarrow> cur_Uint32 cur;
     (fmt, cur) \<leftarrow> cur_Uint32 cur;
     (w, cur) \<leftarrow> cur_Uint32 cur;
     (h, cur) \<leftarrow> cur_Uint32 cur;
     (l, cur) \<leftarrow> cur_Float32 cur;
     (t, cur) \<leftarrow> cur_Float32 cur;
     (r, cur) \<leftarrow> cur_Float32 cur;
     (b, cur) \<leftarrow> cur_Float32 cur;
     (size, cur) \<leftarrow> cur_Uint32 cur;
     (if cur_Err cur \<noteq> None then Some (None, cur)
      else if uint size > Remaining cur then
        Some (None, cur_fail (Errorf ''%w: image %d claims %d bytes, %d remaining''
          [AWrap ErrShortPacket, AInt (uint i), AInt (uint size), AInt (Remaining cur)]) cur)
      else do {
        (d, cur) \<leftarrow> cur_Bytes (int (unat size)) cur;
        Some (Some \<lparr>im_ID = i, im_Format = fmt, im_Width = w, im_Height = h,
                     im_LeftCrop = l, im_TopCrop = t, im_RightCrop = r, im_BottomCrop = b,
                     im_Size = size, im_Data = d\<rparr>, cur)
      })
   }"

definition decodeImage :: "ComponentImage \<Rightarrow> cursor \<Rightarrow> (ComponentImage \<times> cursor) option" where
  "decodeImage c cur = do {
     (imageCount, cur) \<leftarrow> cur_Uint32 cur;
     (case checkCount imageCount imageHeaderBytes ''image'' cur of (ok, cur) \<Rightarrow>
        if \<not> ok then Some (c, cur)
        else do {
          (is, cur) \<leftarrow> read_loop (unat imageCount) read_image cur;
          Some (c\<lparr>ci_Images := is\<rparr>, cur)
        })
   }"

definition ComponentImage_UnmarshalBinary :: "ComponentImage \<Rightarrow> bytes \<Rightarrow> (err option \<times> ComponentImage) option" where
  "ComponentImage_UnmarshalBinary = with_cursor decodeImage"

definition enc_image :: "Image \<Rightarrow> bytes" where
  "enc_image im = enc32 (im_ID im) @ enc32 (im_Format im) @ enc32 (im_Width im) @ enc32 (im_Height im)
     @ enc32 (im_LeftCrop im) @ enc32 (im_TopCrop im) @ enc32 (im_RightCrop im) @ enc32 (im_BottomCrop im)
     @ enc32 (im_Size im) @ im_Data im"

definition wf_image :: "Image \<Rightarrow> bool" where
  "wf_image im \<longleftrightarrow> length (im_Data im) = unat (im_Size im)"

definition fmtImage :: "ComponentImage \<Rightarrow> bytes \<Rightarrow> bool" where
  "fmtImage c bs \<longleftrightarrow> length (ci_Images c) < 2 ^ 32 \<and> list_all wf_image (ci_Images c) \<and>
     bs = enc32 (of_nat (length (ci_Images c))) @ concat (map enc_image (ci_Images c))"

lemma Image_eq:
  "im = \<lparr>im_ID = i, im_Format = f, im_Width = w, im_Height = h, im_LeftCrop = l, im_TopCrop = t,
     im_RightCrop = r, im_BottomCrop = b, im_Size = s, im_Data = d\<rparr> \<longleftrightarrow>
   i = im_ID im \<and> f = im_Format im \<and> w = im_Width im \<and> h = im_Height im \<and> l = im_LeftCrop im \<and>
   t = im_TopCrop im \<and> r = im_RightCrop im \<and> b = im_BottomCrop im \<and> s = im_Size im \<and> d = im_Data im"
  by (cases im) auto

lemma ComponentImage_eq:
  fixes x :: ComponentImage
  shows "x = c\<lparr>ci_Images := is\<rparr> \<longleftrightarrow> is = ci_Images x"
  by (cases x, cases c) auto

lemma uint_le_length: "length d = unat (n :: u32) \<Longrightarrow> uint n \<le> int (length d) + int k"
  by (metis le_add1 of_nat_add of_nat_le_iff of_nat_unat)

lemma wire_image: "wire_reader read_image (opt_fmt (\<lambda>im bs. wf_image im \<and> bs = enc_image im))"
  unfolding read_image_def [abs_def]
  by (rule wire_cong,
      (rule wire_prims wire_bind wire_return wire_check wire_Bytes
       | auto simp: cur_fail_step is_short_def cur_step_refl cur_Err_def not_less uint_le_length; fail)+)
    (auto simp: opt_fmt_def enc_image_def wf_image_def Image_eq split: option.splits)

lemma wireImage: "wire_reader (decodeImage c0) fmtImage"
  unfolding decodeImage_def [abs_def]
  by (rule wire_cong,
      (rule wire_prims wire_bind wire_guarded_loop [OF wire_image]
       | auto simp: enc_image_def imageHeaderBytes_def; fail)+)
    (auto simp: fmtImage_def ComponentImage_eq count_iff fmt_list_enc)

interpretation img: wire_component decodeImage fmtImage
  rewrites "with_cursor decodeImage = ComponentImage_UnmarshalBinary"
  by (rule wire_component.intro [OF wireImage])
    (auto simp: fmtImage_def ComponentImage_UnmarshalBinary_def)

subsection \<open>Time codes round trip\<close>

text \<open>The bit fields of a time code, put together.\<close>

definition pack_smpte :: "SmpteTime \<Rightarrow> u32" where
  "pack_smpte t = smpte_Hour t OR push_bit 5 (smpte_Minute t) OR push_bit 11 (smpte_Second t)
     OR push_bit 17 (smpte_Frame t) OR push_bit 22 (smpte_SubFrame t)"

definition pack_irig_low :: "IrigTime \<Rightarrow> u32" where
  "pack_irig_low t = irig_Hour t OR push_bit 5 (irig_Minute t) OR push_bit 11 (irig_Second t)
     OR push_bit 17 (irig_Tenth t)"

definition pack_irig_high :: "IrigTime \<Rightarrow> u32" where
  "pack_irig_high t = irig_Year t OR push_bit 7 (irig_Day t)"

lemma field_bits:
  fixes v :: "'a::len word"
  assumes "v < 2 ^ k" and "k < LENGTH('a)" and "\<not> n < k"
  shows "\<not> bit v n"
proof -
  from assms(2) have "unat (2 ^ k :: 'a word) = 2 ^ k"
    by transfer (simp add: take_bit_eq_mod nat_power_eq)
  with assms(1) have "take_bit k (unat v) = unat v"
    by (simp add: word_less_nat_alt take_bit_nat_eq_self_iff)
  with assms(3) have "\<not> bit (unat v) n" by (metis bit_take_bit_iff)
  then show ?thesis by (simp add: bit_unsigned_iff)
qed

lemma field_read:
  fixes v w :: "'a::len word"
  assumes "v < 2 ^ k" and "k < LENGTH('a)" and "i + k \<le> LENGTH('a)"
    and "\<And>n. n < k \<Longrightarrow> bit w (i + n) = bit v n"
  shows "mask k AND drop_bit i w = v"
proof (rule bit_word_eqI)
  fix n
  show "bit (mask k AND drop_bit i w) n = bit v n"
    using assms(2,3,4) field_bits [OF assms(1,2), of n] by (cases "n < k") (simp_all add: bit_simps)
qed

lemma field_masks:
  "(0x1F :: u32) = mask 5" "(0x3F :: u32) = mask 6" "(0x1FF :: u32) = mask 9" "(0x7F :: u32) = mask 7" "(0xF :: u32) = mask 4"
  by (simp_all add: mask_eq_exp_minus_1)

text \<open>
  C34: SMPTE and IRIG time codes round trip: the fields of a time whose values are in range,
  packed into the words of the packet, are the fields the conversion reads, each from its own
  bits.
\<close>

theorem timecode_fields_roundtrip:
  assumes "smpte_Hour t < 2 ^ 5" "smpte_Minute t < 2 ^ 6" "smpte_Second t < 2 ^ 6" "smpte_Frame t < 2 ^ 5"
    "smpte_SubFrame t < 2 ^ 9"
    and "irig_Hour u < 2 ^ 5" "irig_Minute u < 2 ^ 6" "irig_Second u < 2 ^ 6" "irig_Tenth u < 2 ^ 4"
    "irig_Year u < 2 ^ 7" "irig_Day u < 2 ^ 9"
  shows "SmpteTime_Convert high (pack_smpte t) = t \<and>
    IrigTime_Convert (pack_irig_high u) (pack_irig_low u) = u"
proof -
  have high [simp]: "\<not> n < 5 \<Longrightarrow> \<not> bit (smpte_Hour t) n" "\<not> n < 6 \<Longrightarrow> \<not> bit (smpte_Minute t) n"
    "\<not> n < 6 \<Longrightarrow> \<not> bit (smpte_Second t) n" "\<not> n < 5 \<Longrightarrow> \<not> bit (smpte_Frame t) n"
    "\<not> n < 9 \<Longrightarrow> \<not> bit (smpte_SubFrame t) n" "\<not> n < 5 \<Longrightarrow> \<not> bit (irig_Hour u) n"
    "\<not> n < 6 \<Longrightarrow> \<not> bit (irig_Minute u) n" "\<not> n < 6 \<Longrightarrow> \<not> bit (irig_Second u) n"
    "\<not> n < 4 \<Longrightarrow> \<not> bit (irig_Tenth u) n" "\<not> n < 7 \<Longrightarrow> \<not> bit (irig_Year u) n"
    "\<not> n < 9 \<Longrightarrow> \<not> bit (irig_Day u) n" for n
    using assms [THEN field_bits] by simp_all
  have "mask 5 AND drop_bit 0 (pack_smpte t) = smpte_Hour t"
    by (rule field_read [OF assms(1)]) (simp_all add: bit_simps pack_smpte_def)
  moreover have "mask 6 AND drop_bit 5 (pack_smpte t) = smpte_Minute t"
    by (rule field_read [OF assms(2)]) (simp_all add: bit_simps pack_smpte_def)
  moreover have "mask 6 AND drop_bit 11 (pack_smpte t) = smpte_Second t"
    by (rule field_read [OF assms(3)]) (simp_all add: bit_simps pack_smpte_def)
  moreover have "mask 5 AND drop_bit 17 (pack_smpte t) = smpte_Frame t"
    by (rule field_read [OF assms(4)]) (simp_all add: bit_simps pack_smpte_def)
  moreover have "mask 9 AND drop_bit 22 (pack_smpte t) = smpte_SubFrame t"
    by (rule field_read [OF assms(5)]) (simp_all add: bit_simps pack_smpte_def)
  moreover have "mask 5 AND drop_bit 0 (pack_irig_low u) = irig_Hour u"
    by (rule field_read [OF assms(6)]) (simp_all add: bit_simps pack_irig_low_def)
  moreover have "mask 6 AND drop_bit 5 (pack_irig_low u) = irig_Minute u"
    by (rule field_read [OF assms(7)]) (simp_all add: bit_simps pack_irig_low_def)
  moreover have "mask 6 AND drop_bit 11 (pack_irig_low u) = irig_Second u"
    by (rule field_read [OF assms(8)]) (simp_all add: bit_simps pack_irig_low_def)
  moreover have "mask 4 AND drop_bit 17 (pack_irig_low u) = irig_Tenth u"
    by (rule field_read [OF assms(9)]) (simp_all add: bit_simps pack_irig_low_def)
  moreover have "mask 7 AND drop_bit 0 (pack_irig_high u) = irig_Year u"
    by (rule field_read [OF assms(10)]) (simp_all add: bit_simps pack_irig_high_def)
  moreover have "mask 9 AND drop_bit 7 (pack_irig_high u) = irig_Day u"
    by (rule field_read [OF assms(11)]) (simp_all add: bit_simps pack_irig_high_def)
  ultimately show ?thesis
    unfolding SmpteTime_Convert_def IrigTime_Convert_def field_masks
    by (simp add: SmpteTime.equality IrigTime.equality)
qed

theorem timecode_fields_roundtrip_witness:
  "SmpteTime_Convert 0 (pack_smpte \<lparr>smpte_Hour = 23, smpte_Minute = 59, smpte_Second = 58, smpte_Frame = 24,
      smpte_SubFrame = 300\<rparr>) = \<lparr>smpte_Hour = 23, smpte_Minute = 59, smpte_Second = 58, smpte_Frame = 24,
      smpte_SubFrame = 300\<rparr> \<and>
    IrigTime_Convert (pack_irig_high \<lparr>irig_Year = 99, irig_Day = 365, irig_Hour = 12, irig_Minute = 30,
        irig_Second = 15, irig_Tenth = 9\<rparr>)
      (pack_irig_low \<lparr>irig_Year = 99, irig_Day = 365, irig_Hour = 12, irig_Minute = 30,
        irig_Second = 15, irig_Tenth = 9\<rparr>) =
      \<lparr>irig_Year = 99, irig_Day = 365, irig_Hour = 12, irig_Minute = 30, irig_Second = 15, irig_Tenth = 9\<rparr>"
  by (rule timecode_fields_roundtrip) simp_all

text \<open>
  C35: A camera time is the 64 bit number of its two words, and its duration is 100 ns per tick
  exactly as long as that fits in the signed 64 bits of \<open>time.Duration\<close>: up to
  92233720368547758 ticks, beyond which the result is another duration.
\<close>

theorem camera_time_exact:
  "uint (CameraTime_Convert high low) = uint high * 2 ^ 32 + uint low
   \<and> (CameraTime_Duration ticks = 100 * uint ticks \<longleftrightarrow> uint ticks \<le> 92233720368547758)"
proof
  have "ucast low AND push_bit 32 (ucast high) = (0 :: u64)"
    by (rule bit_word_eqI) (auto simp: bit_simps dest: bit_imp_le_length)
  then have "CameraTime_Convert high low = push_bit 32 (ucast high) + ucast low"
    by (simp add: CameraTime_Convert_def disjunctive_add_eq_or and.commute)
  moreover have "uint high < 2 ^ 32" "uint low < 2 ^ 32"
    using uint_lt2p [of high] uint_lt2p [of low] by simp_all
  ultimately show "uint (CameraTime_Convert high low) = uint high * 2 ^ 32 + uint low"
    by (simp add: push_bit_eq_mult uint_word_ariths uint_up_ucast is_up take_bit_eq_mod mod_simps)
next
  have b: "0 \<le> uint ticks" "uint ticks < 2 ^ 64" using uint_lt2p [of ticks] by simp_all
  have w: "uint (ticks * 100) = 100 * uint ticks mod 2 ^ 64"
    by (simp add: uint_word_ariths mult.commute)
  show "CameraTime_Duration ticks = 100 * uint ticks \<longleftrightarrow> uint ticks \<le> 92233720368547758"
  proof
    assume "CameraTime_Duration ticks = 100 * uint ticks"
    moreover have "CameraTime_Duration ticks < 2 ^ 63"
      using sint_lt [of "ticks * 100"] by (simp add: CameraTime_Duration_def)
    ultimately show "uint ticks \<le> 92233720368547758" by simp
  next
    assume "uint ticks \<le> 92233720368547758"
    with b w have small: "uint (ticks * 100) = 100 * uint ticks" "uint (ticks * 100) < 2 ^ 63" by simp_all
    have "- (2 ^ 63) \<le> uint (ticks * 100)" by (rule order_trans [OF _ uint_ge_0]) simp
    with small(2) have "signed_take_bit 63 (uint (ticks * 100)) = uint (ticks * 100)"
      by (simp only: signed_take_bit_int_eq_self_iff simp_thms)
    with small show "CameraTime_Duration ticks = 100 * uint ticks"
      by (simp add: CameraTime_Duration_def sint_uint)
  qed
qed

end
