(* ===== verification/Data_Packet.thy ===== *)
theory Data_Packet
  imports Markers Objects Force Gaze_Eye Analog Timecode
begin

text \<open>
  Data frames (\<open>packet.go\<close>): the component types of \<open>protocol.go\<close>, the objects a frame
  holds, the choice of a decoder, \<open>DataPacket.UnmarshalBinary\<close> and the accessors.

  An \<open>IDataObject\<close> is one constructor per pointer type the code stores in the interface;
  its method \<open>UnmarshalBinary\<close> is the dispatch on the constructor, and a type switch or
  type assertion is a \<open>case\<close>. A component type is Go's \<open>int\<close>; a type read from the wire
  is the number of its 32 bit word.
\<close>

subsection \<open>Component types\<close>

abbreviation ComponentType3D :: int where "ComponentType3D \<equiv> 1"
abbreviation ComponentType3DNoLabels :: int where "ComponentType3DNoLabels \<equiv> 2"
abbreviation ComponentTypeAnalog :: int where "ComponentTypeAnalog \<equiv> 3"
abbreviation ComponentTypeForce :: int where "ComponentTypeForce \<equiv> 4"
abbreviation ComponentType6D :: int where "ComponentType6D \<equiv> 5"
abbreviation ComponentType6DEuler :: int where "ComponentType6DEuler \<equiv> 6"
abbreviation ComponentType2D :: int where "ComponentType2D \<equiv> 7"
abbreviation ComponentType2DLinearized :: int where "ComponentType2DLinearized \<equiv> 8"
abbreviation ComponentType3DResidual :: int where "ComponentType3DResidual \<equiv> 9"
abbreviation ComponentType3DNoLabelsResidual :: int where "ComponentType3DNoLabelsResidual \<equiv> 10"
abbreviation ComponentType6DResidual :: int where "ComponentType6DResidual \<equiv> 11"
abbreviation ComponentType6DEulerResidual :: int where "ComponentType6DEulerResidual \<equiv> 12"
abbreviation ComponentTypeAnalogSingle :: int where "ComponentTypeAnalogSingle \<equiv> 13"
abbreviation ComponentTypeImage :: int where "ComponentTypeImage \<equiv> 14"
abbreviation ComponentTypeForceSingle :: int where "ComponentTypeForceSingle \<equiv> 15"
abbreviation ComponentTypeGazeVector :: int where "ComponentTypeGazeVector \<equiv> 16"
abbreviation ComponentTypeTimecode :: int where "ComponentTypeTimecode \<equiv> 17"
abbreviation ComponentTypeSkeleton :: int where "ComponentTypeSkeleton \<equiv> 18"
abbreviation ComponentTypeEyeTracker :: int where "ComponentTypeEyeTracker \<equiv> 19"

subsection \<open>Data objects\<close>

datatype IDataObject =
    Obj3D Component3D
  | Obj3DResidual Component3D
  | Obj3DNoLabels Component3D
  | Obj3DNoLabelsResidual Component3D
  | Obj6D Component6D
  | Obj6DEuler Component6DEuler
  | Obj6DResidual Component6D
  | Obj6DEulerResidual Component6DEuler
  | Obj2D Component2D
  | Obj2DLinearized Component2D
  | ObjAnalog ComponentAnalog
  | ObjAnalogSingle ComponentAnalog
  | ObjForce ComponentForce
  | ObjForceSingle ComponentForce
  | ObjImage ComponentImage
  | ObjGazeVector ComponentGazeVector
  | ObjTimecode ComponentTimecode
  | ObjSkeleton ComponentSkeleton
  | ObjEyeTracker ComponentEyeTracker
  | ObjUnknown int bytes

definition getComponentObject :: "int \<Rightarrow> IDataObject option" where
  "getComponentObject c =
    (if c = ComponentType3D then Some (Obj3D zero_Component3D)
     else if c = ComponentType3DResidual then Some (Obj3DResidual zero_Component3D)
     else if c = ComponentType3DNoLabels then Some (Obj3DNoLabels zero_Component3D)
     else if c = ComponentType3DNoLabelsResidual then Some (Obj3DNoLabelsResidual zero_Component3D)
     else if c = ComponentType6D then Some (Obj6D zero_Component6D)
     else if c = ComponentType6DEuler then Some (Obj6DEuler zero_Component6DEuler)
     else if c = ComponentType6DResidual then Some (Obj6DResidual zero_Component6D)
     else if c = ComponentType6DEulerResidual then Some (Obj6DEulerResidual zero_Component6DEuler)
     else if c = ComponentType2D then Some (Obj2D zero_Component2D)
     else if c = ComponentType2DLinearized then Some (Obj2DLinearized zero_Component2D)
     else if c = ComponentTypeAnalog then Some (ObjAnalog zero_ComponentAnalog)
     else if c = ComponentTypeAnalogSingle then Some (ObjAnalogSingle zero_ComponentAnalog)
     else if c = ComponentTypeForce then Some (ObjForce zero_ComponentForce)
     else if c = ComponentTypeForceSingle then Some (ObjForceSingle zero_ComponentForce)
     else if c = ComponentTypeImage then Some (ObjImage zero_ComponentImage)
     else if c = ComponentTypeGazeVector then Some (ObjGazeVector zero_ComponentGazeVector)
     else if c = ComponentTypeTimecode then Some (ObjTimecode zero_ComponentTimecode)
     else if c = ComponentTypeSkeleton then Some (ObjSkeleton zero_ComponentSkeleton)
     else if c = ComponentTypeEyeTracker then Some (ObjEyeTracker zero_ComponentEyeTracker)
     else None)"

fun IDataObject_UnmarshalBinary :: "IDataObject \<Rightarrow> bytes \<Rightarrow> (err option \<times> IDataObject) option" where
  "IDataObject_UnmarshalBinary (Obj3D c) data =
     map_option (map_prod id Obj3D) (Component3D_UnmarshalBinary c data)"
| "IDataObject_UnmarshalBinary (Obj3DResidual c) data =
     map_option (map_prod id Obj3DResidual) (Component3DResidual_UnmarshalBinary c data)"
| "IDataObject_UnmarshalBinary (Obj3DNoLabels c) data =
     map_option (map_prod id Obj3DNoLabels) (Component3DNoLabels_UnmarshalBinary c data)"
| "IDataObject_UnmarshalBinary (Obj3DNoLabelsResidual c) data =
     map_option (map_prod id Obj3DNoLabelsResidual) (Component3DNoLabelsResidual_UnmarshalBinary c data)"
| "IDataObject_UnmarshalBinary (Obj6D c) data =
     map_option (map_prod id Obj6D) (Component6D_UnmarshalBinary c data)"
| "IDataObject_UnmarshalBinary (Obj6DEuler c) data =
     map_option (map_prod id Obj6DEuler) (Component6DEuler_UnmarshalBinary c data)"
| "IDataObject_UnmarshalBinary (Obj6DResidual c) data =
     map_option (map_prod id Obj6DResidual) (Component6DResidual_UnmarshalBinary c data)"
| "IDataObject_UnmarshalBinary (Obj6DEulerResidual c) data =
     map_option (map_prod id Obj6DEulerResidual) (Component6DEulerResidual_UnmarshalBinary c data)"
| "IDataObject_UnmarshalBinary (Obj2D c) data =
     map_option (map_prod id Obj2D) (Component2D_UnmarshalBinary c data)"
| "IDataObject_UnmarshalBinary (Obj2DLinearized c) data =
     map_option (map_prod id Obj2DLinearized) (Component2DLinearized_UnmarshalBinary c data)"
| "IDataObject_UnmarshalBinary (ObjAnalog c) data =
     map_option (map_prod id ObjAnalog) (ComponentAnalog_UnmarshalBinary c data)"
| "IDataObject_UnmarshalBinary (ObjAnalogSingle c) data =
     map_option (map_prod id ObjAnalogSingle) (ComponentAnalogSingle_UnmarshalBinary c data)"
| "IDataObject_UnmarshalBinary (ObjForce c) data =
     map_option (map_prod id ObjForce) (ComponentForce_UnmarshalBinary c data)"
| "IDataObject_UnmarshalBinary (ObjForceSingle c) data =
     map_option (map_prod id ObjForceSingle) (ComponentForceSingle_UnmarshalBinary c data)"
| "IDataObject_UnmarshalBinary (ObjImage c) data =
     map_option (map_prod id ObjImage) (ComponentImage_UnmarshalBinary c data)"
| "IDataObject_UnmarshalBinary (ObjGazeVector c) data =
     map_option (map_prod id ObjGazeVector) (ComponentGazeVector_UnmarshalBinary c data)"
| "IDataObject_UnmarshalBinary (ObjTimecode c) data =
     map_option (map_prod id ObjTimecode) (ComponentTimecode_UnmarshalBinary c data)"
| "IDataObject_UnmarshalBinary (ObjSkeleton c) data =
     map_option (map_prod id ObjSkeleton) (ComponentSkeleton_UnmarshalBinary c data)"
| "IDataObject_UnmarshalBinary (ObjEyeTracker c) data =
     map_option (map_prod id ObjEyeTracker) (ComponentEyeTracker_UnmarshalBinary c data)"
| "IDataObject_UnmarshalBinary (ObjUnknown t d) data = Some (None, ObjUnknown t data)"

text \<open>The type an object came from, and whether it is one this code decodes.\<close>

fun componentTypeOf :: "IDataObject \<Rightarrow> int \<times> bool" where
  "componentTypeOf (Obj3D c) = (ComponentType3D, True)"
| "componentTypeOf (Obj3DResidual c) = (ComponentType3DResidual, True)"
| "componentTypeOf (Obj3DNoLabels c) = (ComponentType3DNoLabels, True)"
| "componentTypeOf (Obj3DNoLabelsResidual c) = (ComponentType3DNoLabelsResidual, True)"
| "componentTypeOf (Obj6D c) = (ComponentType6D, True)"
| "componentTypeOf (Obj6DEuler c) = (ComponentType6DEuler, True)"
| "componentTypeOf (Obj6DResidual c) = (ComponentType6DResidual, True)"
| "componentTypeOf (Obj6DEulerResidual c) = (ComponentType6DEulerResidual, True)"
| "componentTypeOf (Obj2D c) = (ComponentType2D, True)"
| "componentTypeOf (Obj2DLinearized c) = (ComponentType2DLinearized, True)"
| "componentTypeOf (ObjAnalog c) = (ComponentTypeAnalog, True)"
| "componentTypeOf (ObjAnalogSingle c) = (ComponentTypeAnalogSingle, True)"
| "componentTypeOf (ObjForce c) = (ComponentTypeForce, True)"
| "componentTypeOf (ObjForceSingle c) = (ComponentTypeForceSingle, True)"
| "componentTypeOf (ObjImage c) = (ComponentTypeImage, True)"
| "componentTypeOf (ObjGazeVector c) = (ComponentTypeGazeVector, True)"
| "componentTypeOf (ObjTimecode c) = (ComponentTypeTimecode, True)"
| "componentTypeOf (ObjSkeleton c) = (ComponentTypeSkeleton, True)"
| "componentTypeOf (ObjEyeTracker c) = (ComponentTypeEyeTracker, True)"
| "componentTypeOf (ObjUnknown t d) = (t, False)"

lemma getComponentObject_eq_None:
  "getComponentObject c = None \<longleftrightarrow> c < 1 \<or> 19 < c"
proof -
  have "c \<in> {1..19} \<longleftrightarrow> c \<in> set [1..19]" by simp
  then show ?thesis by (auto simp: getComponentObject_def upto.simps)
qed

lemma componentTypeOf_getComponentObject:
  "getComponentObject c = Some obj \<Longrightarrow> componentTypeOf obj = (c, True)"
  by (auto simp: getComponentObject_def split: if_splits)

lemma componentTypeOf_UnmarshalBinary:
  "IDataObject_UnmarshalBinary obj data = Some (e, obj') \<Longrightarrow> componentTypeOf obj' = componentTypeOf obj"
  by (cases obj) auto

subsection \<open>Frames\<close>

record DataPacket =
  dp_Timestamp :: u64
  dp_Frame :: u32
  dp_Components :: "IDataObject list"
  dp_order :: "byte_order option"

definition zero_DataPacket :: DataPacket where
  "zero_DataPacket = \<lparr>dp_Timestamp = 0, dp_Frame = 0, dp_Components = [], dp_order = None\<rparr>"

abbreviation dataPacketHeaderSize :: nat where "dataPacketHeaderSize \<equiv> 16"
abbreviation componentHeaderSize :: nat where "componentHeaderSize \<equiv> 8"

text \<open>
  The loop over the components: \<open>k\<close> rounds are left, \<open>i\<close> is the loop counter and \<open>pos\<close>
  the offset. The result is the error returned, if any, and the objects appended.
\<close>

fun read_components :: "byte_order \<Rightarrow> bytes \<Rightarrow> nat \<Rightarrow> nat \<Rightarrow> nat \<Rightarrow>
    (err option \<times> IDataObject list) option" where
  "read_components ord data 0 i pos = Some (None, [])"
| "read_components ord data (Suc k) i pos =
     (if pos + componentHeaderSize > length data then
        Some (Some (Errorf ''datapacket: component %d header runs past end of packet''
          [AInt (int i)]), [])
      else do {
        b \<leftarrow> slice data pos (pos + 4);
        csize \<leftarrow> Uint32 ord b;
        b \<leftarrow> slice data (pos + 4) (pos + 8);
        ctype \<leftarrow> Uint32 ord b;
        let csize = unat csize;
        let ctype = uint ctype;
        if csize < componentHeaderSize then
          Some (Some (Errorf ''datapacket: component %d has invalid size %d''
            [AInt (int i), AInt (int csize)]), [])
        else if pos + csize > length data then
          Some (Some (Errorf ''datapacket: component %d claims %d bytes, only %d remain''
            [AInt (int i), AInt (int csize), AInt (int (length data) - int pos)]), [])
        else do {
          payload \<leftarrow> slice data (pos + componentHeaderSize) (pos + csize);
          let iobj = (case getComponentObject ctype of
              None \<Rightarrow> ObjUnknown ctype [] | Some obj \<Rightarrow> obj);
          (e, iobj) \<leftarrow> IDataObject_UnmarshalBinary iobj payload;
          case e of
            Some e \<Rightarrow> Some (Some (Errorf ''datapacket: component %d (%v): %w''
              [AInt (int i), AInt ctype, AWrap e]), [])
          | None \<Rightarrow> do {
              (e, objs) \<leftarrow> read_components ord data k (Suc i) (pos + csize);
              Some (e, iobj # objs)
            }
        }
      })"

definition DataPacket_UnmarshalBinary :: "DataPacket \<Rightarrow> bytes \<Rightarrow> (err option \<times> DataPacket) option" where
  "DataPacket_UnmarshalBinary d data =
     (if length data < dataPacketHeaderSize then
        Some (Some (Errorf ''datapacket: need %d header bytes, have %d''
          [AInt (int dataPacketHeaderSize), AInt (int (length data))]), d)
      else do {
        let ord = (case dp_order d of None \<Rightarrow> LittleEndian | Some ord \<Rightarrow> ord);
        b \<leftarrow> slice data 0 8;
        timestamp \<leftarrow> Uint64 ord b;
        b \<leftarrow> slice data 8 12;
        frame \<leftarrow> Uint32 ord b;
        b \<leftarrow> slice data 12 16;
        componentCount \<leftarrow> Uint32 ord b;
        (e, objs) \<leftarrow> read_components ord data (unat componentCount) 0 dataPacketHeaderSize;
        Some (e, d\<lparr>dp_Timestamp := timestamp, dp_Frame := frame, dp_Components := objs\<rparr>)
      })"

subsection \<open>Accessors\<close>

definition Component :: "int \<Rightarrow> DataPacket \<Rightarrow> IDataObject option" where
  "Component c d = List.find (\<lambda>obj. case componentTypeOf obj of
     (ctype, known) \<Rightarrow> known \<and> ctype = c) (dp_Components d)"

text \<open>\<open>None\<close> is the nil slice; a component that is present but empty gives \<open>Some []\<close>.\<close>

fun unknown_data :: "int \<Rightarrow> IDataObject list \<Rightarrow> bytes option" where
  "unknown_data c [] = None"
| "unknown_data c (ObjUnknown t data # objs) = (if t = c then Some data else unknown_data c objs)"
| "unknown_data c (obj # objs) = unknown_data c objs"

definition UnknownComponentData :: "int \<Rightarrow> DataPacket \<Rightarrow> bytes option" where
  "UnknownComponentData c d = unknown_data c (dp_Components d)"

definition UnknownComponentTypes :: "DataPacket \<Rightarrow> int list" where
  "UnknownComponentTypes d =
     List.map_filter (\<lambda>obj. case obj of ObjUnknown t data \<Rightarrow> Some t | _ \<Rightarrow> None) (dp_Components d)"

definition Markers3D :: "DataPacket \<Rightarrow> Component3D option" where
  "Markers3D d = (case Component ComponentType3D d of Some (Obj3D c) \<Rightarrow> Some c | _ \<Rightarrow> None)"

definition Markers3DResidual :: "DataPacket \<Rightarrow> Component3D option" where
  "Markers3DResidual d = (case Component ComponentType3DResidual d of Some (Obj3DResidual c) \<Rightarrow> Some c | _ \<Rightarrow> None)"

definition Markers3DNoLabels :: "DataPacket \<Rightarrow> Component3D option" where
  "Markers3DNoLabels d = (case Component ComponentType3DNoLabels d of Some (Obj3DNoLabels c) \<Rightarrow> Some c | _ \<Rightarrow> None)"

definition Markers3DNoLabelsResidual :: "DataPacket \<Rightarrow> Component3D option" where
  "Markers3DNoLabelsResidual d = (case Component ComponentType3DNoLabelsResidual d of Some (Obj3DNoLabelsResidual c) \<Rightarrow> Some c | _ \<Rightarrow> None)"

definition Bodies6D :: "DataPacket \<Rightarrow> Component6D option" where
  "Bodies6D d = (case Component ComponentType6D d of Some (Obj6D c) \<Rightarrow> Some c | _ \<Rightarrow> None)"

definition Bodies6DEuler :: "DataPacket \<Rightarrow> Component6DEuler option" where
  "Bodies6DEuler d = (case Component ComponentType6DEuler d of Some (Obj6DEuler c) \<Rightarrow> Some c | _ \<Rightarrow> None)"

definition Bodies6DResidual :: "DataPacket \<Rightarrow> Component6D option" where
  "Bodies6DResidual d = (case Component ComponentType6DResidual d of Some (Obj6DResidual c) \<Rightarrow> Some c | _ \<Rightarrow> None)"

definition Bodies6DEulerResidual :: "DataPacket \<Rightarrow> Component6DEuler option" where
  "Bodies6DEulerResidual d = (case Component ComponentType6DEulerResidual d of Some (Obj6DEulerResidual c) \<Rightarrow> Some c | _ \<Rightarrow> None)"

definition Markers2D :: "DataPacket \<Rightarrow> Component2D option" where
  "Markers2D d = (case Component ComponentType2D d of Some (Obj2D c) \<Rightarrow> Some c | _ \<Rightarrow> None)"

definition Markers2DLinearized :: "DataPacket \<Rightarrow> Component2D option" where
  "Markers2DLinearized d = (case Component ComponentType2DLinearized d of Some (Obj2DLinearized c) \<Rightarrow> Some c | _ \<Rightarrow> None)"

definition Analog :: "DataPacket \<Rightarrow> ComponentAnalog option" where
  "Analog d = (case Component ComponentTypeAnalog d of Some (ObjAnalog c) \<Rightarrow> Some c | _ \<Rightarrow> None)"

definition AnalogSingle :: "DataPacket \<Rightarrow> ComponentAnalog option" where
  "AnalogSingle d = (case Component ComponentTypeAnalogSingle d of Some (ObjAnalogSingle c) \<Rightarrow> Some c | _ \<Rightarrow> None)"

definition Force :: "DataPacket \<Rightarrow> ComponentForce option" where
  "Force d = (case Component ComponentTypeForce d of Some (ObjForce c) \<Rightarrow> Some c | _ \<Rightarrow> None)"

definition ForceSingle :: "DataPacket \<Rightarrow> ComponentForce option" where
  "ForceSingle d = (case Component ComponentTypeForceSingle d of Some (ObjForceSingle c) \<Rightarrow> Some c | _ \<Rightarrow> None)"

definition Images :: "DataPacket \<Rightarrow> ComponentImage option" where
  "Images d = (case Component ComponentTypeImage d of Some (ObjImage c) \<Rightarrow> Some c | _ \<Rightarrow> None)"

definition GazeVectors :: "DataPacket \<Rightarrow> ComponentGazeVector option" where
  "GazeVectors d = (case Component ComponentTypeGazeVector d of Some (ObjGazeVector c) \<Rightarrow> Some c | _ \<Rightarrow> None)"

definition Timecodes :: "DataPacket \<Rightarrow> ComponentTimecode option" where
  "Timecodes d = (case Component ComponentTypeTimecode d of Some (ObjTimecode c) \<Rightarrow> Some c | _ \<Rightarrow> None)"

definition Skeletons :: "DataPacket \<Rightarrow> ComponentSkeleton option" where
  "Skeletons d = (case Component ComponentTypeSkeleton d of Some (ObjSkeleton c) \<Rightarrow> Some c | _ \<Rightarrow> None)"

definition EyeTrackers :: "DataPacket \<Rightarrow> ComponentEyeTracker option" where
  "EyeTrackers d = (case Component ComponentTypeEyeTracker d of Some (ObjEyeTracker c) \<Rightarrow> Some c | _ \<Rightarrow> None)"

subsection \<open>No payload makes a decoder panic\<close>

lemmas component_unmarshal_defs =
  Component3D_UnmarshalBinary_def Component3DResidual_UnmarshalBinary_def
  Component3DNoLabels_UnmarshalBinary_def Component3DNoLabelsResidual_UnmarshalBinary_def
  Component6D_UnmarshalBinary_def Component6DResidual_UnmarshalBinary_def
  Component6DEuler_UnmarshalBinary_def Component6DEulerResidual_UnmarshalBinary_def
  Component2D_UnmarshalBinary_def Component2DLinearized_UnmarshalBinary_def

lemmas component_returns =
  m3d.returns b6d.returns e6d.returns m2d.returns ana.returns ans.returns frc.returns frs.returns
  img.returns gaz.returns tcd.returns skl.returns eye.returns

lemmas component_empty =
  m3d.empty b6d.empty e6d.empty m2d.empty ana.empty ans.empty frc.empty frs.empty
  img.empty gaz.empty tcd.empty skl.empty eye.empty

lemma runs_map_prod [simp]:
  "runs (map_option (map_prod f g) m) Q \<longleftrightarrow> runs m (\<lambda>(x, y). Q (f x, g y))"
  by (auto simp: runs_def)

lemma object_returns:
  "runs (IDataObject_UnmarshalBinary obj data) (\<lambda>(e, obj'). \<forall>x. e = Some x \<longrightarrow> is_short x)"
  using component_returns by (cases obj) (simp_all add: component_unmarshal_defs split_def)

definition fresh_object :: "int \<Rightarrow> IDataObject" where
  "fresh_object t = (case getComponentObject t of None \<Rightarrow> ObjUnknown t [] | Some obj \<Rightarrow> obj)"

lemma fresh_empty: "IDataObject_UnmarshalBinary (fresh_object t) [] = Some (None, fresh_object t)"
proof -
  have "IDataObject_UnmarshalBinary obj [] = Some (None, obj)" if "snd (componentTypeOf obj)" for obj
    using component_empty that by (cases obj) (simp_all add: component_unmarshal_defs)
  then show ?thesis
    by (auto simp: fresh_object_def dest: componentTypeOf_getComponentObject split: option.splits)
qed

lemma read_components_returns:
  "runs (read_components ord data k i pos)
    (\<lambda>(e, objs). (e = None \<longrightarrow> length objs = k) \<and> (e \<noteq> None \<longrightarrow> length objs < k))"
proof (induction k arbitrary: i pos)
  case (Suc k)
  have step: "runs (case e of
        Some e \<Rightarrow> Some (Some (F e), [])
      | None \<Rightarrow> do {
          (e, objs) \<leftarrow> read_components ord data k (Suc i) p;
          Some (e, iobj # objs) })
      (\<lambda>(e, objs). (e = None \<longrightarrow> length objs = Suc k) \<and> (e \<noteq> None \<longrightarrow> length objs < Suc k))"
    for e and iobj :: IDataObject and p F
    by (cases e) (auto intro!: runs_mono [OF Suc.IH [of "Suc i" p]])
  show ?case
    by (auto simp: slice_def get_word_def Let_def not_less
        simp del: not_None_eq
        intro!: runs_mono [OF object_returns] step)
qed simp

lemma DataPacket_returns:
  "runs (DataPacket_UnmarshalBinary d data) (\<lambda>(e, d'). dp_order d' = dp_order d)"
  by (auto simp: DataPacket_UnmarshalBinary_def slice_def get_word_def Let_def
      intro!: runs_mono [OF read_components_returns])

subsection \<open>What a frame looks like\<close>

text \<open>
  A component on the wire is its size, its type and its payload; a frame is its header
  and its components, all numbers of both in the byte order of the connection.
\<close>

definition enc_component :: "byte_order \<Rightarrow> u32 \<times> bytes \<Rightarrow> bytes" where
  "enc_component ord = (\<lambda>(t, payload).
     PutUint32 ord (of_nat (componentHeaderSize + length payload)) @ PutUint32 ord t @ payload)"

definition enc_frame :: "byte_order \<Rightarrow> u64 \<Rightarrow> u32 \<Rightarrow> (u32 \<times> bytes) list \<Rightarrow> bytes" where
  "enc_frame ord timestamp frame comps =
     PutUint64 ord timestamp @ PutUint32 ord frame @ PutUint32 ord (of_nat (length comps))
     @ concat (map (enc_component ord) comps)"

text \<open>What one component of a frame stands for, from its own type and payload alone.\<close>

definition decodes :: "u32 \<times> bytes \<Rightarrow> IDataObject \<Rightarrow> bool" where
  "decodes = (\<lambda>(t, payload) obj. componentHeaderSize + length payload < 2 ^ 32 \<and>
     IDataObject_UnmarshalBinary (fresh_object (uint t)) payload = Some (None, obj))"

lemma slice_shift: "slice (pre @ bs) (length pre + a) (length pre + b) = slice bs a b"
  by (simp add: slice_def)

lemma slice_shift0: "slice (pre @ bs) (length pre) (length pre + b) = slice bs 0 b"
  using slice_shift [of pre bs 0 b] by simp

lemmas slice_shifts = slice_shift slice_shift0

lemma fresh_fold:
  "(case getComponentObject t of None \<Rightarrow> ObjUnknown t [] | Some obj \<Rightarrow> obj) = fresh_object t"
  by (simp add: fresh_object_def)

lemma read_components_frame:
  assumes "list_all2 decodes comps objs"
  shows "read_components ord (pre @ concat (map (enc_component ord) comps) @ rest)
      (length comps) i (length pre) = Some (None, objs)"
  using assms
proof (induction comps objs arbitrary: pre i rule: list_all2_induct)
  case (Cons comp comps obj objs)
  obtain t payload where comp: "comp = (t, payload)" by (cases comp)
  let ?data = "pre @ concat (map (enc_component ord) (comp # comps)) @ rest"
  from Cons.hyps(1) have len: "componentHeaderSize + length payload < 2 ^ 32"
    and obj: "IDataObject_UnmarshalBinary (fresh_object (uint t)) payload = Some (None, obj)"
    by (simp_all add: decodes_def comp)
  define size :: u32 where "size = of_nat (componentHeaderSize + length payload)"
  have size: "unat size = componentHeaderSize + length payload"
    using len by (intro of_nat_inverse [OF size_def [symmetric]]) simp
  have enc: "enc_component ord comp = PutUint32 ord size @ PutUint32 ord t @ payload"
    by (simp add: comp enc_component_def size_def)
  have "read_components ord ?data (length comps) (Suc i)
      (length (pre @ enc_component ord comp)) = Some (None, objs)"
    using Cons.IH [of "pre @ enc_component ord comp" "Suc i"] by simp
  then have rest: "read_components ord ?data (length comps) (Suc i)
      (length pre + unat size) = Some (None, objs)"
    by (simp add: enc size)
  have "slice ?data (length pre) (length pre + 4) = Some (PutUint32 ord size)"
    and "slice ?data (length pre + 4) (length pre + 8) = Some (PutUint32 ord t)"
    and "slice ?data (length pre + componentHeaderSize) (length pre + unat size) = Some payload"
    unfolding slice_shifts by (simp_all add: enc slice_def size)
  moreover have "\<not> length pre + unat size > length ?data" "\<not> length pre + 8 > length ?data"
    by (simp_all add: enc size)
  moreover have "\<not> unat size < componentHeaderSize" by (simp add: size)
  ultimately show ?case
    unfolding list.size add_Suc_right add_0_right read_components.simps Let_def fresh_fold
    using obj rest by simp
qed simp

lemma read_components_sound:
  assumes "read_components ord (pre @ bs) k i (length pre) = Some (None, objs)"
  shows "\<exists>comps rest. bs = concat (map (enc_component ord) comps) @ rest \<and> length comps = k
      \<and> list_all2 decodes comps objs"
  using assms
proof (induction k arbitrary: pre bs i objs)
  case 0
  then show ?case by auto
next
  case (Suc k)
  from Suc.prems obtain size t payload obj objs' where
    len: "componentHeaderSize \<le> unat size" "length pre + unat size \<le> length (pre @ bs)" "8 \<le> length bs"
    and size: "Uint32 ord (take 4 bs) = Some size"
    and t: "Uint32 ord (take 4 (drop 4 bs)) = Some t"
    and payload: "payload = take (unat size - 8) (drop 8 bs)"
    and obj: "IDataObject_UnmarshalBinary (fresh_object (uint t)) payload = Some (None, obj)"
    and objs: "objs = obj # objs'"
    and rest: "read_components ord (pre @ bs) k (Suc i) (length pre + unat size) = Some (None, objs')"
    by (auto simp: slice_shifts slice_def fresh_fold bind_eq_Some_conv Let_def not_less
        split: if_splits option.splits prod.splits)
  have c: "enc_component ord (t, payload) = take (unat size) bs"
  proof -
    from len have "length payload + 8 = unat size" by (simp add: payload)
    then have "(of_nat (componentHeaderSize + length payload) :: u32) = size"
      by (metis add.commute of_nat_unat ucast_id)
    moreover from u32c.put_get [OF size] u32c.put_get [OF t]
    have "PutUint32 ord size = take 4 bs" and "PutUint32 ord t = take 4 (drop 4 bs)" by simp_all
    moreover have "take (unat size) bs = take 4 bs @ take 4 (drop 4 bs) @ take (unat size - 8) (drop 8 bs)"
    proof -
      obtain m where m: "unat size = 4 + (4 + m)" using len(1) by (metis add.assoc le_Suc_ex numeral_Bit0)
      show ?thesis unfolding m take_add drop_drop by simp
    qed
    ultimately show ?thesis by (simp add: enc_component_def payload)
  qed
  have "read_components ord ((pre @ take (unat size) bs) @ drop (unat size) bs) k (Suc i)
      (length (pre @ take (unat size) bs)) = Some (None, objs')"
    using rest len by (simp add: min_absorb2)
  from Suc.IH [OF this] obtain comps rest' where
    ih: "drop (unat size) bs = concat (map (enc_component ord) comps) @ rest'" "length comps = k"
      "list_all2 decodes comps objs'" by blast
  have "decodes (t, payload) obj"
  proof -
    have "unat size < 2 ^ LENGTH(32)" by (rule unsigned_less)
    then show ?thesis using obj len by (simp add: decodes_def payload)
  qed
  moreover have "bs = concat (map (enc_component ord) ((t, payload) # comps)) @ rest'"
    using ih(1) c by (metis append_assoc append_take_drop_id concat.simps(2) list.simps(9))
  ultimately show ?case
    using ih by (intro exI [of _ "(t, payload) # comps"] exI [of _ rest']) (simp add: objs)
qed

text \<open>The payload an object has on the wire: the format of its component, or the kept bytes.\<close>

fun fmt_object :: "IDataObject \<Rightarrow> bytes \<Rightarrow> bool" where
  "fmt_object (Obj3D c) bs = fmt3D False False c bs"
| "fmt_object (Obj3DResidual c) bs = fmt3D False True c bs"
| "fmt_object (Obj3DNoLabels c) bs = fmt3D True False c bs"
| "fmt_object (Obj3DNoLabelsResidual c) bs = fmt3D True True c bs"
| "fmt_object (Obj6D c) bs = fmt6D False c bs"
| "fmt_object (Obj6DEuler c) bs = fmt6DEuler False c bs"
| "fmt_object (Obj6DResidual c) bs = fmt6D True c bs"
| "fmt_object (Obj6DEulerResidual c) bs = fmt6DEuler True c bs"
| "fmt_object (Obj2D c) bs = fmt2D c bs"
| "fmt_object (Obj2DLinearized c) bs = fmt2D c bs"
| "fmt_object (ObjAnalog c) bs = fmtAnalog c bs"
| "fmt_object (ObjAnalogSingle c) bs = fmtAnalogSingle c bs"
| "fmt_object (ObjForce c) bs = fmtForce c bs"
| "fmt_object (ObjForceSingle c) bs = fmtForceSingle c bs"
| "fmt_object (ObjImage c) bs = fmtImage c bs"
| "fmt_object (ObjGazeVector c) bs = fmtGazeVector c bs"
| "fmt_object (ObjTimecode c) bs = fmtTimecode c bs"
| "fmt_object (ObjSkeleton c) bs = fmtSkeleton c bs"
| "fmt_object (ObjEyeTracker c) bs = fmtEyeTracker c bs"
| "fmt_object (ObjUnknown t d) bs = (getComponentObject t = None \<and> bs = d)"

lemmas component_roundtrips =
  m3d.roundtrip b6d.roundtrip e6d.roundtrip m2d.roundtrip ana.roundtrip ans.roundtrip frc.roundtrip frs.roundtrip img.roundtrip gaz.roundtrip tcd.roundtrip skl.roundtrip eye.roundtrip

lemma getComponentObject_numbers:
  "getComponentObject c = Some obj \<longleftrightarrow> c \<in> {1..19} \<and> fst (componentTypeOf obj) = c \<and> obj = fresh_object c"
  using getComponentObject_eq_None [of c]
  by (cases "getComponentObject c") (auto simp: fresh_object_def dest: componentTypeOf_getComponentObject)

lemma decodes_fmt_object:
  assumes "fmt_object obj bs" and "componentTypeOf obj = (uint t, known)" and "known \<or> junk = []"
    and "componentHeaderSize + length (bs @ junk) < 2 ^ 32"
  shows "decodes (t, bs @ junk) obj"
  using assms
  by (cases obj)
    (auto simp: decodes_def fresh_object_def component_unmarshal_defs component_roundtrips
      getComponentObject_def simp del: uint_ge_0)

lemma decodes_componentTypeOf:
  "decodes (t, payload) obj \<Longrightarrow> componentTypeOf obj = (uint t, uint t \<in> {1..19})"
  using getComponentObject_eq_None [of "uint t"]
  by (auto simp: decodes_def fresh_object_def dest!: componentTypeOf_UnmarshalBinary
      componentTypeOf_getComponentObject split: option.splits)

lemma decodes_unknown:
  assumes "decodes (t, payload) obj" and "uint t \<notin> {1..19}"
  shows "obj = ObjUnknown (uint t) payload"
proof -
  from assms(2) have "getComponentObject (uint t) = None" by (auto simp: getComponentObject_eq_None)
  with assms(1) show ?thesis by (simp add: decodes_def fresh_object_def)
qed

text \<open>The frame decoder, characterised: a frame is accepted exactly when it is well formed.\<close>

abbreviation frame_order :: "DataPacket \<Rightarrow> byte_order" where
  "frame_order d \<equiv> (case dp_order d of None \<Rightarrow> LittleEndian | Some ord \<Rightarrow> ord)"

lemma DataPacket_frame:
  assumes "list_all2 decodes comps objs" and "length comps < 2 ^ 32"
  shows "DataPacket_UnmarshalBinary d (enc_frame (frame_order d) timestamp frame comps @ rest)
    = Some (None, d\<lparr>dp_Timestamp := timestamp, dp_Frame := frame, dp_Components := objs\<rparr>)"
proof -
  let ?ord = "frame_order d"
  define n :: u32 where "n = of_nat (length comps)"
  have n: "unat n = length comps"
    using assms(2) by (intro of_nat_inverse [OF n_def [symmetric]]) simp
  let ?pre = "PutUint64 ?ord timestamp @ PutUint32 ?ord frame @ PutUint32 ?ord n"
  have "read_components ?ord (?pre @ concat (map (enc_component ?ord) comps) @ rest)
      (length comps) 0 (length ?pre) = Some (None, objs)"
    by (rule read_components_frame [OF assms(1)])
  then show ?thesis
    by (simp add: DataPacket_UnmarshalBinary_def enc_frame_def slice_def Let_def n n_def [symmetric])
qed

lemma DataPacket_sound:
  assumes "DataPacket_UnmarshalBinary d data = Some (None, d')"
  shows "\<exists>timestamp frame comps objs rest.
    data = enc_frame (frame_order d) timestamp frame comps @ rest \<and> length comps < 2 ^ 32 \<and>
    list_all2 decodes comps objs \<and>
    d' = d\<lparr>dp_Timestamp := timestamp, dp_Frame := frame, dp_Components := objs\<rparr>"
proof -
  let ?ord = "frame_order d"
  from assms obtain timestamp frame n objs where len: "dataPacketHeaderSize \<le> length data"
    and ts: "Uint64 ?ord (take 8 data) = Some timestamp"
    and fr: "Uint32 ?ord (take 4 (drop 8 data)) = Some frame"
    and n: "Uint32 ?ord (take 4 (drop 12 data)) = Some n"
    and rd: "read_components ?ord data (unat n) 0 dataPacketHeaderSize = Some (None, objs)"
    and d': "d' = d\<lparr>dp_Timestamp := timestamp, dp_Frame := frame, dp_Components := objs\<rparr>"
    by (auto simp: DataPacket_UnmarshalBinary_def slice_def bind_eq_Some_conv Let_def not_less
        split: if_splits prod.splits)
  let ?pre = "PutUint64 ?ord timestamp @ PutUint32 ?ord frame @ PutUint32 ?ord n"
  from u64c.put_get [OF ts] u32c.put_get [OF fr] u32c.put_get [OF n]
  have "?pre = take (8 + (4 + 4)) data" unfolding take_add drop_drop by simp
  then have data: "data = ?pre @ drop 16 data" by simp
  from rd have "read_components ?ord (?pre @ drop 16 data) (unat n) 0 (length ?pre) = Some (None, objs)"
    using data by simp
  from read_components_sound [OF this] obtain comps rest where
    c: "drop 16 data = concat (map (enc_component ?ord) comps) @ rest" "length comps = unat n"
      "list_all2 decodes comps objs" by blast
  have "unat n < 2 ^ LENGTH(32)" by (rule unsigned_less)
  with c(2) have "(of_nat (length comps) :: u32) = n" and "length comps < 2 ^ 32" by simp_all
  then show ?thesis
    using data c d'
    by (intro exI [of _ timestamp] exI [of _ frame] exI [of _ comps] exI [of _ objs] exI [of _ rest])
      (simp add: enc_frame_def)
qed

subsection \<open>What the accessors return\<close>

lemma Component_eq: "Component c d = List.find (\<lambda>obj. componentTypeOf obj = (c, True)) (dp_Components d)"
proof -
  have "(case p of (ctype, known) \<Rightarrow> known \<and> ctype = c) \<longleftrightarrow> p = (c, True)" for p :: "int \<times> bool"
    by (cases p) auto
  then show ?thesis by (simp add: Component_def)
qed

lemma Component_iff:
  "Component c d = Some obj \<longleftrightarrow> (\<exists>pre post. dp_Components d = pre @ obj # post
     \<and> componentTypeOf obj = (c, True) \<and> (\<forall>x \<in> set pre. componentTypeOf x \<noteq> (c, True)))"
  (is "?lhs \<longleftrightarrow> ?rhs")
proof
  assume ?lhs
  then obtain i where "i < length (dp_Components d)" "obj = dp_Components d ! i"
    "componentTypeOf obj = (c, True)" "\<forall>j<i. componentTypeOf (dp_Components d ! j) \<noteq> (c, True)"
    by (auto simp: Component_eq find_Some_iff)
  then show ?rhs
    by (intro exI [of _ "take i (dp_Components d)"] exI [of _ "drop (Suc i) (dp_Components d)"])
      (auto simp: id_take_nth_drop in_set_conv_nth)
next
  assume "?rhs"
  then obtain pre post where split: "dp_Components d = pre @ obj # post"
    and obj: "componentTypeOf obj = (c, True)"
    and pre: "\<forall>x \<in> set pre. componentTypeOf x \<noteq> (c, True)" by blast
  from pre have "List.find (\<lambda>obj. componentTypeOf obj = (c, True)) (pre @ xs) = List.find (\<lambda>obj. componentTypeOf obj = (c, True)) xs" for xs
    by (induction pre) auto
  with split obj show ?lhs by (simp add: Component_eq)
qed

lemma Component_type: "Component c d = Some obj \<Longrightarrow> componentTypeOf obj = (c, True)"
  by (auto simp: Component_iff)

lemmas accessor_defs =
  Markers3D_def
  Markers3DResidual_def
  Markers3DNoLabels_def
  Markers3DNoLabelsResidual_def
  Bodies6D_def
  Bodies6DEuler_def
  Bodies6DResidual_def
  Bodies6DEulerResidual_def
  Markers2D_def
  Markers2DLinearized_def
  Analog_def
  AnalogSingle_def
  Force_def
  ForceSingle_def
  Images_def
  GazeVectors_def
  Timecodes_def
  Skeletons_def
  EyeTrackers_def

lemma unknown_types_frame:
  assumes "list_all2 decodes comps objs"
  shows "List.map_filter (\<lambda>obj. case obj of ObjUnknown t data \<Rightarrow> Some t | _ \<Rightarrow> None) objs
    = filter (\<lambda>t. t \<notin> {1..19}) (map (\<lambda>c. uint (fst c)) comps)"
  using assms
proof (induction rule: list_all2_induct)
  case (Cons comp comps obj objs)
  obtain t payload where comp: "comp = (t, payload)" by (cases comp)
  show ?case
  proof (cases "uint t \<in> {1..19}")
    case True
    with decodes_componentTypeOf [of t payload obj] Cons.hyps(1) have "snd (componentTypeOf obj)"
      by (simp add: comp)
    then have "(case obj of ObjUnknown t data \<Rightarrow> Some t | _ \<Rightarrow> None) = None" by (cases obj) simp_all
    with True Cons.IH show ?thesis by (simp add: List.map_filter_simps comp)
  next
    case False
    with decodes_unknown [of t payload obj] Cons show ?thesis
      by (auto simp: List.map_filter_simps comp)
  qed
qed (simp add: List.map_filter_simps)

lemma unknown_data_frame:
  assumes "list_all2 decodes comps objs" and "c \<notin> {1..19}"
  shows "unknown_data c objs = map_of (map (\<lambda>(t, payload). (uint t, payload)) comps) c"
  using assms(1)
proof (induction rule: list_all2_induct)
  case (Cons comp comps obj objs)
  obtain t payload where comp: "comp = (t, payload)" by (cases comp)
  show ?case
  proof (cases "uint t \<in> {1..19}")
    case True
    with decodes_componentTypeOf [of t payload obj] Cons.hyps(1) have "snd (componentTypeOf obj)"
      by (simp add: comp)
    then have "unknown_data c (obj # objs) = unknown_data c objs" by (cases obj) simp_all
    with True assms(2) Cons.IH show ?thesis by (auto simp: comp)
  next
    case False
    with decodes_unknown [of t payload obj] Cons show ?thesis by (auto simp: comp)
  qed
qed simp


subsection \<open>Properties\<close>

text \<open>
  C16: A data frame is accepted exactly when it is a well-formed one in the byte order of
  the connection: header, then as many components as the header says, each with a size
  field that covers it and a payload its own decoder accepts. The decoded frame holds the
  objects the payloads stand for one by one, whatever their neighbours are and whatever
  follows the last component; the order stays, earlier components are dropped.
\<close>

lemma data_frame_iff:
  "DataPacket_UnmarshalBinary d data = Some (None, d') \<longleftrightarrow>
    (\<exists>timestamp frame comps objs rest.
      data = enc_frame (frame_order d) timestamp frame comps @ rest \<and> length comps < 2 ^ 32 \<and>
      list_all2 decodes comps objs \<and>
      d' = d\<lparr>dp_Timestamp := timestamp, dp_Frame := frame, dp_Components := objs\<rparr>)"
  using DataPacket_sound [of d data d'] DataPacket_frame by metis

lemma decodes_fmt:
  "fmt_object obj payload \<Longrightarrow> fst (componentTypeOf obj) = uint t \<Longrightarrow>
    componentHeaderSize + length payload < 2 ^ 32 \<Longrightarrow> decodes (t, payload) obj"
  using decodes_fmt_object [of obj payload t "snd (componentTypeOf obj)" "[]"]
  by (cases "componentTypeOf obj") auto

text \<open>A payload of one marker, and a frame with it and a component of an unknown type.\<close>

definition demo_markers :: Component3D where
  "demo_markers = \<lparr>c3_Droprate = 1, c3_OutOfSyncRate = 2, c3_Markers = [\<lparr>m_Point =
     \<lparr>pt_X = 0x3F800000, pt_Y = 0x40000000, pt_Z = 0\<rparr>, m_Residual = 0x3E000000, m_ID = 7\<rparr>]\<rparr>"

definition demo_object :: IDataObject where
  "demo_object = Obj3DNoLabelsResidual demo_markers"

definition demo_payload :: bytes where
  "demo_payload = enc32 1 @ enc16 1 @ enc16 2 @ enc32 0x3F800000 @ enc32 0x40000000 @ enc32 0
     @ enc32 7 @ enc32 0x3E000000"

definition demo_components :: "(u32 \<times> bytes) list" where
  "demo_components = [(10, demo_payload), (99, [1, 2, 3])]"

lemma demo_fmt: "fmt_object demo_object demo_payload"
  by (simp add: demo_object_def demo_payload_def demo_markers_def fmt3D_def wf_marker_def
      enc_marker_def enc_Point_def)

lemma demo_decodes: "list_all2 decodes demo_components [demo_object, ObjUnknown 99 [1, 2, 3]]"
proof -
  have "decodes (10, demo_payload) demo_object"
    by (rule decodes_fmt [OF demo_fmt]) (simp_all add: demo_object_def demo_payload_def)
  moreover have "decodes (99, [1, 2, 3]) (ObjUnknown 99 [1, 2, 3])"
    by (rule decodes_fmt) (simp_all add: getComponentObject_eq_None)
  ultimately show ?thesis by (simp add: demo_components_def)
qed

text \<open>
  Encode/decode of whole frames: objects of any of the 19 component kinds, or of a
  kind the code does not know, written one after the other as components, come back as
  they are, in order, with the time stamp and the frame number.
\<close>

lemma data_frame_roundtrip:
  assumes "list_all2 (\<lambda>(t, payload) obj. fmt_object obj payload \<and> fst (componentTypeOf obj) = uint t
      \<and> componentHeaderSize + length payload < 2 ^ 32) comps objs"
    and "length comps < 2 ^ 32"
  shows "DataPacket_UnmarshalBinary d (enc_frame (frame_order d) timestamp frame comps @ rest)
    = Some (None, d\<lparr>dp_Timestamp := timestamp, dp_Frame := frame, dp_Components := objs\<rparr>)"
proof (rule DataPacket_frame [OF _ assms(2)])
  show "list_all2 decodes comps objs"
    using assms(1) by (rule list_all2_mono) (auto intro: decodes_fmt)
qed

text \<open>
  Decoding a frame never panics, whatever the bytes, and keeps the byte order.
\<close>

lemma data_frame_total:
  "\<exists>e d'. DataPacket_UnmarshalBinary d data = Some (e, d') \<and> dp_order d' = dp_order d"
  using DataPacket_returns [of d data] by (auto simp: runs_def)

text \<open>
  C21: A component type the code does not know neither fails the frame nor is lost: the
  frame reports the unknown types in order, and the payload of the first component of
  each unknown type byte for byte.
\<close>

lemma unknown_components_kept:
  assumes "list_all2 decodes comps objs" and "length comps < 2 ^ 32" and "c \<notin> {1..19}"
  shows "\<exists>d'. DataPacket_UnmarshalBinary d (enc_frame (frame_order d) timestamp frame comps) = Some (None, d')
    \<and> UnknownComponentTypes d' = filter (\<lambda>t. t \<notin> {1..19}) (map (\<lambda>c. uint (fst c)) comps)
    \<and> UnknownComponentData c d' = map_of (map (\<lambda>(t, payload). (uint t, payload)) comps) c"
  using DataPacket_frame [OF assms(1,2), of d timestamp frame "[]"] unknown_types_frame [OF assms(1)]
    unknown_data_frame [OF assms(1,3)]
  by (simp add: UnknownComponentTypes_def UnknownComponentData_def)

theorem unknown_components_kept_witness:
  "\<exists>d'. DataPacket_UnmarshalBinary zero_DataPacket
      (enc_frame (frame_order zero_DataPacket) 1000 17 demo_components) = Some (None, d')
    \<and> UnknownComponentTypes d' = [99] \<and> UnknownComponentData 99 d' = Some [1, 2, 3]"
  using unknown_components_kept [OF demo_decodes, of 99 zero_DataPacket 1000 17]
  by (simp add: demo_components_def)

text \<open>
  Each typed accessor returns exactly what the lookup of its component type finds, for
  all 19 kinds: its type assertion never drops a component that is there.
\<close>

lemma accessors_find_component:
  "(Component ComponentType3D d = map_option Obj3D (Markers3D d)) \<and>
   (Component ComponentType3DResidual d = map_option Obj3DResidual (Markers3DResidual d)) \<and>
   (Component ComponentType3DNoLabels d = map_option Obj3DNoLabels (Markers3DNoLabels d)) \<and>
   (Component ComponentType3DNoLabelsResidual d = map_option Obj3DNoLabelsResidual (Markers3DNoLabelsResidual d)) \<and>
   (Component ComponentType6D d = map_option Obj6D (Bodies6D d)) \<and>
   (Component ComponentType6DEuler d = map_option Obj6DEuler (Bodies6DEuler d)) \<and>
   (Component ComponentType6DResidual d = map_option Obj6DResidual (Bodies6DResidual d)) \<and>
   (Component ComponentType6DEulerResidual d = map_option Obj6DEulerResidual (Bodies6DEulerResidual d)) \<and>
   (Component ComponentType2D d = map_option Obj2D (Markers2D d)) \<and>
   (Component ComponentType2DLinearized d = map_option Obj2DLinearized (Markers2DLinearized d)) \<and>
   (Component ComponentTypeAnalog d = map_option ObjAnalog (Analog d)) \<and>
   (Component ComponentTypeAnalogSingle d = map_option ObjAnalogSingle (AnalogSingle d)) \<and>
   (Component ComponentTypeForce d = map_option ObjForce (Force d)) \<and>
   (Component ComponentTypeForceSingle d = map_option ObjForceSingle (ForceSingle d)) \<and>
   (Component ComponentTypeImage d = map_option ObjImage (Images d)) \<and>
   (Component ComponentTypeGazeVector d = map_option ObjGazeVector (GazeVectors d)) \<and>
   (Component ComponentTypeTimecode d = map_option ObjTimecode (Timecodes d)) \<and>
   (Component ComponentTypeSkeleton d = map_option ObjSkeleton (Skeletons d)) \<and>
   (Component ComponentTypeEyeTracker d = map_option ObjEyeTracker (EyeTrackers d))"
proof -
  have *: "Component c d = map_option K (case Component c d of None \<Rightarrow> None | Some obj \<Rightarrow> g obj)"
    if "\<And>obj. componentTypeOf obj = (c, True) \<Longrightarrow> Some obj = map_option K (g obj)" for c K g
    using that by (auto dest: Component_type split: option.splits)
  show ?thesis
    unfolding accessor_defs
    by (intro conjI *; case_tac obj; simp)
qed

text \<open>
  The count of a component read in the wrong byte order: a number of 1 to 255 becomes a
  multiple of \<open>2 ^ 24\<close>.
\<close>

lemma swapped_count:
  "PutUint32 BigEndian (ucast (b :: u8)) = [0, 0, 0, b]"
  "Uint32 LittleEndian [0, 0, 0, b] = Some (push_bit 24 (ucast b))"
proof -
  have "ucast (drop_bit k (ucast b :: u32)) = (0 :: u8)" if "8 \<le> k" for k
    using that by (intro bit_word_eqI) (auto simp: bit_simps dest: bit_imp_le_length)
  moreover have "ucast (ucast b :: u32) = b" by (rule bit_word_eqI) (auto simp: bit_simps)
  ultimately show "PutUint32 BigEndian (ucast b) = [0, 0, 0, b]"
    by (simp add: put_word_def arrange_def le_bytes_def upt_conv_Cons)
  show "Uint32 LittleEndian [0, 0, 0, b] = Some (push_bit 24 (ucast b))"
    by (simp add: get_word_def arrange_def push_bit_push_bit)
qed

lemma swapped_count_value: "uint (push_bit 24 (ucast (b :: u8)) :: u32) = uint b * 2 ^ 24"
proof -
  have "uint b < 2 ^ 8" using uint_lt2p [of b] by simp
  then have "uint b * 2 ^ 24 < 2 ^ 32" by simp
  moreover have "uint (ucast b :: u32) = uint b" by (rule uint_up_ucast) (simp add: is_up)
  ultimately show ?thesis
    by (simp add: push_bit_eq_mult uint_word_ariths)
qed

lemma times_12:
  assumes "uint (w :: u64) = 2 ^ 24 * k" and "k < 256"
  shows "uint (w * word_of_int 12) = 12 * 2 ^ 24 * k"
proof -
  have "uint (12 :: u64) = 12" by simp
  then have "uint w * uint (12 :: u64) < 2 ^ LENGTH(64)" using assms by simp
  then have "uint (w * 12) = uint w * uint (12 :: u64)" by (simp only: uint_mult_lem)
  with assms(1) show ?thesis by simp
qed

text \<open>
  C39: A frame of a big-endian connection is not decoded in the connection's byte order:
  its header and component headers are, but the payloads are always read as little-endian
  numbers. Every frame that starts with a 3D component of 1 to 255 markers, all of it in
  big-endian, is rejected with a short-packet error, whatever the markers and the other
  components, although \<open>WithBigEndian\<close> asks QTM to send exactly that.
\<close>

theorem big_endian_payload_rejected:
  assumes "b \<noteq> 0" and "length body = 12 * unat b" and "Suc (length comps) < 2 ^ 32"
  shows "\<exists>e d'. DataPacket_UnmarshalBinary (zero_DataPacket\<lparr>dp_order := Some BigEndian\<rparr>)
      (enc_frame BigEndian timestamp frame ((1, PutUint32 BigEndian (ucast (b :: u8)) @ PutUint16 BigEndian droprate
        @ PutUint16 BigEndian oosrate @ body) # comps)) = Some (Some e, d')
    \<and> is_short e"
proof -
  let ?payload = "PutUint32 BigEndian (ucast b) @ PutUint16 BigEndian droprate @ PutUint16 BigEndian oosrate @ body"
  obtain dr where dr: "Uint16 LittleEndian (PutUint16 BigEndian droprate) = Some dr"
    using u16c.get_total [of "PutUint16 BigEndian droprate" LittleEndian] by auto
  obtain oo where oo: "Uint16 LittleEndian (PutUint16 BigEndian oosrate) = Some oo"
    using u16c.get_total [of "PutUint16 BigEndian oosrate" LittleEndian] by auto
  have b: "0 < uint b" "uint b < 256" using assms(1) uint_lt2p [of b] by (simp_all add: order.strict_iff_order uint_0_iff)
  have claim: "uint ((ucast (push_bit 24 (ucast b) :: u32) :: u64) * word_of_int 12) = 12 * 2 ^ 24 * uint b"
  proof (rule times_12)
    show "uint (ucast (push_bit 24 (ucast b) :: u32) :: u64) = 2 ^ 24 * uint b"
      using swapped_count_value [of b] by (subst uint_up_ucast) (simp_all add: is_up)
  qed (use b in simp)
  have ub: "unat b < 2 ^ LENGTH(8)" by (rule unsigned_less)
  have len: "int (length body) = 12 * uint b" using assms(2) by simp
  obtain e c where e: "Component3D_UnmarshalBinary zero_Component3D ?payload = Some (Some e, c)"
    using claim len b
    by (simp add: Component3D_UnmarshalBinary_def unmarshal3D_def with_cursor_def decode3D_def newCursor_def
       cur_Uint32_def cur_Uint16_def cur_word_def need_def slice_def swapped_count dr oo checkCount_def stride3D_def
       Remaining_def cur_fail_def cur_Err_def)
  have short: "is_short e"
    using object_returns [of "Obj3D zero_Component3D" ?payload] e by simp
  have "fresh_object 1 = Obj3D zero_Component3D"
    by (simp add: fresh_object_def getComponentObject_def)
  then have obj: "IDataObject_UnmarshalBinary (fresh_object 1) ?payload = Some (Some e, Obj3D c)"
    using e by simp
  let ?hdr = "PutUint64 BigEndian timestamp @ PutUint32 BigEndian frame @ PutUint32 BigEndian (of_nat (Suc (length comps)))"
  have "unat (of_nat (Suc (length comps)) :: u32) = Suc (length comps)"
    using assms(3) by (intro of_nat_inverse [OF refl]) simp
  moreover have "unat (of_nat (componentHeaderSize + length ?payload) :: u32) = componentHeaderSize + length ?payload"
    using assms(2) ub by (intro of_nat_inverse [OF refl]) simp
  moreover obtain e' where "read_components BigEndian (?hdr @ enc_component BigEndian (1, ?payload)
        @ concat (map (enc_component BigEndian) comps)) (Suc (length comps)) 0 dataPacketHeaderSize = Some (Some e', [])" "is_short e'"
    using obj short calculation by (simp add: fresh_fold slice_def enc_component_def is_short_def)
  ultimately show ?thesis
    by (simp add: DataPacket_UnmarshalBinary_def slice_def Let_def enc_frame_def zero_DataPacket_def)
qed
theorem big_endian_payload_rejected_witness:
  "\<exists>e d'. DataPacket_UnmarshalBinary (zero_DataPacket\<lparr>dp_order := Some BigEndian\<rparr>)
      (enc_frame BigEndian 5 6 [(1, PutUint32 BigEndian (ucast (1 :: u8)) @ PutUint16 BigEndian 0
        @ PutUint16 BigEndian 0 @ replicate 12 0)]) = Some (Some e, d')
    \<and> is_short e"
  by (rule big_endian_payload_rejected) simp_all

subsection \<open>The component decoders\<close>

lemmas component_sounds =
  m3d.sound b6d.sound e6d.sound m2d.sound ana.sound ans.sound frc.sound frs.sound img.sound gaz.sound tcd.sound skl.sound eye.sound
lemmas component_truncateds =
  m3d.truncated b6d.truncated e6d.truncated m2d.truncated ana.truncated ans.truncated frc.truncated frs.truncated img.truncated gaz.truncated tcd.truncated skl.truncated eye.truncated

lemma fresh_object_known: "snd (componentTypeOf obj) \<Longrightarrow> componentTypeOf (fresh_object (fst (componentTypeOf obj))) = (fst (componentTypeOf obj), True)"
  by (cases obj) (simp_all add: fresh_object_def getComponentObject_def)

text \<open>
  C17: Every one of the 19 component decoders is exact: a payload is accepted with a given
  result exactly when it starts with the wire format of that result, so nothing else decodes to
  it and no payload has two meanings; the kind of the object is the kind that was asked for.
\<close>

theorem component_exact:
  assumes "t \<in> {1..19}" and "data \<noteq> []"
  shows "IDataObject_UnmarshalBinary (fresh_object t) data = Some (None, obj) \<longleftrightarrow>
    componentTypeOf obj = (t, True) \<and> (\<exists>bs rest. data = bs @ rest \<and> fmt_object obj bs)"
    (is "?dec \<longleftrightarrow> ?fmt")
proof
  assume dec: ?dec
  have "componentTypeOf (fresh_object t) = (t, True)"
    using assms(1) getComponentObject_eq_None [of t]
    by (auto simp: fresh_object_def dest: componentTypeOf_getComponentObject split: option.splits)
  with componentTypeOf_UnmarshalBinary [OF dec] have ty: "componentTypeOf obj = (t, True)" by simp
  then have "fresh_object t = fresh_object (fst (componentTypeOf obj))" by simp
  with dec ty assms(2) show ?fmt
    by (cases obj) (auto simp: fresh_object_def getComponentObject_def component_unmarshal_defs
        dest!: component_sounds)
next
  assume ?fmt
  then show ?dec
    by (cases obj) (auto simp: fresh_object_def getComponentObject_def component_unmarshal_defs component_roundtrips)
qed

theorem component_exact_witness:
  "IDataObject_UnmarshalBinary (fresh_object 10) demo_payload = Some (None, demo_object) \<longleftrightarrow>
    componentTypeOf demo_object = (10, True) \<and>
    (\<exists>bs rest. demo_payload = bs @ rest \<and> fmt_object demo_object bs)"
  by (rule component_exact) (simp_all add: demo_payload_def)

text \<open>
  C18: A truncated component is never accepted: every proper, non-empty prefix of the wire
  format of an object is rejected with a short-packet error, for all 19 kinds.
\<close>

theorem component_truncated:
  assumes "fmt_object obj bs" and "snd (componentTypeOf obj)" and "0 < k" and "k < length bs"
  shows "\<exists>e obj'. IDataObject_UnmarshalBinary (fresh_object (fst (componentTypeOf obj))) (take k bs) = Some (Some e, obj')
    \<and> errors_Is e ErrShortPacket"
  using assms
  by (cases obj) (auto simp: fresh_object_def getComponentObject_def component_unmarshal_defs is_short_def
      dest!: component_truncateds [OF _ assms(3,4)])

theorem component_truncated_witness:
  "\<exists>e obj'. IDataObject_UnmarshalBinary (fresh_object (fst (componentTypeOf demo_object))) (take 9 demo_payload)
      = Some (Some e, obj') \<and> errors_Is e ErrShortPacket"
  by (rule component_truncated [OF demo_fmt]) (simp_all add: demo_object_def demo_payload_def)

text \<open>
  C19: No component decoder panics, and short packets are the only errors: on every byte
  sequence and every receiver it returns, either without an error or with one that wraps
  \<open>ErrShortPacket\<close>, and the kind of the object stays.
\<close>

theorem component_total:
  "\<exists>e obj'. IDataObject_UnmarshalBinary obj data = Some (e, obj') \<and>
    (case e of None \<Rightarrow> True | Some x \<Rightarrow> errors_Is x ErrShortPacket) \<and> componentTypeOf obj' = componentTypeOf obj"
proof -
  obtain e obj' where d: "IDataObject_UnmarshalBinary obj data = Some (e, obj')"
    and short: "\<forall>x. e = Some x \<longrightarrow> is_short x"
    using object_returns [of obj data] by (auto simp: runs_def)
  from short have "case e of None \<Rightarrow> True | Some x \<Rightarrow> errors_Is x ErrShortPacket"
    by (simp add: is_short_def split: option.split)
  with d componentTypeOf_UnmarshalBinary [OF d] show ?thesis by blast
qed

end
