(* ===== verification/Packet.thy ===== *)
theory Packet
  imports Data_Packet
begin

text \<open>
  Packets (\<open>packet.go\<close>) and file transfers (\<open>file.go\<close>): the packet and event types, the
  decoder of a complete packet, and writing a transferred file. \<open>os.WriteFile\<close> is a
  parameter: a function of the path, the content, the permissions and the world.
\<close>

subsection \<open>Types of packets and events\<close>

abbreviation PacketTypeError :: u32 where "PacketTypeError \<equiv> 0"
abbreviation PacketTypeCommand :: u32 where "PacketTypeCommand \<equiv> 1"
abbreviation PacketTypeXML :: u32 where "PacketTypeXML \<equiv> 2"
abbreviation PacketTypeData :: u32 where "PacketTypeData \<equiv> 3"
abbreviation PacketTypeNoMoreData :: u32 where "PacketTypeNoMoreData \<equiv> 4"
abbreviation PacketTypeC3DFile :: u32 where "PacketTypeC3DFile \<equiv> 5"
abbreviation PacketTypeEvent :: u32 where "PacketTypeEvent \<equiv> 6"
abbreviation PacketTypeDiscover :: u32 where "PacketTypeDiscover \<equiv> 7"
abbreviation PacketTypeQTMFile :: u32 where "PacketTypeQTMFile \<equiv> 8"
abbreviation PacketTypeNone :: u32 where "PacketTypeNone \<equiv> 9"

abbreviation EventTypeConnectionClosed :: u8 where "EventTypeConnectionClosed \<equiv> 2"
abbreviation EventTypeCameraSettingsChanged :: u8 where "EventTypeCameraSettingsChanged \<equiv> 11"
abbreviation EventTypeQTMShuttingDown :: u8 where "EventTypeQTMShuttingDown \<equiv> 12"
abbreviation EventTypeNone :: u8 where "EventTypeNone \<equiv> 17"

abbreviation packetHeaderSize :: nat where "packetHeaderSize \<equiv> 8"

subsection \<open>File transfers\<close>

record FilePacket =
  fp_Size :: u32
  fp_Type :: u32
  fp_File :: bytes

definition zero_FilePacket :: FilePacket where
  "zero_FilePacket = \<lparr>fp_Size = 0, fp_Type = 0, fp_File = []\<rparr>"

definition FilePacket_UnmarshalBinary :: "FilePacket \<Rightarrow> bytes \<Rightarrow> err option \<times> FilePacket" where
  "FilePacket_UnmarshalBinary d data = (None, d\<lparr>fp_Size := of_nat (length data), fp_File := data\<rparr>)"

definition WriteFile :: "(string \<Rightarrow> bytes \<Rightarrow> int \<Rightarrow> 'w \<Rightarrow> err option \<times> 'w) \<Rightarrow>
    FilePacket \<Rightarrow> string \<Rightarrow> 'w \<Rightarrow> err option \<times> 'w" where
  "WriteFile os_WriteFile d path w =
     (if length (fp_File d) = 0 then (Some (Errorf ''filepacket: no file content received'' []), w)
      else case os_WriteFile path (fp_File d) 384 w of
        (Some e, w) \<Rightarrow> (Some (Errorf ''filepacket: write %s: %w'' [AStr path, AWrap e]), w)
      | (None, w) \<Rightarrow> (None, w))"

subsection \<open>Packets\<close>

text \<open>\<open>bytes.Trim(data, "\x00")\<close>: all leading and trailing zero bytes go.\<close>

definition trim_byte :: "u8 \<Rightarrow> bytes \<Rightarrow> bytes" where
  "trim_byte b data = rev (dropWhile (\<lambda>x. x = b) (rev (dropWhile (\<lambda>x. x = b) data)))"

definition trimStringResponse :: "bytes \<Rightarrow> string" where
  "trimStringResponse data = to_string (trim_byte 0 data)"

record Packet =
  pk_Type :: u32
  pk_ErrorResponse :: string
  pk_CommandResponse :: string
  pk_XMLResponse :: string
  pk_Event :: u8
  pk_Size :: int
  pk_Data :: DataPacket
  pk_File :: FilePacket
  pk_order :: "byte_order option"

definition zero_Packet :: Packet where
  "zero_Packet = \<lparr>pk_Type = 0, pk_ErrorResponse = '''', pk_CommandResponse = '''', pk_XMLResponse = '''',
     pk_Event = 0, pk_Size = 0, pk_Data = zero_DataPacket, pk_File = zero_FilePacket, pk_order = None\<rparr>"

definition Packet_Error :: "Packet \<Rightarrow> bool" where
  "Packet_Error p \<longleftrightarrow> pk_Type p = PacketTypeError"

definition IsPacketData :: "Packet \<Rightarrow> bool" where
  "IsPacketData p \<longleftrightarrow> pk_Type p = PacketTypeData"

definition EndOfData :: "Packet \<Rightarrow> bool" where
  "EndOfData p \<longleftrightarrow> pk_Type p = PacketTypeNoMoreData"

definition Packet_byteOrder :: "Packet \<Rightarrow> byte_order" where
  "Packet_byteOrder p = (case pk_order p of None \<Rightarrow> LittleEndian | Some ord \<Rightarrow> ord)"

definition Packet_UnmarshalBinary :: "Packet \<Rightarrow> bytes \<Rightarrow> (err option \<times> Packet) option" where
  "Packet_UnmarshalBinary p data =
     (if length data < packetHeaderSize then
        Some (Some (Errorf ''packet: need %d header bytes, have %d''
          [AInt (int packetHeaderSize), AInt (int (length data))]), p)
      else do {
        let ord = Packet_byteOrder p;
        b \<leftarrow> slice data 0 4;
        size \<leftarrow> Uint32 ord b;
        b \<leftarrow> slice data 4 8;
        ptype \<leftarrow> Uint32 ord b;
        let p = p\<lparr>pk_Size := uint size, pk_Type := ptype\<rparr>;
        payload \<leftarrow> slice data packetHeaderSize (length data);
        if ptype = PacketTypeError then
          Some (None, p\<lparr>pk_ErrorResponse := trimStringResponse payload\<rparr>)
        else if ptype = PacketTypeCommand then
          Some (None, p\<lparr>pk_CommandResponse := trimStringResponse payload\<rparr>)
        else if ptype = PacketTypeXML then
          Some (None, p\<lparr>pk_XMLResponse := trimStringResponse payload\<rparr>)
        else if ptype = PacketTypeData then do {
          (e, d) \<leftarrow> DataPacket_UnmarshalBinary ((pk_Data p)\<lparr>dp_order := Some ord\<rparr>) payload;
          Some (e, p\<lparr>pk_Data := d\<rparr>)
        }
        else if ptype = PacketTypeNoMoreData \<or> ptype = PacketTypeNone \<or> ptype = PacketTypeDiscover then
          Some (None, p)
        else if ptype = PacketTypeC3DFile \<or> ptype = PacketTypeQTMFile then
          (case FilePacket_UnmarshalBinary ((pk_File p)\<lparr>fp_Type := ptype\<rparr>) payload of
             (e, f) \<Rightarrow> Some (e, p\<lparr>pk_File := f\<rparr>))
        else if ptype = PacketTypeEvent then
          (case payload of
             [] \<Rightarrow> Some (Some (Errorf ''packet: event packet has no payload'' []), p)
           | b # _ \<Rightarrow> Some (None, p\<lparr>pk_Event := b\<rparr>))
        else Some (None, p)
      })"

subsection \<open>Lemmas\<close>

text \<open>A packet on the wire: size and type in the byte order of the connection, then the payload.\<close>

definition enc_packet :: "byte_order \<Rightarrow> u32 \<Rightarrow> bytes \<Rightarrow> bytes" where
  "enc_packet ord t payload =
     PutUint32 ord (of_nat (packetHeaderSize + length payload)) @ PutUint32 ord t @ payload"

lemma length_enc_packet [simp]: "length (enc_packet ord t payload) = packetHeaderSize + length payload"
  by (simp add: enc_packet_def)

definition text_string :: "string \<Rightarrow> bool" where
  "text_string s \<longleftrightarrow> (s \<noteq> [] \<longrightarrow> of_char (hd s) \<noteq> (0 :: nat) \<and> of_char (last s) \<noteq> (0 :: nat))"

lemma trim_byte_id:
  assumes "xs \<noteq> [] \<longrightarrow> hd xs \<noteq> b \<and> last xs \<noteq> b"
  shows "trim_byte b (replicate m b @ xs @ replicate n b) = xs"
proof -
  have dw: "dropWhile (\<lambda>x. x = b) (replicate k b @ ys) = dropWhile (\<lambda>x. x = b) ys" for k ys
    by (induction k) simp_all
  have hd: "dropWhile (\<lambda>x. x = b) (ys @ zs) = ys @ zs" if "ys \<noteq> []" "hd ys \<noteq> b" for ys zs
    using that by (cases ys) simp_all
  show ?thesis
  proof (cases "xs = []")
    case True
    then show ?thesis by (simp add: trim_byte_def dw flip: replicate_add)
  next
    case False
    with assms have "dropWhile (\<lambda>x. x = b) (rev xs) = rev xs"
      using hd [of "rev xs" "[]"] by (simp add: hd_rev)
    with False assms show ?thesis
      by (simp add: trim_byte_def dw hd)
  qed
qed

lemma text_string_to_bytes:
  assumes "text_string s"
  shows "to_bytes s \<noteq> [] \<longrightarrow> hd (to_bytes s) \<noteq> 0 \<and> last (to_bytes s) \<noteq> 0"
proof -
  have "word_of_nat (of_char c) \<noteq> (0 :: u8)" if "of_char c \<noteq> (0 :: nat)" for c :: char
  proof
    assume "word_of_nat (of_char c) = (0 :: u8)"
    then have "char_of (0 :: nat) = c"
      using to_string_to_bytes [of "[c]"] by (simp add: to_string_def to_bytes_def)
    with that show False by (metis of_char_of mod_0)
  qed
  then show ?thesis
    using assms by (auto simp: text_string_def to_bytes_def hd_map last_map)
qed

lemma trimStringResponse_text:
  "text_string s \<Longrightarrow> trimStringResponse (to_bytes s @ replicate n 0) = s"
  using trim_byte_id [OF text_string_to_bytes, of s 0 n] by (simp add: trimStringResponse_def)

text \<open>Decoding what \<open>enc_packet\<close> builds, and what every accepted packet looks like.\<close>

definition decoded_payload :: "byte_order \<Rightarrow> u32 \<Rightarrow> bytes \<Rightarrow> Packet \<Rightarrow> (err option \<times> Packet) option" where
  "decoded_payload ord t payload p =
     (if t = PacketTypeError then Some (None, p\<lparr>pk_ErrorResponse := trimStringResponse payload\<rparr>)
      else if t = PacketTypeCommand then Some (None, p\<lparr>pk_CommandResponse := trimStringResponse payload\<rparr>)
      else if t = PacketTypeXML then Some (None, p\<lparr>pk_XMLResponse := trimStringResponse payload\<rparr>)
      else if t = PacketTypeData then
        map_option (map_prod id (\<lambda>d. p\<lparr>pk_Data := d\<rparr>))
          (DataPacket_UnmarshalBinary ((pk_Data p)\<lparr>dp_order := Some ord\<rparr>) payload)
      else if t = PacketTypeC3DFile \<or> t = PacketTypeQTMFile then
        Some (None, p\<lparr>pk_File := \<lparr>fp_Size = of_nat (length payload), fp_Type = t, fp_File = payload\<rparr>\<rparr>)
      else if t = PacketTypeEvent then
        (if payload = [] then Some (Some (Errorf ''packet: event packet has no payload'' []), p)
         else Some (None, p\<lparr>pk_Event := hd payload\<rparr>))
      else Some (None, p))"

lemma FilePacket_eq: "f\<lparr>fp_Type := t, fp_Size := n, fp_File := b\<rparr> = \<lparr>fp_Size = n, fp_Type = t, fp_File = b\<rparr>"
  for f :: FilePacket
  by (cases f) simp

lemma Packet_UnmarshalBinary_header:
  "Packet_UnmarshalBinary p (PutUint32 (Packet_byteOrder p) sz @ PutUint32 (Packet_byteOrder p) t @ payload)
    = decoded_payload (Packet_byteOrder p) t payload (p\<lparr>pk_Size := uint sz, pk_Type := t\<rparr>)"
  by (auto simp: Packet_UnmarshalBinary_def decoded_payload_def slice_def Let_def
      FilePacket_UnmarshalBinary_def FilePacket_eq map_option_case map_prod_def
      split: list.splits option.splits)

lemma packet_header_exists:
  assumes "packetHeaderSize \<le> length data"
  obtains sz t payload where "data = PutUint32 ord sz @ PutUint32 ord t @ payload"
proof -
  from assms obtain sz t where sz: "Uint32 ord (take 4 data) = Some sz"
    and t: "Uint32 ord (take 4 (drop 4 data)) = Some t"
    using u32c.get_total [of "take 4 data" ord] u32c.get_total [of "take 4 (drop 4 data)" ord] by auto
  from u32c.put_get [OF sz] u32c.put_get [OF t]
  have "data = PutUint32 ord sz @ PutUint32 ord t @ drop 8 data"
    using append_take_drop_id [of 4 data] append_take_drop_id [of 4 "drop 4 data"] by simp
  then show ?thesis by (rule that)
qed

lemma decoded_payload_returns:
  "runs (decoded_payload ord t payload p) (\<lambda>(e, p'). pk_Type p' = pk_Type p \<and> pk_Size p' = pk_Size p
     \<and> pk_order p' = pk_order p)"
  using DataPacket_returns [of "(pk_Data p)\<lparr>dp_order := Some ord\<rparr>" payload]
  by (auto simp: decoded_payload_def elim: runs_mono)

lemma Packet_returns:
  "runs (Packet_UnmarshalBinary p data) (\<lambda>(e, p'). pk_order p' = pk_order p)"
proof (cases "length data < packetHeaderSize")
  case False
  then obtain sz t payload where
    "data = PutUint32 (Packet_byteOrder p) sz @ PutUint32 (Packet_byteOrder p) t @ payload"
    using packet_header_exists by (metis not_less)
  then show ?thesis
    by (auto simp: Packet_UnmarshalBinary_header intro: runs_mono [OF decoded_payload_returns])
qed (simp add: Packet_UnmarshalBinary_def)

subsection \<open>Properties\<close>

text \<open>
  C20: Decoding a packet returns normally on every byte sequence, in both byte orders:
  neither the header reads nor the payload of any packet type can make it panic, and the
  packet keeps the byte order of its connection.
\<close>

lemma packet_total:
  "\<exists>e p'. Packet_UnmarshalBinary p data = Some (e, p') \<and> pk_order p' = pk_order p"
  using Packet_returns [of p data] by (auto simp: runs_def)

text \<open>
  A file transfer keeps the file: the payload of a C3D or QTM packet is the file
  content from its first byte to its last, and writing it stores exactly these bytes
  under the given path, once, with mode 0600, or fails with the error of the file system.
\<close>

lemma file_transfer_complete:
  assumes "t = PacketTypeC3DFile \<or> t = PacketTypeQTMFile" and "payload \<noteq> []"
  shows "\<exists>p. Packet_UnmarshalBinary zero_Packet (enc_packet LittleEndian t payload) = Some (None, p) \<and>
    pk_Type p = t \<and> fp_Type (pk_File p) = t \<and> fp_File (pk_File p) = payload \<and>
    WriteFile os_WriteFile (pk_File p) path w = (case os_WriteFile path payload 384 w of
        (None, w) \<Rightarrow> (None, w)
      | (Some e, w) \<Rightarrow> (Some (Errorf ''filepacket: write %s: %w'' [AStr path, AWrap e]), w))"
proof -
  have ord: "Packet_byteOrder zero_Packet = LittleEndian"
    by (simp add: Packet_byteOrder_def zero_Packet_def)
  note dec = Packet_UnmarshalBinary_header [of zero_Packet, unfolded ord]
  show ?thesis
    unfolding enc_packet_def dec using assms
    by (auto simp: decoded_payload_def WriteFile_def split: prod.splits option.splits)
qed

text \<open>
  A text response comes back as the text that was sent: the terminator and any
  padding are stripped, nothing else, for every text that does not itself begin or end
  with a zero byte.
\<close>

lemma text_response_roundtrip:
  assumes "text_string s"
  shows "\<exists>p. Packet_UnmarshalBinary zero_Packet
      (enc_packet LittleEndian PacketTypeCommand (to_bytes s @ replicate n 0)) = Some (None, p) \<and>
    pk_CommandResponse p = s"
proof -
  have ord: "Packet_byteOrder zero_Packet = LittleEndian"
    by (simp add: Packet_byteOrder_def zero_Packet_def)
  note dec = Packet_UnmarshalBinary_header [of zero_Packet, unfolded ord]
  show ?thesis
    unfolding enc_packet_def dec by (simp add: decoded_payload_def trimStringResponse_text [OF assms])
qed

end
