(* ===== verification/Network.thy ===== *)
theory Network
  imports Go_Errors
begin

text \<open>
  The part of package \<open>net\<close> and \<open>io\<close> the client stands on: a TCP connection with read
  deadlines, \<open>io.ReadFull\<close>, and a UDP socket.

  A connection is a script of what the network delivers: events with their arrival times
  (a chunk of the byte stream, the end of the stream, or a failure), and a peer that
  answers each write with a failure or with further events, as a function of everything
  written so far. Time is an integer number of nanoseconds that advances only while a read
  waits. A read whose deadline has come fails with a timeout even when data is there, as
  in Go. A read without a deadline on a connection that delivers nothing any more never
  returns; it is \<open>None\<close>, as a panic is, so that a theorem saying that an operation returns
  excludes both.
\<close>

datatype net_event = Chunk bytes | Closed | Failure bool string

type_synonym inbox = "(int \<times> net_event) list"

record conn =
  cn_inbox :: inbox
  cn_deadline :: "int option"
  cn_outbox :: "bytes list"
  cn_peer :: "bytes list \<Rightarrow> err + inbox"
  cn_deadline_err :: "err option"

definition late :: "int option \<Rightarrow> int \<Rightarrow> bool" where
  "late dl t = (case dl of None \<Rightarrow> False | Some d \<Rightarrow> d \<le> t)"

definition ioTimeout :: err where
  "ioTimeout = NetError True ''i/o timeout''"

text \<open>The moment a read that started at \<open>now\<close> gives up at its deadline.\<close>

definition give_up :: "int option \<Rightarrow> int \<Rightarrow> int" where
  "give_up dl now = (case dl of None \<Rightarrow> now | Some d \<Rightarrow> max now d)"

subsection \<open>Reading\<close>

text \<open>One \<open>Read\<close> into a buffer of \<open>n > 0\<close> bytes: the bytes, the error, the time, what is left.\<close>

fun conn_Read :: "int option \<Rightarrow> nat \<Rightarrow> int \<Rightarrow> inbox \<Rightarrow> (bytes \<times> err option \<times> int \<times> inbox) option" where
  "conn_Read dl n now [] =
     (if dl = None then None else Some ([], Some ioTimeout, give_up dl now, []))"
| "conn_Read dl n now ((t, ev) # q) =
     (if late dl (max now t) then Some ([], Some ioTimeout, give_up dl now, (t, ev) # q)
      else case ev of
        Chunk bs \<Rightarrow>
          if bs = [] then conn_Read dl n (max now t) q
          else if length bs \<le> n then Some (bs, None, max now t, q)
          else Some (take n bs, None, max now t, (t, Chunk (drop n bs)) # q)
      | Closed \<Rightarrow> Some ([], Some IoEOF, max now t, (t, Closed) # q)
      | Failure tmo msg \<Rightarrow> Some ([], Some (NetError tmo msg), max now t, q))"

lemma conn_Read_progress:
  "conn_Read dl n now q = Some (b, None, now', q') \<Longrightarrow> 0 < n \<Longrightarrow> b \<noteq> [] \<and> length b \<le> n"
  by (induction dl n now q rule: conn_Read.induct)
    (auto split: if_splits net_event.splits)

text \<open>The loop of \<open>io.ReadAtLeast\<close>, and \<open>io.ReadFull\<close> with its two end-of-file errors.\<close>

function read_loop_net :: "int option \<Rightarrow> nat \<Rightarrow> int \<Rightarrow> inbox \<Rightarrow>
    (bytes \<times> err option \<times> int \<times> inbox) option" where
  "read_loop_net dl n now q =
     (if n = 0 then Some ([], None, now, q)
      else case conn_Read dl n now q of
        None \<Rightarrow> None
      | Some (b, Some e, now, q) \<Rightarrow> Some (b, Some e, now, q)
      | Some (b, None, now, q) \<Rightarrow> do {
          (bs, e, now, q) \<leftarrow> read_loop_net dl (n - length b) now q;
          Some (b @ bs, e, now, q)
        })"
  by pat_completeness auto
termination
  by (relation "measure (\<lambda>(dl, n, now, q). n)") (auto dest: conn_Read_progress)

declare read_loop_net.simps [simp del]

definition io_ReadFull :: "int option \<Rightarrow> nat \<Rightarrow> int \<Rightarrow> inbox \<Rightarrow>
    (bytes \<times> err option \<times> int \<times> inbox) option" where
  "io_ReadFull dl n now q = do {
     (bs, e, now, q) \<leftarrow> read_loop_net dl n now q;
     Some (bs, if n \<le> length bs then None
               else if bs \<noteq> [] \<and> e = Some IoEOF then Some IoUnexpectedEOF else e, now, q)
   }"

subsection \<open>Writing, deadlines\<close>

text \<open>
  A write fails or succeeds at once. The code sets no write deadline, so a peer that stops reading
  could block \<open>conn.Write\<close>; that does not happen here.
\<close>

definition conn_Write :: "bytes \<Rightarrow> int \<Rightarrow> conn \<Rightarrow> err option \<times> conn" where
  "conn_Write data now c = (case cn_peer c (cn_outbox c @ [data]) of
       Inl e \<Rightarrow> (Some e, c)
     | Inr evs \<Rightarrow> (None, c\<lparr>cn_outbox := cn_outbox c @ [data],
         cn_inbox := cn_inbox c @ map (\<lambda>(dt, ev). (now + dt, ev)) evs\<rparr>))"

definition conn_SetReadDeadline :: "int option \<Rightarrow> conn \<Rightarrow> err option \<times> conn" where
  "conn_SetReadDeadline dl c = (case cn_deadline_err c of
       Some e \<Rightarrow> (Some e, c)
     | None \<Rightarrow> (None, c\<lparr>cn_deadline := dl\<rparr>))"

subsection \<open>How much is left to deliver\<close>

text \<open>A measure of an inbox that every event and every byte taken from it lowers.\<close>

fun event_size :: "net_event \<Rightarrow> nat" where
  "event_size (Chunk bs) = Suc (length bs)"
| "event_size Closed = 1"
| "event_size (Failure tmo msg) = 1"

definition inbox_size :: "inbox \<Rightarrow> nat" where
  "inbox_size q = sum_list (map (\<lambda>(t, ev). event_size ev) q)"

lemma inbox_size_simps [simp]:
  "inbox_size [] = 0" "inbox_size ((t, ev) # q) = event_size ev + inbox_size q"
  by (simp_all add: inbox_size_def)

lemma conn_Read_size:
  assumes "conn_Read dl n now q = Some (b, e, now', q')" and "0 < n"
  shows "inbox_size q' + length b \<le> inbox_size q \<and> now \<le> now'
    \<and> (\<forall>x. e = Some x \<longrightarrow> b = [] \<and> (isTimeout x \<longrightarrow> inbox_size q' < inbox_size q \<or> late dl now'))
    \<and> (\<not> late dl now' \<or> e = Some ioTimeout)"
  using assms
proof (induction dl n now q rule: conn_Read.induct)
  case (1 dl n now)
  then show ?case
    by (auto simp: give_up_def late_def split: if_splits option.splits)
next
  case (2 dl n now t ev q)
  show ?case
  proof (cases "late dl (max now t)")
    case True
    with 2(2) show ?thesis
      by (auto simp: give_up_def late_def split: option.splits)
  next
    case False
    show ?thesis
    proof (cases "ev = Chunk []")
      case True
      with 2 False show ?thesis by fastforce
    next
      case nempty: False
      with False 2(2,3) show ?thesis
        by (auto split: net_event.splits if_splits)
    qed
  qed
qed

lemma read_loop_net_size:
  assumes "read_loop_net dl n now q = Some (bs, e, now', q')"
  shows "inbox_size q' + length bs \<le> inbox_size q \<and> now \<le> now' \<and> length bs \<le> n
    \<and> (e = None \<longleftrightarrow> length bs = n)
    \<and> (\<forall>x. e = Some x \<longrightarrow> isTimeout x \<longrightarrow> inbox_size q' < inbox_size q \<or> late dl now')"
  using assms
proof (induction dl n now q arbitrary: bs e now' q' rule: read_loop_net.induct)
  case (1 dl n now q)
  show ?case
  proof (cases "n = 0")
    case True
    with 1(2) show ?thesis by (simp add: read_loop_net.simps)
  next
    case False
    then obtain b e1 now1 q1 where r: "conn_Read dl n now q = Some (b, e1, now1, q1)"
      using 1(2) by (auto simp: read_loop_net.simps split: option.splits)
    with False conn_Read_size [OF r] have size: "inbox_size q1 + length b \<le> inbox_size q" "now \<le> now1"
      "\<forall>x. e1 = Some x \<longrightarrow> b = [] \<and> (isTimeout x \<longrightarrow> inbox_size q1 < inbox_size q \<or> late dl now1)"
      by simp_all
    show ?thesis
    proof (cases e1)
      case None
      with conn_Read_progress [of dl n now q b now1 q1] r False have b: "b \<noteq> []" "length b \<le> n" by simp_all
      obtain bs' where rest: "read_loop_net dl (n - length b) now1 q1 = Some (bs', e, now', q')"
        and bs: "bs = b @ bs'"
        using 1(2) r None False by (auto simp: read_loop_net.simps [of dl n] bind_eq_Some_conv)
      have "inbox_size q' + length bs' \<le> inbox_size q1 \<and> now1 \<le> now' \<and> length bs' \<le> n - length b
        \<and> (e = None \<longleftrightarrow> length bs' = n - length b)
        \<and> (\<forall>x. e = Some x \<longrightarrow> isTimeout x \<longrightarrow> inbox_size q' < inbox_size q1 \<or> late dl now')"
        by (rule 1(1) [OF False r refl refl None refl rest])
      with size b bs show ?thesis by auto
    next
      case (Some x)
      with 1(2) r False size show ?thesis by (auto simp: read_loop_net.simps)
    qed
  qed
qed

subsection \<open>The byte stream behind the events\<close>

text \<open>
  What a caller of \<open>io.ReadFull\<close> relies on: while enough of the stream is there in time,
  reads return consecutive pieces of it, whatever chunks it came in.
\<close>

locale byte_stream =
  fixes read :: "'d \<Rightarrow> nat \<Rightarrow> 's \<Rightarrow> (bytes \<times> err option \<times> 's) option"
    and avail :: "'s \<Rightarrow> bytes" and valid :: "'s \<Rightarrow> bool" and in_time :: "'d \<Rightarrow> bool"
  assumes delivers: "valid s \<Longrightarrow> in_time d \<Longrightarrow> n \<le> length (avail s) \<Longrightarrow>
      \<exists>s'. read d n s = Some (take n (avail s), None, s') \<and> avail s' = drop n (avail s) \<and> valid s'"
begin

lemma delivers_prefix:
  assumes "valid s" and "in_time d" and "avail s = xs @ ys"
  shows "\<exists>s'. read d (length xs) s = Some (xs, None, s') \<and> avail s' = ys \<and> valid s'"
  using delivers [OF assms(1,2), of "length xs"] assms(3) by simp

lemma delivers_two:
  assumes "valid s" and "in_time d" and "avail s = xs @ ys @ zs"
  shows "\<exists>s1. read d (length xs) s = Some (xs, None, s1) \<and> valid s1 \<and> (\<forall>d2. in_time d2 \<longrightarrow>
    (\<exists>s2. read d2 (length ys) s1 = Some (ys, None, s2) \<and> avail s2 = zs \<and> valid s2))"
proof -
  from delivers_prefix [OF assms] obtain s1 where
    s1: "read d (length xs) s = Some (xs, None, s1)" "avail s1 = ys @ zs" "valid s1" by blast
  show ?thesis
    by (rule exI [of _ s1]) (intro conjI allI impI s1(1,3) delivers_prefix [OF s1(3) _ s1(2)])
qed

end

text \<open>The bytes that can be read without passing the moment \<open>T\<close>.\<close>

fun arrived :: "int \<Rightarrow> inbox \<Rightarrow> bytes" where
  "arrived T [] = []"
| "arrived T ((t, ev) # q) =
     (if t \<le> T then (case ev of Chunk bs \<Rightarrow> bs @ arrived T q | _ \<Rightarrow> []) else [])"

lemma late_mono: "\<not> late dl T \<Longrightarrow> t \<le> T \<Longrightarrow> \<not> late dl t"
  by (auto simp: late_def split: option.splits)

lemma conn_Read_arrived:
  assumes "now \<le> T" and "\<not> late dl T" and "arrived T q \<noteq> []" and "0 < n"
  shows "\<exists>b now' q'. conn_Read dl n now q = Some (b, None, now', q') \<and> now' \<le> T
    \<and> arrived T q = b @ arrived T q' \<and> length b \<le> n \<and> b \<noteq> []"
  using assms
proof (induction dl n now q rule: conn_Read.induct)
  case (2 dl n now t ev q)
  then obtain bs where ev: "ev = Chunk bs" and t: "t \<le> T"
    by (auto split: if_splits net_event.splits)
  have nl: "\<not> late dl (max now t)"
    by (rule late_mono [OF 2(3)]) (use 2(2) t in simp)
  show ?case
  proof (cases "bs = []")
    case True
    have "max now t \<le> T" and "arrived T q \<noteq> []" using 2(2,4) t ev True by simp_all
    from 2(1) [OF nl ev True this(1) 2(3) this(2) 2(5)] show ?thesis
      using nl ev t True by simp
  next
    case False
    with nl ev t 2(2,5) show ?thesis by simp
  qed
qed simp

lemma read_loop_net_arrived:
  assumes "now \<le> T" and "\<not> late dl T" and "n \<le> length (arrived T q)"
  shows "\<exists>now' q'. read_loop_net dl n now q = Some (take n (arrived T q), None, now', q')
    \<and> now' \<le> T \<and> arrived T q' = drop n (arrived T q)"
  using assms
proof (induction n arbitrary: now q rule: less_induct)
  case (less n)
  show ?case
  proof (cases "n = 0")
    case True
    with less(2) show ?thesis by (simp add: read_loop_net.simps)
  next
    case False
    with less(4) have "arrived T q \<noteq> []" by auto
    with conn_Read_arrived [OF less(2,3)] False obtain b now1 q1 where
      r: "conn_Read dl n now q = Some (b, None, now1, q1)" "now1 \<le> T"
      and q1: "arrived T q = b @ arrived T q1" and b: "length b \<le> n" "b \<noteq> []" by blast
    have "n - length b < n" using b False by simp
    moreover have "n - length b \<le> length (arrived T q1)" using less(4) q1 by simp
    ultimately obtain now' q' where
      "read_loop_net dl (n - length b) now1 q1 = Some (take (n - length b) (arrived T q1), None, now', q')"
      "now' \<le> T" "arrived T q' = drop (n - length b) (arrived T q1)"
      using less(1) [OF _ r(2) less(3)] by blast
    with r q1 b False show ?thesis by (simp add: read_loop_net.simps [of dl n])
  qed
qed

interpretation tcp: byte_stream
  "\<lambda>dl n s. map_option (\<lambda>(bs, e, now, q). (bs, e, (now, q))) (io_ReadFull dl n (fst s) (snd s))"
  "\<lambda>s. arrived T (snd s)" "\<lambda>s. fst s \<le> T" "\<lambda>dl. \<not> late dl T" for T
proof
  fix s :: "int \<times> inbox" and dl and n :: nat
  assume "fst s \<le> T" "\<not> late dl T" and n: "n \<le> length (arrived T (snd s))"
  with read_loop_net_arrived [of "fst s" T dl n "snd s"]
  show "\<exists>s'. map_option (\<lambda>(bs, e, now, q). (bs, e, (now, q))) (io_ReadFull dl n (fst s) (snd s))
      = Some (take n (arrived T (snd s)), None, s')
    \<and> arrived T (snd s') = drop n (arrived T (snd s)) \<and> fst s' \<le> T"
    by (auto simp: io_ReadFull_def)
qed

text \<open>A read with a deadline, or of a stream that ends, returns.\<close>

fun stream_ends :: "inbox \<Rightarrow> bool" where
  "stream_ends [] = False"
| "stream_ends ((t, ev) # q) = (ev = Closed \<or> stream_ends q)"

lemma conn_Read_returns:
  assumes "dl \<noteq> None \<or> stream_ends q"
  shows "\<exists>b e now' q'. conn_Read dl n now q = Some (b, e, now', q') \<and>
    (dl \<noteq> None \<or> stream_ends q' \<or> (\<exists>x. e = Some x))"
  using assms
  by (induction dl n now q rule: conn_Read.induct) (auto split: net_event.splits)

lemma read_loop_net_returns:
  assumes "dl \<noteq> None \<or> stream_ends q"
  shows "\<exists>r. read_loop_net dl n now q = Some r"
  using assms
proof (induction n arbitrary: now q rule: less_induct)
  case (less n)
  show ?case
  proof (cases "n = 0")
    case False
    from conn_Read_returns [OF less(2)] obtain b e now1 q1 where
      r: "conn_Read dl n now q = Some (b, e, now1, q1)" "dl \<noteq> None \<or> stream_ends q1 \<or> (\<exists>x. e = Some x)"
      by blast
    show ?thesis
    proof (cases e)
      case None
      with r conn_Read_progress [of dl n now q] False have "n - length b < n" by fastforce
      with less(1) [of "n - length b" q1 now1] r None obtain s where
        "read_loop_net dl (n - length b) now1 q1 = Some s" by auto
      with r None False show ?thesis by (cases s) (simp add: read_loop_net.simps [of dl n])
    next
      case (Some x)
      with r False show ?thesis by (simp add: read_loop_net.simps)
    qed
  qed (simp add: read_loop_net.simps)
qed

lemma io_ReadFull_size:
  assumes "io_ReadFull dl n now q = Some (bs, e, now', q')"
  shows "inbox_size q' + length bs \<le> inbox_size q \<and> now \<le> now' \<and> length bs \<le> n
    \<and> (e = None \<longleftrightarrow> length bs = n)
    \<and> (\<forall>x. e = Some x \<longrightarrow> isTimeout x \<longrightarrow> inbox_size q' < inbox_size q \<or> late dl now')"
proof -
  from assms obtain e1 where r: "read_loop_net dl n now q = Some (bs, e1, now', q')"
    and e: "e = (if n \<le> length bs then None
      else if bs \<noteq> [] \<and> e1 = Some IoEOF then Some IoUnexpectedEOF else e1)"
    by (auto simp: io_ReadFull_def bind_eq_Some_conv)
  from read_loop_net_size [OF r] e show ?thesis by (auto split: if_splits)
qed

lemma io_ReadFull_returns:
  "dl \<noteq> None \<or> stream_ends q \<Longrightarrow> \<exists>r. io_ReadFull dl n now q = Some r"
  using read_loop_net_returns [of dl q n now] by (auto simp: io_ReadFull_def)

text \<open>A read with a deadline never outlasts it.\<close>

lemma conn_Read_bound:
  "conn_Read (Some D) n now q = Some (b, e, now', q') \<Longrightarrow> now' \<le> max now D"
  by (induction "Some D" n now q rule: conn_Read.induct)
    (auto simp: give_up_def late_def split: if_splits net_event.splits)

lemma read_loop_net_bound:
  "read_loop_net (Some D) n now q = Some (bs, e, now', q') \<Longrightarrow> now' \<le> max now D"
proof (induction n arbitrary: bs now q rule: less_induct)
  case (less n)
  show ?case
  proof (cases "n = 0")
    case True
    with less(2) show ?thesis by (simp add: read_loop_net.simps)
  next
    case False
    with less(2) obtain b e1 now1 q1 where r: "conn_Read (Some D) n now q = Some (b, e1, now1, q1)"
      by (auto simp: read_loop_net.simps split: option.splits)
    note now1 = conn_Read_bound [OF r]
    show ?thesis
    proof (cases e1)
      case (Some x)
      with less(2) r False now1 show ?thesis by (simp add: read_loop_net.simps)
    next
      case None
      with conn_Read_progress [of "Some D" n now q] r False have "n - length b < n" by fastforce
      moreover from less(2) r False None obtain bs' where
        "read_loop_net (Some D) (n - length b) now1 q1 = Some (bs', e, now', q')"
        by (auto simp: read_loop_net.simps [of _ n] bind_eq_Some_conv)
      ultimately have "now' \<le> max now1 D" by (rule less(1))
      with now1 show ?thesis by linarith
    qed
  qed
qed

lemma io_ReadFull_bound:
  "io_ReadFull (Some D) n now q = Some (bs, e, now', q') \<Longrightarrow> now' \<le> max now D"
  by (auto simp: io_ReadFull_def bind_eq_Some_conv dest: read_loop_net_bound)

text \<open>Reading only takes events away: what is left had come by the same moment.\<close>

definition upto_time :: "int \<Rightarrow> inbox \<Rightarrow> bool" where
  "upto_time T q \<longleftrightarrow> list_all (\<lambda>(t, ev). t \<le> T \<and> (\<exists>bs. ev = Chunk bs)) q"

lemma upto_time_simps [simp]:
  "upto_time T []" "upto_time T ((t, ev) # q) \<longleftrightarrow> t \<le> T \<and> (\<exists>bs. ev = Chunk bs) \<and> upto_time T q"
  "upto_time T (q @ r) \<longleftrightarrow> upto_time T q \<and> upto_time T r"
  by (simp_all add: upto_time_def)

lemma arrived_append: "upto_time T q \<Longrightarrow> arrived T (q @ r) = arrived T q @ arrived T r"
  by (induction q) auto

lemma conn_Read_upto:
  "conn_Read dl n now q = Some (b, e, now', q') \<Longrightarrow> upto_time T q \<Longrightarrow> upto_time T q'"
  by (induction dl n now q rule: conn_Read.induct) (auto split: if_splits)

lemma read_loop_net_upto:
  "read_loop_net dl n now q = Some (bs, e, now', q') \<Longrightarrow> upto_time T q \<Longrightarrow> upto_time T q'"
proof (induction n arbitrary: bs now q rule: less_induct)
  case (less n)
  show ?case
  proof (cases "n = 0")
    case True
    with less(2,3) show ?thesis by (simp add: read_loop_net.simps)
  next
    case False
    with less(2) obtain b e1 now1 q1 where r: "conn_Read dl n now q = Some (b, e1, now1, q1)"
      by (auto simp: read_loop_net.simps split: option.splits)
    note q1 = conn_Read_upto [OF r less(3)]
    show ?thesis
    proof (cases e1)
      case (Some x)
      with less(2) r False q1 show ?thesis by (simp add: read_loop_net.simps)
    next
      case None
      with conn_Read_progress [of dl n now q] r False have "n - length b < n" by fastforce
      moreover from less(2) r False None obtain bs' where
        "read_loop_net dl (n - length b) now1 q1 = Some (bs', e, now', q')"
        by (auto simp: read_loop_net.simps [of _ n] bind_eq_Some_conv)
      ultimately show ?thesis using less(1) q1 by blast
    qed
  qed
qed

lemma io_ReadFull_upto:
  "io_ReadFull dl n now q = Some (bs, e, now', q') \<Longrightarrow> upto_time T q \<Longrightarrow> upto_time T q'"
  by (auto simp: io_ReadFull_def bind_eq_Some_conv dest: read_loop_net_upto)

end
