(* ===== verification/Go_Strings.thy ===== *)
theory Go_Strings
  imports Go_Prelude
begin

text \<open>
  What the code uses of packages \<open>strings\<close>, \<open>strconv\<close> and \<open>net\<close> on strings: decimal
  numbers, joining and splitting, trimming, replacing once, case folding. A string is its
  sequence of bytes, one \<open>char\<close> each, as in Go.

  \<open>EqualFold\<close> folds the ASCII letters and the two runes outside ASCII that fold to one of
  them (the Kelvin sign and the long s), so it is exact whenever one of the two strings is
  ASCII; further runes are compared as they are.
\<close>

abbreviation code :: "char \<Rightarrow> nat" where "code c \<equiv> of_char c"

subsection \<open>Decimal numbers\<close>

fun digits :: "nat \<Rightarrow> string" where
  "digits n = (if n < 10 then [char_of (48 + n)] else digits (n div 10) @ [char_of (48 + n mod 10)])"

declare digits.simps [simp del]

definition Itoa :: "int \<Rightarrow> string" where
  "Itoa i = (if i < 0 then ''-'' @ digits (nat (- i)) else digits (nat i))"

definition is_digit :: "char \<Rightarrow> bool" where
  "is_digit c \<longleftrightarrow> 48 \<le> code c \<and> code c \<le> 57"

definition digit_val :: "char \<Rightarrow> nat" where
  "digit_val c = code c - 48"

definition parse_digits :: "string \<Rightarrow> nat" where
  "parse_digits s = foldl (\<lambda>n c. 10 * n + digit_val c) 0 s"

text \<open>
  \<open>strconv.Atoi\<close>: an optional sign, at least one digit and nothing else, and a value in the
  range of the 64 bit \<open>int\<close>. \<open>None\<close> is an error.
\<close>

definition Atoi :: "string \<Rightarrow> int option" where
  "Atoi s = (let (neg, ds) = (case s of
        c # cs \<Rightarrow> (if c = CHR ''-'' then (True, cs) else if c = CHR ''+'' then (False, cs) else (False, s))
      | [] \<Rightarrow> (False, s));
      v = (if neg then - int (parse_digits ds) else int (parse_digits ds))
    in if ds \<noteq> [] \<and> list_all is_digit ds \<and> - (2 ^ 63) \<le> v \<and> v < 2 ^ 63 then Some v else None)"

lemma is_digit_char: "n < (10 :: nat) \<Longrightarrow> is_digit (char_of (48 + n))"
  by (simp add: is_digit_def)

lemma digits_nonempty [simp]: "digits n \<noteq> []"
  by (subst digits.simps) simp

lemma digits_all: "list_all is_digit (digits n)"
proof (induction n rule: digits.induct)
  case (1 n)
  then show ?case
    by (subst digits.simps) (auto simp: is_digit_char)
qed

lemma parse_digits_digits [simp]: "parse_digits (digits n) = n"
proof (induction n rule: digits.induct)
  case (1 n)
  show ?case
  proof (cases "n < 10")
    case True
    then show ?thesis by (subst digits.simps) (simp add: parse_digits_def digit_val_def)
  next
    case False
    with 1 have "parse_digits (digits (n div 10)) = n div 10" by simp
    with False show ?thesis
      by (subst digits.simps) (simp add: parse_digits_def digit_val_def)
  qed
qed

lemma digits_inject [simp]: "digits m = digits n \<longleftrightarrow> m = n"
  by (metis parse_digits_digits)

lemma digits_hd: "is_digit (hd (digits n))"
  using digits_all [of n] digits_nonempty [of n] by (cases "digits n") (auto simp del: digits_nonempty)

lemma not_digit: "\<not> is_digit CHR ''-''" "\<not> is_digit CHR ''+''" "\<not> is_digit CHR ''.''"
  by (simp_all add: is_digit_def)

lemma Itoa_inject [simp]: "Itoa i = Itoa j \<longleftrightarrow> i = j"
proof -
  have "digits n \<noteq> CHR ''-'' # s" for n s
    using digits_hd [of n] not_digit(1) by auto
  then show ?thesis by (auto simp: Itoa_def dest: sym)
qed

lemma Atoi_Itoa:
  assumes "- (2 ^ 63) \<le> i" and "i < 2 ^ 63"
  shows "Atoi (Itoa i) = Some i"
proof -
  have hd: "hd (digits n) \<noteq> CHR ''-''" "hd (digits n) \<noteq> CHR ''+''" for n
    using digits_hd [of n] not_digit by auto
  show ?thesis
  proof (cases "i < 0")
    case True
    with assms digits_all show ?thesis by (simp add: Atoi_def Itoa_def)
  next
    case False
    obtain c cs where ds: "digits (nat i) = c # cs" using digits_nonempty by (cases "digits (nat i)") auto
    with hd [of "nat i"] have "c \<noteq> CHR ''-''" "c \<noteq> CHR ''+''" by simp_all
    moreover from ds have "parse_digits (c # cs) = nat i" by (metis parse_digits_digits)
    moreover from ds have "list_all is_digit (c # cs)" by (metis digits_all)
    ultimately show ?thesis
      using False assms by (simp add: Atoi_def Itoa_def ds)
  qed
qed

subsection \<open>Joining and splitting\<close>

fun Join :: "string list \<Rightarrow> string \<Rightarrow> string" where
  "Join [] sep = ''''"
| "Join [s] sep = s"
| "Join (s # t # ss) sep = s @ sep @ Join (t # ss) sep"

text \<open>\<open>strings.Split\<close> at every occurrence of a one-byte separator: always at least one part.\<close>

fun Split :: "string \<Rightarrow> char \<Rightarrow> string list" where
  "Split [] sep = [[]]"
| "Split (c # s) sep = (case Split s sep of
     [] \<Rightarrow> []
   | p # ps \<Rightarrow> if c = sep then [] # p # ps else (c # p) # ps)"

lemma Split_nonempty [simp]: "Split s sep \<noteq> []"
  by (induction s) (auto split: list.splits)

lemma Split_single: "sep \<notin> set s \<Longrightarrow> Split s sep = [s]"
  by (induction s) auto

lemma Split_append: "sep \<notin> set s \<Longrightarrow> Split (s @ sep # t) sep = s # Split t sep"
proof (induction s)
  case Nil
  obtain p ps where "Split t sep = p # ps" by (cases "Split t sep") auto
  then show ?case by simp
qed auto

lemma Split_Join:
  "ss \<noteq> [] \<Longrightarrow> \<forall>s \<in> set ss. sep \<notin> set s \<Longrightarrow> Split (Join ss [sep]) sep = ss"
  by (induction ss "[sep]" rule: Join.induct) (auto simp: Split_single Split_append)

lemma Join_eq_Nil: "[] \<notin> set ss \<Longrightarrow> Join ss sep = [] \<longleftrightarrow> ss = []"
  by (induction ss sep rule: Join.induct) auto

subsection \<open>Trimming and replacing\<close>

text \<open>The encodings of the white space runes of \<open>strings.TrimSpace\<close>.\<close>

definition whites :: "nat list list" where
  "whites = [[9], [10], [11], [12], [13], [32], [194, 133], [194, 160], [225, 154, 128]]
     @ map (\<lambda>i. [226, 128, i]) ([128..<139] @ [168, 169, 175]) @ [[226, 129, 159], [227, 128, 128]]"

definition starts_with :: "nat list \<Rightarrow> string \<Rightarrow> bool" where
  "starts_with w s \<longleftrightarrow> map code (take (length w) s) = w"

fun strip_front :: "nat \<Rightarrow> nat list list \<Rightarrow> string \<Rightarrow> string" where
  "strip_front 0 ws s = s"
| "strip_front (Suc n) ws s = (case List.find (\<lambda>w. starts_with w s) ws of
     None \<Rightarrow> s | Some w \<Rightarrow> strip_front n ws (drop (length w) s))"

text \<open>Each round removes at least one byte, so as many rounds as there are bytes are enough.\<close>

definition TrimSpace :: "string \<Rightarrow> string" where
  "TrimSpace s = (let s = strip_front (length s) whites s in
     rev (strip_front (length s) (map rev whites) (rev s)))"

lemma strip_front_id:
  "List.find (\<lambda>w. starts_with w s) ws = None \<Longrightarrow> strip_front n ws s = s"
  by (cases n) simp_all

text \<open>A string that starts and ends with visible ASCII: nothing is trimmed from it.\<close>

definition visible :: "char \<Rightarrow> bool" where
  "visible c \<longleftrightarrow> 32 < code c \<and> code c < 127"

definition trimmed :: "string \<Rightarrow> bool" where
  "trimmed s \<longleftrightarrow> (s = [] \<or> visible (hd s) \<and> visible (last s))"

lemma starts_with_hd: "starts_with (x # w) s \<Longrightarrow> s \<noteq> [] \<and> code (hd s) = x"
  by (cases s) (auto simp: starts_with_def)

lemma find_white:
  assumes "s = [] \<or> visible (hd s)"
  shows "List.find (\<lambda>w. starts_with w s) whites = None"
    and "List.find (\<lambda>w. starts_with w s) (map rev whites) = None"
proof -
  have hd: "\<forall>w \<in> set ws. \<not> starts_with w s" if "list_all (\<lambda>w. w \<noteq> [] \<and> (hd w \<le> 32 \<or> 127 \<le> hd w)) ws" for ws
  proof
    fix w assume "w \<in> set ws"
    with that obtain x u where w: "w = x # u" "x \<le> 32 \<or> 127 \<le> x"
      by (cases w) (auto simp: list_all_iff)
    show "\<not> starts_with w s"
      using assms w starts_with_hd [of x u s] by (auto simp: visible_def)
  qed
  have "list_all (\<lambda>w. w \<noteq> [] \<and> (hd w \<le> 32 \<or> 127 \<le> hd w)) whites"
    "list_all (\<lambda>w. w \<noteq> [] \<and> (hd w \<le> 32 \<or> 127 \<le> hd w)) (map rev whites)"
    by code_simp+
  from this [THEN hd] show "List.find (\<lambda>w. starts_with w s) whites = None"
    "List.find (\<lambda>w. starts_with w s) (map rev whites) = None"
    by (auto simp: find_None_iff)
qed

lemma TrimSpace_trimmed: "trimmed s \<Longrightarrow> TrimSpace s = s"
  by (auto simp: TrimSpace_def trimmed_def strip_front_id find_white hd_rev)

lemma TrimSpace_blank:
  assumes "trimmed s"
  shows "TrimSpace (CHR '' '' # s) = s"
proof -
  have "List.find (\<lambda>w. starts_with w (CHR '' '' # s)) whites = Some [32]"
    by (simp add: whites_def starts_with_def)
  then have "strip_front (length (CHR '' '' # s)) whites (CHR '' '' # s) = s"
    using assms by (auto simp: strip_front_id find_white trimmed_def)
  then show ?thesis
    using assms by (auto simp: TrimSpace_def strip_front_id find_white trimmed_def hd_rev)
qed

lemma trimmed_append: "trimmed s \<Longrightarrow> trimmed t \<Longrightarrow> s \<noteq> [] \<Longrightarrow> t \<noteq> [] \<Longrightarrow> trimmed (s @ u @ t)"
  by (simp add: trimmed_def)

lemma digit_visible: "is_digit c \<Longrightarrow> visible c"
  by (simp add: is_digit_def visible_def)

lemma digits_set: "c \<in> set (digits n) \<Longrightarrow> is_digit c"
  using digits_all [of n] by (simp add: list_all_iff)

lemma Itoa_set: "c \<in> set (Itoa i) \<Longrightarrow> is_digit c \<or> c = CHR ''-''"
  using digits_set by (auto simp: Itoa_def split: if_splits)

lemma Itoa_nonempty [simp]: "Itoa i \<noteq> []"
  by (simp add: Itoa_def)

lemma Itoa_trimmed: "trimmed (Itoa i)"
proof -
  have "visible c" if "c \<in> set (Itoa i)" for c
    using Itoa_set [OF that] by (auto simp: digit_visible) (simp add: visible_def)
  then show ?thesis by (simp add: trimmed_def)
qed

lemma Itoa_no_sep: "\<not> is_digit c \<Longrightarrow> c \<noteq> CHR ''-'' \<Longrightarrow> c \<notin> set (Itoa i)"
  using Itoa_set by blast

text \<open>\<open>strings.Replace(s, old, new, 1)\<close> for a non-empty \<open>old\<close>.\<close>

fun Replace1 :: "string \<Rightarrow> string \<Rightarrow> string \<Rightarrow> string" where
  "Replace1 [] old new = []"
| "Replace1 (c # s) old new =
     (if take (length old) (c # s) = old then new @ drop (length old) (c # s)
      else c # Replace1 s old new)"

definition ToLower :: "string \<Rightarrow> string" where
  "ToLower s = map (\<lambda>c. if 65 \<le> code c \<and> code c \<le> 90 then char_of (code c + 32) else c) s"

subsection \<open>Case folding\<close>

fun fold_codes :: "nat list \<Rightarrow> nat list" where
  "fold_codes [] = []"
| "fold_codes (x # xs) =
     (if 65 \<le> x \<and> x \<le> 90 then (x + 32) # fold_codes xs
      else if x = 197 \<and> take 1 xs = [191] then 115 # fold_codes (drop 1 xs)
      else if x = 226 \<and> take 2 xs = [132, 170] then 107 # fold_codes (drop 2 xs)
      else x # fold_codes xs)"

definition EqualFold :: "string \<Rightarrow> string \<Rightarrow> bool" where
  "EqualFold s t \<longleftrightarrow> fold_codes (map code s) = fold_codes (map code t)"

lemma EqualFold_refl [simp]: "EqualFold s s"
  by (simp add: EqualFold_def)

lemma EqualFold_sym: "EqualFold s t \<Longrightarrow> EqualFold t s"
  by (simp add: EqualFold_def)

lemma EqualFold_trans: "EqualFold s t \<Longrightarrow> EqualFold t u \<Longrightarrow> EqualFold s u"
  by (simp add: EqualFold_def)

lemma EqualFold_Nil: "EqualFold s [] \<longleftrightarrow> s = []"
  by (cases s) (auto simp: EqualFold_def)

text \<open>\<open>net.JoinHostPort\<close>: brackets around a host with a colon.\<close>

definition JoinHostPort :: "string \<Rightarrow> string \<Rightarrow> string" where
  "JoinHostPort host port =
     (if CHR '':'' \<in> set host then ''['' @ host @ '']:'' @ port else host @ '':'' @ port)"

end
