(* ===== verification/Protocol.thy ===== *)
theory Protocol
  imports Packet Network Go_Strings
begin

text \<open>
  The connection (\<open>protocol.go\<close>): the client's state, its options, the version ladder, and
  receiving packets. The record \<open>Protocol\<close> has the fields of the Go struct; \<open>rt_buffer\<close> is
  the whole backing array of the receive buffer (every slice of it the code takes has
  explicit bounds, which Go checks against the capacity). Two fields are not the
  program's: the clock, and the number of sockets that are open.

  Every operation takes and returns the state. A result \<open>None\<close> is an operation that does
  not return: a panic, or a read that blocks for ever (theory \<open>Network\<close>).
\<close>

subsection \<open>State\<close>

record udp_conn =
  ud_inbox :: "(int \<times> (err + bytes)) list"
  ud_deadline :: "int option"
  ud_deadline_err :: "err option"
  ud_port :: "int option"

record Protocol =
  rt_conn :: "conn option"
  rt_udpConn :: "udp_conn option"
  rt_buffer :: bytes
  rt_udpBuffer :: "bytes option"
  rt_ip :: string
  rt_basePort :: int
  rt_majorVersion :: int
  rt_minorVersion :: int
  rt_wantMajor :: int
  rt_wantMinor :: int
  rt_negotiateVersion :: bool
  rt_bigEndian :: bool
  rt_order :: byte_order
  rt_readTimeout :: int
  rt_connectTimeout :: int
  rt_maxPacketSize :: int
  rt_lastEvent :: u8
  rt_state :: u8
  rt_now :: int
  rt_sockets :: nat

abbreviation DefaultMajorVersion :: int where "DefaultMajorVersion \<equiv> 1"
abbreviation DefaultMinorVersion :: int where "DefaultMinorVersion \<equiv> 28"
abbreviation MinSupportedMinorVersion :: int where "MinSupportedMinorVersion \<equiv> 22"

abbreviation DefaultBasePort :: int where "DefaultBasePort \<equiv> 22222"

abbreviation Second :: int where "Second \<equiv> 1000000000"
abbreviation DefaultReadTimeout :: int where "DefaultReadTimeout \<equiv> Second"
abbreviation DefaultConnectTimeout :: int where "DefaultConnectTimeout \<equiv> 5 * Second"
abbreviation DefaultCommandTimeout :: int where "DefaultCommandTimeout \<equiv> 5 * Second"
abbreviation DefaultCalibrationTimeout :: int where "DefaultCalibrationTimeout \<equiv> 600 * Second"
abbreviation DefaultFileTimeout :: int where "DefaultFileTimeout \<equiv> 30 * Second"
abbreviation DefaultMaxPacketSize :: int where "DefaultMaxPacketSize \<equiv> 536870912"

subsection \<open>Options\<close>

definition WithVersion :: "int \<Rightarrow> int \<Rightarrow> Protocol \<Rightarrow> Protocol" where
  "WithVersion major minor rt = rt\<lparr>rt_wantMajor := major, rt_wantMinor := minor\<rparr>"

definition WithoutVersionNegotiation :: "Protocol \<Rightarrow> Protocol" where
  "WithoutVersionNegotiation rt = rt\<lparr>rt_negotiateVersion := False\<rparr>"

definition WithBigEndian :: "Protocol \<Rightarrow> Protocol" where
  "WithBigEndian rt = rt\<lparr>rt_bigEndian := True, rt_order := BigEndian\<rparr>"

definition WithReadTimeout :: "int \<Rightarrow> Protocol \<Rightarrow> Protocol" where
  "WithReadTimeout d rt = rt\<lparr>rt_readTimeout := d\<rparr>"

definition WithConnectTimeout :: "int \<Rightarrow> Protocol \<Rightarrow> Protocol" where
  "WithConnectTimeout d rt = rt\<lparr>rt_connectTimeout := d\<rparr>"

definition WithMaxPacketSize :: "int \<Rightarrow> Protocol \<Rightarrow> Protocol" where
  "WithMaxPacketSize n rt = rt\<lparr>rt_maxPacketSize := n\<rparr>"

definition NewProtocol :: "string \<Rightarrow> int \<Rightarrow> (Protocol \<Rightarrow> Protocol) list \<Rightarrow> Protocol" where
  "NewProtocol ip basePort opts = foldl (\<lambda>rt opt. opt rt)
     \<lparr>rt_conn = None, rt_udpConn = None, rt_buffer = replicate 4096 0, rt_udpBuffer = None,
      rt_ip = ip, rt_basePort = basePort, rt_majorVersion = 0, rt_minorVersion = 0,
      rt_wantMajor = DefaultMajorVersion, rt_wantMinor = DefaultMinorVersion,
      rt_negotiateVersion = True, rt_bigEndian = False, rt_order = LittleEndian,
      rt_readTimeout = DefaultReadTimeout, rt_connectTimeout = DefaultConnectTimeout,
      rt_maxPacketSize = DefaultMaxPacketSize, rt_lastEvent = EventTypeNone, rt_state = EventTypeNone,
      rt_now = 0, rt_sockets = 0\<rparr> opts"

definition port :: "Protocol \<Rightarrow> int" where
  "port rt = (if rt_bigEndian rt then rt_basePort rt + 2 else rt_basePort rt + 1)"

definition IsConnected :: "Protocol \<Rightarrow> bool" where
  "IsConnected rt \<longleftrightarrow> rt_conn rt \<noteq> None"

definition Version :: "Protocol \<Rightarrow> int \<times> int" where
  "Version rt = (rt_majorVersion rt, rt_minorVersion rt)"

text \<open>The address of the connection is the socket's, a parameter.\<close>

definition LocalAddr :: "(conn \<Rightarrow> 'addr) \<Rightarrow> Protocol \<Rightarrow> 'addr option" where
  "LocalAddr addr rt = (case rt_conn rt of None \<Rightarrow> None | Some c \<Rightarrow> Some (addr c))"

definition ParametersElementName :: "Protocol \<Rightarrow> string" where
  "ParametersElementName rt =
     ''QTM_Parameters_Ver_'' @ Itoa (rt_majorVersion rt) @ ''.'' @ Itoa (rt_minorVersion rt)"

definition State :: "Protocol \<Rightarrow> u8" where
  "State rt = rt_state rt"

text \<open>\<open>Close\<close> on a socket: it is gone.\<close>

definition Disconnect :: "Protocol \<Rightarrow> Protocol" where
  "Disconnect rt =
     (let rt = (if rt_udpConn rt \<noteq> None then rt\<lparr>rt_udpConn := None, rt_sockets := rt_sockets rt - 1\<rparr> else rt)
      in if rt_conn rt = None then rt
         else rt\<lparr>rt_conn := None, rt_sockets := rt_sockets rt - 1,
           rt_majorVersion := 0, rt_minorVersion := 0\<rparr>)"

subsection \<open>The version ladder\<close>

definition versionCandidates :: "Protocol \<Rightarrow> (int \<times> int) list" where
  "versionCandidates rt =
     (rt_wantMajor rt, rt_wantMinor rt) #
     (if \<not> rt_negotiateVersion rt then []
      else map (\<lambda>minor. (DefaultMajorVersion, minor))
        (filter (\<lambda>minor. \<not> (rt_wantMajor rt = DefaultMajorVersion \<and> minor \<ge> rt_wantMinor rt))
          (rev [MinSupportedMinorVersion..DefaultMinorVersion])))"

subsection \<open>Receiving\<close>

abbreviation none_Packet :: Packet where "none_Packet \<equiv> zero_Packet\<lparr>pk_Type := PacketTypeNone\<rparr>"

definition setReadDeadline :: "int \<Rightarrow> Protocol \<Rightarrow> (err option \<times> Protocol) option" where
  "setReadDeadline d rt = (case rt_conn rt of
       None \<Rightarrow> None
     | Some c \<Rightarrow> (case conn_SetReadDeadline (if d \<le> 0 then None else Some (rt_now rt + d)) c of
         (e, c) \<Rightarrow> Some (e, rt\<lparr>rt_conn := Some c\<rparr>)))"

text \<open>\<open>io.ReadFull(rt.conn, rt.buffer[a:b])\<close>: what is read overwrites the buffer from \<open>a\<close> on.\<close>

definition read_buffer :: "nat \<Rightarrow> nat \<Rightarrow> Protocol \<Rightarrow> (err option \<times> Protocol) option" where
  "read_buffer a b rt = (case rt_conn rt of
       None \<Rightarrow> None
     | Some c \<Rightarrow>
         if \<not> (a \<le> b \<and> b \<le> length (rt_buffer rt)) then None
         else do {
           (bs, e, now, q) \<leftarrow> io_ReadFull (cn_deadline c) (b - a) (rt_now rt) (cn_inbox c);
           Some (e, rt\<lparr>rt_conn := Some (c\<lparr>cn_inbox := q\<rparr>), rt_now := now,
             rt_buffer := take a (rt_buffer rt) @ bs @ drop (a + length bs) (rt_buffer rt)\<rparr>)
         })"

definition note_event :: "Packet \<Rightarrow> Protocol \<Rightarrow> Protocol" where
  "note_event p rt =
     (if pk_Type p = PacketTypeEvent then
        let rt = rt\<lparr>rt_lastEvent := pk_Event p\<rparr> in
        if pk_Event p \<noteq> EventTypeCameraSettingsChanged then rt\<lparr>rt_state := pk_Event p\<rparr> else rt
      else rt)"

text \<open>\<open>ReceiveTimeout\<close> from the reading of the body on, for a packet of \<open>sz\<close> bytes.\<close>

definition receive_body :: "nat \<Rightarrow> Protocol \<Rightarrow> ((Packet \<times> err option) \<times> Protocol) option" where
  "receive_body sz rt = do {
     let rt = (if length (rt_buffer rt) < sz then rt\<lparr>rt_buffer := replicate sz 0\<rparr> else rt);
     (e, rt) \<leftarrow> setReadDeadline (rt_readTimeout rt) rt;
     case e of
       Some e \<Rightarrow> Some ((none_Packet, Some (Errorf ''receive: set deadline: %w'' [AWrap e])), rt)
     | None \<Rightarrow> do {
         (e, rt) \<leftarrow> read_buffer packetHeaderSize sz rt;
         case e of
           Some e \<Rightarrow>
             if isTimeout e \<or> errors_Is e IoUnexpectedEOF \<or> errors_Is e IoEOF then
               Some ((none_Packet, Some (Errorf ''receive: %w: expected %d bytes: %v''
                 [AWrap ErrTruncated, AInt (int sz), AErr e])), rt)
             else Some ((none_Packet, Some (Errorf ''receive: read body: %w'' [AWrap e])), rt)
         | None \<Rightarrow> do {
             data \<leftarrow> slice (rt_buffer rt) 0 sz;
             (e, p) \<leftarrow> Packet_UnmarshalBinary (zero_Packet\<lparr>pk_order := Some (rt_order rt)\<rparr>) data;
             case e of
               Some e \<Rightarrow> Some ((none_Packet, Some (Errorf ''receive: unmarshal: %w'' [AWrap e])), rt)
             | None \<Rightarrow>
                 let rt = note_event p rt in
                 if pk_Type p = PacketTypeError then
                   Some ((p, Some (Errorf ''receive: error packet returned (%s)''
                     [AStr (pk_ErrorResponse p)])), rt)
                 else Some ((p, None), rt)
           }
       }
   }"

definition ReceiveTimeout :: "int \<Rightarrow> Protocol \<Rightarrow> ((Packet \<times> err option) \<times> Protocol) option" where
  "ReceiveTimeout d rt =
     (if \<not> IsConnected rt then Some ((none_Packet, Some ErrNotConnected), rt)
      else do {
        (e, rt) \<leftarrow> setReadDeadline d rt;
        case e of
          Some e \<Rightarrow> Some ((none_Packet, Some (Errorf ''receive: set deadline: %w'' [AWrap e])), rt)
        | None \<Rightarrow> do {
            (e, rt) \<leftarrow> read_buffer 0 packetHeaderSize rt;
            case e of
              Some e \<Rightarrow>
                if isTimeout e then Some ((zero_Packet\<lparr>pk_Type := PacketTypeNoMoreData\<rparr>, None), rt)
                else if errors_Is e IoEOF then
                  Some ((none_Packet, Some (Errorf ''receive: connection closed: %w'' [AWrap e])), rt)
                else Some ((none_Packet, Some (Errorf ''receive: read header: %w'' [AWrap e])), rt)
            | None \<Rightarrow> do {
                b \<leftarrow> slice (rt_buffer rt) 0 4;
                sz \<leftarrow> Uint32 (rt_order rt) b;
                b \<leftarrow> slice (rt_buffer rt) 4 8;
                ptype \<leftarrow> Uint32 (rt_order rt) b;
                if unat sz < packetHeaderSize then
                  Some ((none_Packet, Some (Errorf ''receive: invalid packet size %d'' [AInt (uint sz)])), rt)
                else if uint sz > rt_maxPacketSize rt then
                  Some ((none_Packet, Some (Errorf ''receive: packet size %d exceeds limit %d''
                    [AInt (uint sz), AInt (rt_maxPacketSize rt)])), rt)
                else if unat sz = packetHeaderSize then
                  Some ((zero_Packet\<lparr>pk_Size := uint sz, pk_Type := ptype,
                    pk_order := Some (rt_order rt)\<rparr>, None), rt)
                else receive_body (unat sz) rt
              }
          }
      })"

definition Receive :: "Protocol \<Rightarrow> ((Packet \<times> err option) \<times> Protocol) option" where
  "Receive rt = ReceiveTimeout (rt_readTimeout rt) rt"


subsection \<open>Every successful receive makes progress\<close>

definition pending :: "Protocol \<Rightarrow> nat" where
  "pending rt = (case rt_conn rt of None \<Rightarrow> 0 | Some c \<Rightarrow> inbox_size (cn_inbox c))"

definition deadline_of :: "Protocol \<Rightarrow> int option" where
  "deadline_of rt = (case rt_conn rt of None \<Rightarrow> None | Some c \<Rightarrow> cn_deadline c)"

lemma setReadDeadline_Some:
  assumes "setReadDeadline d rt = Some (e, rt')"
  shows "pending rt' = pending rt \<and> rt_now rt' = rt_now rt
    \<and> rt_conn rt' \<noteq> None \<and> rt_buffer rt' = rt_buffer rt
    \<and> (e = None \<longrightarrow> deadline_of rt' = (if d \<le> 0 then None else Some (rt_now rt + d)))"
  using assms
  by (auto simp: setReadDeadline_def conn_SetReadDeadline_def pending_def deadline_of_def
      split: option.splits prod.splits)

lemma read_buffer_Some:
  assumes "read_buffer a b rt = Some (e, rt')"
  shows "pending rt' \<le> pending rt \<and> rt_now rt \<le> rt_now rt' \<and> rt_conn rt' \<noteq> None
    \<and> deadline_of rt' = deadline_of rt \<and> length (rt_buffer rt') = length (rt_buffer rt)
    \<and> (e = None \<longrightarrow> pending rt' + (b - a) \<le> pending rt)
    \<and> (\<forall>x. e = Some x \<longrightarrow> isTimeout x \<longrightarrow> pending rt' < pending rt \<or> late (deadline_of rt) (rt_now rt'))"
proof -
  from assms obtain c bs now q where c: "rt_conn rt = Some c" and ab: "a \<le> b" "b \<le> length (rt_buffer rt)"
    and io: "io_ReadFull (cn_deadline c) (b - a) (rt_now rt) (cn_inbox c) = Some (bs, e, now, q)"
    and rt': "rt' = rt\<lparr>rt_conn := Some (c\<lparr>cn_inbox := q\<rparr>), rt_now := now,
         rt_buffer := take a (rt_buffer rt) @ bs @ drop (a + length bs) (rt_buffer rt)\<rparr>"
    by (auto simp: read_buffer_def bind_eq_Some_conv split: option.splits if_splits)
  from io_ReadFull_size [OF io] ab show ?thesis
    by (auto simp: rt' c pending_def deadline_of_def)
qed

lemma note_event_simps [simp]:
  "pending (note_event p rt) = pending rt" "rt_now (note_event p rt) = rt_now rt"
  "rt_conn (note_event p rt) = rt_conn rt" "rt_buffer (note_event p rt) = rt_buffer rt"
  "rt_order (note_event p rt) = rt_order rt" "rt_sockets (note_event p rt) = rt_sockets rt"
  "rt_udpConn (note_event p rt) = rt_udpConn rt"
  by (simp_all add: note_event_def pending_def Let_def)

lemma receive_body_Some:
  assumes "receive_body sz rt = Some ((p, e), rt')"
  shows "pending rt' \<le> pending rt \<and> rt_now rt \<le> rt_now rt' \<and> rt_conn rt' \<noteq> None"
proof -
  define rt0 where "rt0 = (if length (rt_buffer rt) < sz then rt\<lparr>rt_buffer := replicate sz 0\<rparr> else rt)"
  have rt0: "pending rt0 = pending rt" "rt_now rt0 = rt_now rt"
    by (simp_all add: rt0_def pending_def)
  obtain e1 rt1 where d: "setReadDeadline (rt_readTimeout rt0) rt0 = Some (e1, rt1)"
    using assms by (auto simp: receive_body_def rt0_def [symmetric] Let_def bind_eq_Some_conv)
  note d' = setReadDeadline_Some [OF d]
  show ?thesis
  proof (cases e1)
    case (Some x)
    with assms d d' rt0 show ?thesis by (auto simp: receive_body_def rt0_def [symmetric] Let_def)
  next
    case None
    obtain e2 rt2 where r: "read_buffer packetHeaderSize sz rt1 = Some (e2, rt2)"
      using assms d None
      by (auto simp: receive_body_def rt0_def [symmetric] Let_def bind_eq_Some_conv)
    note r' = read_buffer_Some [OF r]
    have "rt' = rt2 \<or> (\<exists>p. rt' = note_event p rt2)"
      using assms d r None
      by (auto simp: receive_body_def rt0_def [symmetric] Let_def bind_eq_Some_conv
          split: option.splits if_splits prod.splits)
    with d' r' rt0 show ?thesis by auto
  qed
qed

lemma ReceiveTimeout_progress:
  assumes "ReceiveTimeout d rt = Some ((p, e), rt')"
  shows "pending rt' \<le> pending rt \<and> rt_now rt \<le> rt_now rt' \<and>
    (e = None \<longrightarrow> pending rt' < pending rt \<or> (0 < d \<and> rt_now rt + d \<le> rt_now rt'))"
proof (cases "IsConnected rt")
  case False
  with assms show ?thesis by (auto simp: ReceiveTimeout_def)
next
  case True
  with assms obtain e1 rt1 where d: "setReadDeadline d rt = Some (e1, rt1)"
    by (auto simp: ReceiveTimeout_def bind_eq_Some_conv)
  note d' = setReadDeadline_Some [OF d]
  show ?thesis
  proof (cases e1)
    case (Some x)
    with True assms d d' show ?thesis by (auto simp: ReceiveTimeout_def)
  next
    case None
    obtain e2 rt2 where r: "read_buffer 0 packetHeaderSize rt1 = Some (e2, rt2)"
      using True assms d None by (auto simp: ReceiveTimeout_def bind_eq_Some_conv)
    note r' = read_buffer_Some [OF r]
    show ?thesis
    proof (cases e2)
      case (Some x)
      with True assms d None r have "rt' = rt2" and "e = None \<longrightarrow> isTimeout x"
        by (auto simp: ReceiveTimeout_def split: if_splits)
      with d' r' Some None show ?thesis by (auto simp: late_def split: if_splits)
    next
      case none: None
      with r' have lt: "pending rt2 < pending rt1" by simp
      have "rt' = rt2 \<or> (\<exists>sz. receive_body sz rt2 = Some ((p, e), rt'))"
        using True assms d None r none
        by (auto simp: ReceiveTimeout_def bind_eq_Some_conv split: if_splits)
      with d' r' lt show ?thesis by (auto dest!: receive_body_Some)
    qed
  qed
qed

subsection \<open>Waiting for a packet\<close>

text \<open>
  The two loops around \<open>ReceiveTimeout\<close>. \<open>skip_events\<close> is the \<open>for\<close> of
  \<open>receiveSkippingEvents\<close>; \<open>poll\<close> is the loop that \<open>GetState\<close>, \<open>GetParameters\<close> and
  \<open>Calibrate\<close> share: until the deadline, receive a packet and see whether \<open>pick\<close> finds
  the answer in it. Both end, because a packet or an event leaves the inbox in every round
  or the deadline has come.
\<close>

function (sequential) skip_events :: "int \<Rightarrow> int \<Rightarrow> Protocol \<Rightarrow>
    ((Packet \<times> err option) \<times> Protocol) option" where
  "skip_events timeout deadline rt =
     (let wait = (if timeout > 0 then deadline - rt_now rt else 0) in
      if timeout > 0 \<and> wait \<le> 0 then Some ((none_Packet, Some ErrTimeout), rt)
      else case ReceiveTimeout wait rt of
        None \<Rightarrow> None
      | Some ((p, Some e), rt) \<Rightarrow> Some ((p, Some e), rt)
      | Some ((p, None), rt) \<Rightarrow>
          if pk_Type p = PacketTypeEvent then skip_events timeout deadline rt
          else if pk_Type p = PacketTypeNoMoreData then
            if timeout > 0 \<and> \<not> rt_now rt < deadline then Some ((p, Some ErrTimeout), rt)
            else skip_events timeout deadline rt
          else Some ((p, None), rt))"
  by pat_completeness auto

function (sequential) poll :: "int \<Rightarrow> (Packet \<Rightarrow> 'r option) \<Rightarrow> Protocol \<Rightarrow>
    (('r option \<times> err option) \<times> Protocol) option" where
  "poll deadline pick rt =
     (if rt_now rt < deadline then
        case ReceiveTimeout (deadline - rt_now rt) rt of
          None \<Rightarrow> None
        | Some ((p, Some e), rt) \<Rightarrow> Some ((None, Some e), rt)
        | Some ((p, None), rt) \<Rightarrow> (case pick p of
              Some r \<Rightarrow> Some ((Some r, None), rt)
            | None \<Rightarrow> poll deadline pick rt)
      else Some ((None, None), rt))"
  by pat_completeness auto

definition rounds :: "int \<Rightarrow> Protocol \<Rightarrow> nat" where
  "rounds deadline rt = pending rt + (if rt_now rt < deadline then 1 else 0)"

lemma rounds_decrease:
  assumes "ReceiveTimeout d rt = Some ((p, None), rt')"
    and "0 < d \<longrightarrow> d = deadline - rt_now rt"
  shows "rounds deadline rt' < rounds deadline rt"
  using ReceiveTimeout_progress [OF assms(1)] assms(2) by (auto simp: rounds_def)

termination skip_events
  by (relation "measure (\<lambda>(timeout, deadline, rt). rounds deadline rt)")
    (auto intro!: rounds_decrease split: if_splits)

termination poll
  by (relation "measure (\<lambda>(deadline, pick, rt). rounds deadline rt)")
    (auto intro!: rounds_decrease)

declare skip_events.simps [simp del] poll.simps [simp del]

definition receiveSkippingEvents :: "int \<Rightarrow> Protocol \<Rightarrow> ((Packet \<times> err option) \<times> Protocol) option" where
  "receiveSkippingEvents timeout rt = skip_events timeout (rt_now rt + timeout) rt"

subsection \<open>What a receive does to the state\<close>

text \<open>
  Receiving never opens or closes a socket, keeps the configuration and the buffer usable,
  and leaves the connection there. \<open>usable\<close> is the invariant of a connected client.
\<close>

definition same_config :: "Protocol \<Rightarrow> Protocol \<Rightarrow> bool" where
  "same_config rt rt' \<longleftrightarrow>
     rt_sockets rt' = rt_sockets rt \<and> rt_udpConn rt' = rt_udpConn rt \<and>
     rt_ip rt' = rt_ip rt \<and> rt_basePort rt' = rt_basePort rt \<and>
     rt_majorVersion rt' = rt_majorVersion rt \<and> rt_minorVersion rt' = rt_minorVersion rt \<and>
     rt_wantMajor rt' = rt_wantMajor rt \<and> rt_wantMinor rt' = rt_wantMinor rt \<and>
     rt_negotiateVersion rt' = rt_negotiateVersion rt \<and> rt_bigEndian rt' = rt_bigEndian rt \<and>
     rt_order rt' = rt_order rt \<and> rt_readTimeout rt' = rt_readTimeout rt \<and>
     rt_connectTimeout rt' = rt_connectTimeout rt \<and> rt_maxPacketSize rt' = rt_maxPacketSize rt \<and>
     (rt_conn rt' = None \<longleftrightarrow> rt_conn rt = None) \<and>
     length (rt_buffer rt) \<le> length (rt_buffer rt')"

lemma same_config_refl [simp]: "same_config rt rt"
  by (simp add: same_config_def)

lemma same_config_trans: "same_config rt rt' \<Longrightarrow> same_config rt' rt'' \<Longrightarrow> same_config rt rt''"
  by (simp add: same_config_def)

lemma same_config_note_event [simp]: "same_config rt (note_event p rt)"
  by (simp add: same_config_def note_event_def Let_def)

lemma same_config_grow [simp]:
  "same_config rt (if length (rt_buffer rt) < n then rt\<lparr>rt_buffer := replicate n 0\<rparr> else rt)"
  by (simp add: same_config_def)

lemma setReadDeadline_config: "setReadDeadline d rt = Some (e, rt') \<Longrightarrow> same_config rt rt'"
  by (auto simp: setReadDeadline_def same_config_def split: option.splits prod.splits)

lemma read_buffer_config: "read_buffer a b rt = Some (e, rt') \<Longrightarrow> same_config rt rt'"
  by (frule read_buffer_Some)
    (auto simp: read_buffer_def same_config_def bind_eq_Some_conv split: option.splits if_splits)

lemma receive_body_config:
  assumes "receive_body sz rt = Some (r, rt')"
  shows "same_config rt rt'"
proof -
  let ?rt0 = "if length (rt_buffer rt) < sz then rt\<lparr>rt_buffer := replicate sz 0\<rparr> else rt"
  have "same_config ?rt0 rt'"
    using assms unfolding receive_body_def Let_def
    by (auto simp: bind_eq_Some_conv
        dest!: setReadDeadline_config read_buffer_config intro: same_config_trans
        split: option.splits if_splits prod.splits)
  then show ?thesis by (rule same_config_trans [OF same_config_grow])
qed

lemma ReceiveTimeout_config:
  assumes "ReceiveTimeout d rt = Some (r, rt')"
  shows "same_config rt rt'"
  using assms unfolding ReceiveTimeout_def
  by (auto simp: bind_eq_Some_conv
      dest!: setReadDeadline_config read_buffer_config receive_body_config intro: same_config_trans
      split: option.splits if_splits)

text \<open>
  What holds of every run of a loop: the rules follow the rounds of the loop, so a client
  only says what one receive does.
\<close>

definition skip_wait :: "int \<Rightarrow> int \<Rightarrow> Protocol \<Rightarrow> int" where
  "skip_wait timeout deadline rt = (if timeout > 0 then deadline - rt_now rt else 0)"

lemma skip_wait_decreases:
  "ReceiveTimeout (skip_wait timeout deadline rt) rt = Some ((p, None), rt') \<Longrightarrow>
    rounds deadline rt' < rounds deadline rt"
  by (rule rounds_decrease) (auto simp: skip_wait_def)

lemma skip_events_eq:
  "skip_events timeout deadline rt =
     (if timeout > 0 \<and> skip_wait timeout deadline rt \<le> 0 then Some ((none_Packet, Some ErrTimeout), rt)
      else case ReceiveTimeout (skip_wait timeout deadline rt) rt of
        None \<Rightarrow> None
      | Some ((p, Some e), rt) \<Rightarrow> Some ((p, Some e), rt)
      | Some ((p, None), rt) \<Rightarrow>
          if pk_Type p = PacketTypeEvent then skip_events timeout deadline rt
          else if pk_Type p = PacketTypeNoMoreData then
            if timeout > 0 \<and> \<not> rt_now rt < deadline then Some ((p, Some ErrTimeout), rt)
            else skip_events timeout deadline rt
          else Some ((p, None), rt))"
  by (subst skip_events.simps) (simp add: Let_def skip_wait_def cong: if_cong)

lemma skip_events_induct [consumes 1, case_names expired received ended skipped]:
  assumes "skip_events timeout deadline rt = Some (r, rt')"
    and expired: "\<And>rt. 0 < timeout \<Longrightarrow> deadline \<le> rt_now rt \<Longrightarrow> P rt (none_Packet, Some ErrTimeout) rt"
    and received: "\<And>rt p e rt1. ReceiveTimeout (skip_wait timeout deadline rt) rt = Some ((p, e), rt1) \<Longrightarrow>
      (0 < timeout \<longrightarrow> 0 < skip_wait timeout deadline rt) \<Longrightarrow>
      e \<noteq> None \<or> (pk_Type p \<noteq> PacketTypeEvent \<and> pk_Type p \<noteq> PacketTypeNoMoreData) \<Longrightarrow> P rt (p, e) rt1"
    and ended: "\<And>rt p rt1. ReceiveTimeout (skip_wait timeout deadline rt) rt = Some ((p, None), rt1) \<Longrightarrow>
      (0 < timeout \<longrightarrow> 0 < skip_wait timeout deadline rt) \<Longrightarrow>
      0 < timeout \<Longrightarrow> deadline \<le> rt_now rt1 \<Longrightarrow> P rt (p, Some ErrTimeout) rt1"
    and skipped: "\<And>rt p rt1 r rt'. ReceiveTimeout (skip_wait timeout deadline rt) rt = Some ((p, None), rt1) \<Longrightarrow>
      (0 < timeout \<longrightarrow> 0 < skip_wait timeout deadline rt) \<Longrightarrow>
      pk_Type p = PacketTypeEvent \<or> pk_Type p = PacketTypeNoMoreData \<Longrightarrow> P rt1 r rt' \<Longrightarrow> P rt r rt'"
  shows "P rt r rt'"
  using assms(1)
proof (induction rt arbitrary: r rt' rule: measure_induct_rule [where f = "rounds deadline"])
  case (less rt)
  show ?case
  proof (cases "0 < timeout \<and> skip_wait timeout deadline rt \<le> 0")
    case True
    with less(2) expired [of rt] show ?thesis by (auto simp: skip_events_eq [of _ _ rt] skip_wait_def)
  next
    case False
    then have wait: "0 < timeout \<longrightarrow> 0 < skip_wait timeout deadline rt" by auto
    from False less(2) obtain p e rt1 where rcv: "ReceiveTimeout (skip_wait timeout deadline rt) rt = Some ((p, e), rt1)"
      by (auto simp: skip_events_eq [of _ _ rt] split: option.splits)
    have again: "P rt r rt'" if "e = None" "skip_events timeout deadline rt1 = Some (r, rt')"
      "pk_Type p = PacketTypeEvent \<or> pk_Type p = PacketTypeNoMoreData"
      using skipped [of rt p rt1 r rt', OF _ wait] less(1) [of rt1 r rt']
        skip_wait_decreases [of timeout deadline rt p rt1] rcv that by blast
    show ?thesis
      using less(2) False rcv again received [OF rcv wait] ended [of rt p rt1, OF _ wait]
      by (auto simp: skip_events_eq [of _ _ rt] split: option.splits if_splits)
  qed
qed

lemma poll_induct [consumes 1, case_names expired failed answered skipped]:
  assumes "poll deadline pick rt = Some (r, rt')"
    and expired: "\<And>rt. deadline \<le> rt_now rt \<Longrightarrow> P rt (None, None) rt"
    and failed: "\<And>rt p e rt1. ReceiveTimeout (deadline - rt_now rt) rt = Some ((p, Some e), rt1) \<Longrightarrow>
      P rt (None, Some e) rt1"
    and answered: "\<And>rt p a rt1. ReceiveTimeout (deadline - rt_now rt) rt = Some ((p, None), rt1) \<Longrightarrow>
      pick p = Some a \<Longrightarrow> P rt (Some a, None) rt1"
    and skipped: "\<And>rt p rt1 r rt'. ReceiveTimeout (deadline - rt_now rt) rt = Some ((p, None), rt1) \<Longrightarrow>
      pick p = None \<Longrightarrow> P rt1 r rt' \<Longrightarrow> P rt r rt'"
  shows "P rt r rt'"
  using assms(1)
proof (induction rt arbitrary: r rt' rule: measure_induct_rule [where f = "rounds deadline"])
  case (less rt)
  show ?case
  proof (cases "rt_now rt < deadline")
    case False
    with less(2) expired [of rt] show ?thesis by (auto simp: poll.simps [of _ _ rt])
  next
    case True
    with less(2) obtain p e rt1 where rcv: "ReceiveTimeout (deadline - rt_now rt) rt = Some ((p, e), rt1)"
      by (auto simp: poll.simps [of _ _ rt] split: option.splits)
    have again: "P rt r rt'" if "e = None" "pick p = None" "poll deadline pick rt1 = Some (r, rt')"
      using skipped [of rt p rt1 r rt'] less(1) [of rt1 r rt'] rounds_decrease [of _ rt p rt1 deadline]
        rcv that by blast
    show ?thesis
      using less(2) True rcv again failed [of rt p _ rt1] answered [of rt p rt1]
      by (auto simp: poll.simps [of _ _ rt] split: option.splits)
  qed
qed

lemma skip_events_config:
  "skip_events timeout deadline rt = Some (r, rt') \<Longrightarrow> same_config rt rt'"
  by (induction rule: skip_events_induct) (auto dest: ReceiveTimeout_config intro: same_config_trans)

lemma poll_config:
  "poll deadline pick rt = Some (r, rt') \<Longrightarrow> same_config rt rt'"
  by (induction rule: poll_induct) (auto dest: ReceiveTimeout_config intro: same_config_trans)

lemma skip_events_result:
  "skip_events timeout deadline rt = Some (r, rt') \<Longrightarrow> snd r = None \<longrightarrow>
    pk_Type (fst r) \<noteq> PacketTypeEvent \<and> pk_Type (fst r) \<noteq> PacketTypeNoMoreData"
  by (induction rule: skip_events_induct) auto

lemma poll_result:
  "poll deadline pick rt = Some (r, rt') \<Longrightarrow>
    (\<forall>a. fst r = Some a \<longrightarrow> snd r = None \<and> (\<exists>p. pick p = Some a))"
  by (induction rule: poll_induct) auto

text \<open>Receiving leaves the other end of the connection alone.\<close>

definition same_peer :: "conn \<Rightarrow> conn \<Rightarrow> bool" where
  "same_peer c c' \<longleftrightarrow> cn_peer c' = cn_peer c \<and> cn_outbox c' = cn_outbox c \<and>
     cn_deadline_err c' = cn_deadline_err c \<and> (\<forall>T. upto_time T (cn_inbox c) \<longrightarrow> upto_time T (cn_inbox c'))"

definition conn_kept :: "Protocol \<Rightarrow> Protocol \<Rightarrow> bool" where
  "conn_kept rt rt' \<longleftrightarrow> rel_option same_peer (rt_conn rt) (rt_conn rt')"

lemma conn_kept_refl [simp]: "conn_kept rt rt"
  by (cases "rt_conn rt") (simp_all add: conn_kept_def same_peer_def)

lemma conn_kept_trans: "conn_kept rt rt' \<Longrightarrow> conn_kept rt' rt'' \<Longrightarrow> conn_kept rt rt''"
  by (cases "rt_conn rt"; cases "rt_conn rt'"; cases "rt_conn rt''") (auto simp: conn_kept_def same_peer_def)

lemma conn_kept_note_event [simp]: "conn_kept rt (note_event p rt)"
  by (cases "rt_conn rt") (simp_all add: conn_kept_def same_peer_def)

lemma setReadDeadline_kept: "setReadDeadline d rt = Some (e, rt') \<Longrightarrow> conn_kept rt rt'"
  by (auto simp: setReadDeadline_def conn_SetReadDeadline_def conn_kept_def same_peer_def
      split: option.splits)

lemma read_buffer_kept: "read_buffer a b rt = Some (e, rt') \<Longrightarrow> conn_kept rt rt'"
  by (auto simp: read_buffer_def conn_kept_def same_peer_def bind_eq_Some_conv
      dest: io_ReadFull_upto split: option.splits if_splits)

lemma receive_body_kept:
  assumes "receive_body sz rt = Some (r, rt')"
  shows "conn_kept rt rt'"
proof -
  let ?rt0 = "if length (rt_buffer rt) < sz then rt\<lparr>rt_buffer := replicate sz 0\<rparr> else rt"
  have "conn_kept ?rt0 rt'"
    using assms unfolding receive_body_def Let_def
    by (auto simp: bind_eq_Some_conv
        dest!: setReadDeadline_kept read_buffer_kept intro: conn_kept_trans
        split: option.splits if_splits prod.splits)
  then show ?thesis by (simp add: conn_kept_def split: if_splits)
qed

lemma ReceiveTimeout_kept:
  assumes "ReceiveTimeout d rt = Some (r, rt')"
  shows "conn_kept rt rt'"
  using assms unfolding ReceiveTimeout_def
  by (auto simp: bind_eq_Some_conv
      dest!: setReadDeadline_kept read_buffer_kept receive_body_kept intro: conn_kept_trans
      split: option.splits if_splits)

lemma skip_events_kept: "skip_events timeout deadline rt = Some (r, rt') \<Longrightarrow> conn_kept rt rt'"
  by (induction rule: skip_events_induct) (auto dest: ReceiveTimeout_kept intro: conn_kept_trans)

lemma poll_kept: "poll deadline pick rt = Some (r, rt') \<Longrightarrow> conn_kept rt rt'"
  by (induction rule: poll_induct) (auto dest: ReceiveTimeout_kept intro: conn_kept_trans)

subsection \<open>Receiving returns\<close>

text \<open>A client whose waits are bounded: its timeout is positive and its buffer holds a header.\<close>

definition bounded_waits :: "Protocol \<Rightarrow> bool" where
  "bounded_waits rt \<longleftrightarrow> 0 < rt_readTimeout rt \<and> packetHeaderSize \<le> length (rt_buffer rt)"

lemma bounded_waits_config: "same_config rt rt' \<Longrightarrow> bounded_waits rt \<Longrightarrow> bounded_waits rt'"
  by (auto simp: same_config_def bounded_waits_def)

lemma setReadDeadline_returns:
  "rt_conn rt \<noteq> None \<Longrightarrow> \<exists>e rt'. setReadDeadline d rt = Some (e, rt')"
  by (auto simp: setReadDeadline_def split: prod.splits)

lemma read_buffer_returns:
  assumes "rt_conn rt \<noteq> None" and "a \<le> b" and "b \<le> length (rt_buffer rt)" and "deadline_of rt \<noteq> None"
  shows "\<exists>e rt'. read_buffer a b rt = Some (e, rt')"
proof -
  from assms(1) obtain c where c: "rt_conn rt = Some c" by blast
  with assms(4) have "cn_deadline c \<noteq> None" by (simp add: deadline_of_def)
  then obtain bs e now q where
    "io_ReadFull (cn_deadline c) (b - a) (rt_now rt) (cn_inbox c) = Some (bs, e, now, q)"
    using io_ReadFull_returns by (metis prod_cases4)
  then show ?thesis using c assms(2,3) by (simp add: read_buffer_def)
qed

lemma receive_body_returns:
  assumes "rt_conn rt \<noteq> None" and "0 < rt_readTimeout rt" and "packetHeaderSize \<le> sz"
  shows "\<exists>r. receive_body sz rt = Some r"
proof -
  define rt0 where "rt0 = (if length (rt_buffer rt) < sz then rt\<lparr>rt_buffer := replicate sz 0\<rparr> else rt)"
  have rt0: "rt_conn rt0 \<noteq> None" "0 < rt_readTimeout rt0" "sz \<le> length (rt_buffer rt0)"
    using assms by (auto simp: rt0_def)
  from setReadDeadline_returns [OF rt0(1)] obtain e1 rt1 where
    d: "setReadDeadline (rt_readTimeout rt0) rt0 = Some (e1, rt1)" by blast
  show ?thesis
  proof (cases e1)
    case (Some x)
    with d show ?thesis by (simp add: receive_body_def rt0_def [symmetric] Let_def)
  next
    case None
    with setReadDeadline_Some [OF d] rt0 have rt1: "rt_conn rt1 \<noteq> None" "deadline_of rt1 \<noteq> None"
      "sz \<le> length (rt_buffer rt1)" by simp_all
    from read_buffer_returns [OF rt1(1) assms(3) rt1(3,2)] obtain e2 rt2 where
      r: "read_buffer packetHeaderSize sz rt1 = Some (e2, rt2)" by blast
    with read_buffer_Some [OF r] rt1 have "slice (rt_buffer rt2) 0 sz \<noteq> None" by (simp add: slice_def)
    moreover obtain e3 p3 where
      "Packet_UnmarshalBinary (zero_Packet\<lparr>pk_order := Some (rt_order rt2)\<rparr>) (the (slice (rt_buffer rt2) 0 sz))
        = Some (e3, p3)" using Packet_returns by (auto simp: runs_def) blast
    ultimately show ?thesis
      using d r None
      by (auto simp: receive_body_def rt0_def [symmetric] Let_def split: option.splits)
  qed
qed

lemma ReceiveTimeout_returns:
  assumes "bounded_waits rt" and "0 < d"
  shows "\<exists>r. ReceiveTimeout d rt = Some r"
proof (cases "IsConnected rt")
  case False
  then show ?thesis by (simp add: ReceiveTimeout_def)
next
  case True
  then have c: "rt_conn rt \<noteq> None" by (simp add: IsConnected_def)
  from setReadDeadline_returns [OF this] obtain e1 rt1 where
    d: "setReadDeadline d rt = Some (e1, rt1)" by blast
  show ?thesis
  proof (cases e1)
    case (Some x)
    with d True show ?thesis by (simp add: ReceiveTimeout_def)
  next
    case None
    with setReadDeadline_Some [OF d] assms have rt1: "rt_conn rt1 \<noteq> None" "deadline_of rt1 \<noteq> None"
      "packetHeaderSize \<le> length (rt_buffer rt1)" by (auto simp: bounded_waits_def)
    from read_buffer_returns [OF rt1(1) _ rt1(3,2), of 0] obtain e2 rt2 where
      r: "read_buffer 0 packetHeaderSize rt1 = Some (e2, rt2)" by auto
    have "packetHeaderSize \<le> length (rt_buffer rt2)" using read_buffer_Some [OF r] rt1 by simp
    then obtain sz t where hdr: "slice (rt_buffer rt2) 0 4 = Some (take 4 (rt_buffer rt2))"
      "Uint32 (rt_order rt2) (take 4 (rt_buffer rt2)) = Some sz"
      "slice (rt_buffer rt2) 4 8 = Some (take 4 (drop 4 (rt_buffer rt2)))"
      "Uint32 (rt_order rt2) (take 4 (drop 4 (rt_buffer rt2))) = Some t"
      by (auto simp: slice_def get_word_def)
    have "same_config rt rt2"
      using setReadDeadline_config [OF d] read_buffer_config [OF r] by (rule same_config_trans)
    then have "rt_conn rt2 \<noteq> None" "0 < rt_readTimeout rt2"
      using c assms(1) by (auto simp: same_config_def bounded_waits_def)
    then have "packetHeaderSize \<le> unat sz \<Longrightarrow> \<exists>r. receive_body (unat sz) rt2 = Some r"
      by (rule receive_body_returns)
    with d r None True hdr show ?thesis
      by (cases e2) (auto simp: ReceiveTimeout_def not_less)
  qed
qed

lemma skip_events_returns:
  "bounded_waits rt \<Longrightarrow> 0 < timeout \<Longrightarrow> \<exists>r. skip_events timeout deadline rt = Some r"
proof (induction rt rule: measure_induct_rule [where f = "rounds deadline"])
  case (less rt)
  show ?case
  proof (cases "skip_wait timeout deadline rt \<le> 0")
    case True
    with less(3) show ?thesis by (simp add: skip_events_eq)
  next
    case False
    with ReceiveTimeout_returns [OF less(2), of "skip_wait timeout deadline rt"] obtain p e rt1 where
      r: "ReceiveTimeout (skip_wait timeout deadline rt) rt = Some ((p, e), rt1)" by auto
    with ReceiveTimeout_config [OF r] less(2) have "bounded_waits rt1" by (blast intro: bounded_waits_config)
    then have "e = None \<Longrightarrow> \<exists>r. skip_events timeout deadline rt1 = Some r"
      using less(1) [of rt1] less(3) skip_wait_decreases r by blast
    with False r less(3) show ?thesis
      by (cases e) (simp_all add: skip_events_eq [of _ _ rt])
  qed
qed

lemma poll_returns:
  "bounded_waits rt \<Longrightarrow> \<exists>r. poll deadline pick rt = Some r"
proof (induction rt rule: measure_induct_rule [where f = "rounds deadline"])
  case (less rt)
  show ?case
  proof (cases "rt_now rt < deadline")
    case False
    then show ?thesis by (subst poll.simps) simp
  next
    case True
    with ReceiveTimeout_returns [OF less(2), of "deadline - rt_now rt"] obtain p e rt1 where
      r: "ReceiveTimeout (deadline - rt_now rt) rt = Some ((p, e), rt1)" by auto
    with ReceiveTimeout_config [OF r] less(2) have "bounded_waits rt1" by (blast intro: bounded_waits_config)
    then have "e = None \<Longrightarrow> \<exists>r. poll deadline pick rt1 = Some r"
      using less(1) [of rt1] rounds_decrease [of _ rt p rt1 deadline] r by blast
    with True r show ?thesis
      by (cases e) (auto simp: poll.simps [of _ _ rt] split: option.splits)
  qed
qed

subsection \<open>A packet that arrives in time is delivered, however it is segmented\<close>

lemma read_buffer_delivers:
  assumes "rt_conn rt = Some c" and "\<not> late (cn_deadline c) T" and "rt_now rt \<le> T"
    and "arrived T (cn_inbox c) = xs @ ys" and "b = a + length xs" and "b \<le> length (rt_buffer rt)"
  shows "\<exists>now q. read_buffer a b rt = Some (None, rt\<lparr>rt_conn := Some (c\<lparr>cn_inbox := q\<rparr>), rt_now := now,
      rt_buffer := take a (rt_buffer rt) @ xs @ drop b (rt_buffer rt)\<rparr>)
    \<and> rt_now rt \<le> now \<and> now \<le> T \<and> arrived T q = ys"
proof -
  from tcp.delivers_prefix [of "(rt_now rt, cn_inbox c)" T "cn_deadline c" xs ys] assms(2-4)
  obtain now q where io: "io_ReadFull (cn_deadline c) (length xs) (rt_now rt) (cn_inbox c) = Some (xs, None, now, q)"
    and "now \<le> T" "arrived T q = ys" by auto
  moreover from io_ReadFull_size [OF io] have "rt_now rt \<le> now" by simp
  ultimately show ?thesis
    using assms(1,5,6) by (intro exI [of _ now] exI [of _ q]) (simp add: read_buffer_def)
qed

lemma setReadDeadline_ok:
  assumes "rt_conn rt = Some c" and "cn_deadline_err c = None"
  shows "setReadDeadline d rt = Some (None, rt\<lparr>rt_conn := Some (c\<lparr>cn_deadline :=
    (if d \<le> 0 then None else Some (rt_now rt + d))\<rparr>)\<rparr>)"
  using assms by (simp add: setReadDeadline_def conn_SetReadDeadline_def)

text \<open>
  The bytes the decoder sees: those of the packet when the buffer can hold it, but a fresh
  buffer, whose header bytes are zero, when it has to grow.
\<close>

definition seen_packet :: "Protocol \<Rightarrow> bytes \<Rightarrow> bytes" where
  "seen_packet rt pkt = (if length (rt_buffer rt) < length pkt then replicate packetHeaderSize 0 @ drop packetHeaderSize pkt
     else pkt)"

definition receive_result :: "err option \<times> Packet \<Rightarrow> Packet \<times> err option" where
  "receive_result = (\<lambda>(e, p). case e of
       Some e \<Rightarrow> (none_Packet, Some (Errorf ''receive: unmarshal: %w'' [AWrap e]))
     | None \<Rightarrow> if pk_Type p = PacketTypeError
         then (p, Some (Errorf ''receive: error packet returned (%s)'' [AStr (pk_ErrorResponse p)]))
         else (p, None))"

definition event_noted :: "err option \<times> Packet \<Rightarrow> Protocol \<Rightarrow> Protocol" where
  "event_noted = (\<lambda>(e, p) rt. if e = None then note_event p rt else rt)"

text \<open>A packet of the stream that the client accepts by its size.\<close>

definition acceptable :: "Protocol \<Rightarrow> bytes \<Rightarrow> bool" where
  "acceptable rt payload \<longleftrightarrow> packetHeaderSize + length payload < 2 ^ 32 \<and>
     int (packetHeaderSize + length payload) \<le> rt_maxPacketSize rt"

text \<open>All of the packet is there before either deadline can pass.\<close>

definition timely :: "int \<Rightarrow> int \<Rightarrow> Protocol \<Rightarrow> bool" where
  "timely T d rt \<longleftrightarrow> rt_now rt \<le> T \<and> (d \<le> 0 \<or> T < rt_now rt + d) \<and>
     (rt_readTimeout rt \<le> 0 \<or> T < rt_now rt + rt_readTimeout rt)"

definition incoming :: "int \<Rightarrow> Protocol \<Rightarrow> bytes" where
  "incoming T rt = (case rt_conn rt of None \<Rightarrow> [] | Some c \<Rightarrow> arrived T (cn_inbox c))"

definition healthy :: "Protocol \<Rightarrow> bool" where
  "healthy rt \<longleftrightarrow> packetHeaderSize \<le> length (rt_buffer rt) \<and>
     (\<exists>c. rt_conn rt = Some c \<and> cn_deadline_err c = None)"

text \<open>Once the whole packet is in the buffer, it is decoded and an event is noted.\<close>

lemma body_read:
  assumes "(if length (rt_buffer rt) < sz then rt\<lparr>rt_buffer := replicate sz 0\<rparr> else rt) = rt0"
    and "setReadDeadline (rt_readTimeout rt0) rt0 = Some (None, rt1)" and "read_buffer packetHeaderSize sz rt1 = Some (None, rt2)"
    and "rt_order rt2 = rt_order rt" and "slice (rt_buffer rt2) 0 sz = Some data"
  shows "\<exists>r. Packet_UnmarshalBinary (zero_Packet\<lparr>pk_order := Some (rt_order rt)\<rparr>) data = Some r
    \<and> receive_body sz rt = Some (receive_result r, event_noted r rt2)"
proof -
  obtain e p where u: "Packet_UnmarshalBinary (zero_Packet\<lparr>pk_order := Some (rt_order rt)\<rparr>) data = Some (e, p)"
    using Packet_returns by (auto simp: runs_def) blast
  have "receive_body sz rt = Some (receive_result (e, p), event_noted (e, p) rt2)"
    unfolding receive_body_def Let_def assms(1)
    using assms(2-5) u by (simp add: receive_result_def event_noted_def split: option.splits)
  with u show ?thesis by blast
qed

lemma receive_body_delivers:
  assumes "healthy rt" and "timely T d rt" and "incoming T rt = payload @ rest"
    and "take packetHeaderSize (rt_buffer rt) = hdr" and "packetHeaderSize \<le> length (rt_buffer rt)"
  shows "\<exists>r rt'. Packet_UnmarshalBinary (zero_Packet\<lparr>pk_order := Some (rt_order rt)\<rparr>)
        (seen_packet rt (hdr @ payload)) = Some r
    \<and> receive_body (packetHeaderSize + length payload) rt = Some (receive_result r, rt')
    \<and> incoming T rt' = rest \<and> healthy rt' \<and> timely T d rt' \<and> same_config rt rt'
    \<and> rt_state rt' = rt_state (event_noted r rt) \<and> rt_lastEvent rt' = rt_lastEvent (event_noted r rt)
    \<and> length (rt_buffer rt') = max (length (rt_buffer rt)) (packetHeaderSize + length payload)"
proof -
  let ?sz = "packetHeaderSize + length payload"
  from assms(1) obtain c where c: "rt_conn rt = Some c" "cn_deadline_err c = None"
    by (auto simp: healthy_def)
  define rt0 where "rt0 = (if length (rt_buffer rt) < ?sz then rt\<lparr>rt_buffer := replicate ?sz 0\<rparr> else rt)"
  define dl where "dl = (if rt_readTimeout rt \<le> 0 then None else Some (rt_now rt + rt_readTimeout rt))"
  define rt1 where "rt1 = rt0\<lparr>rt_conn := Some (c\<lparr>cn_deadline := dl\<rparr>)\<rparr>"
  have rt0: "rt_conn rt0 = Some c" "rt_readTimeout rt0 = rt_readTimeout rt" "rt_now rt0 = rt_now rt"
    "?sz \<le> length (rt_buffer rt0)" "rt_order rt0 = rt_order rt"
    using c by (simp_all add: rt0_def)
  have d: "setReadDeadline (rt_readTimeout rt0) rt0 = Some (None, rt1)"
    using setReadDeadline_ok [OF rt0(1) c(2)] by (simp add: rt0 rt1_def dl_def)
  have len: "length hdr = packetHeaderSize" using assms(4,5) by auto
  have nl: "\<not> late dl T" using assms(2) by (auto simp: dl_def late_def timely_def)
  obtain now q where r: "read_buffer packetHeaderSize ?sz rt1 = Some (None, rt1\<lparr>rt_conn := Some (c\<lparr>cn_deadline := dl, cn_inbox := q\<rparr>),
      rt_now := now, rt_buffer := take packetHeaderSize (rt_buffer rt1) @ payload @ drop ?sz (rt_buffer rt1)\<rparr>)"
    and now: "rt_now rt \<le> now" "now \<le> T" and q: "arrived T q = rest"
    using read_buffer_delivers [of rt1 "c\<lparr>cn_deadline := dl\<rparr>" T payload rest ?sz packetHeaderSize]
      nl assms(2,3) rt0 c by (auto simp: rt1_def timely_def incoming_def)
  define rt2 where "rt2 = rt1\<lparr>rt_conn := Some (c\<lparr>cn_deadline := dl, cn_inbox := q\<rparr>),
      rt_now := now, rt_buffer := take packetHeaderSize (rt_buffer rt1) @ payload @ drop ?sz (rt_buffer rt1)\<rparr>"
  have "take packetHeaderSize (rt_buffer rt1) = (if length (rt_buffer rt) < ?sz then replicate packetHeaderSize 0 else hdr)"
    using assms(4) by (auto simp: rt1_def rt0_def min_def)
  then have data: "slice (rt_buffer rt2) 0 ?sz = Some (seen_packet rt (hdr @ payload))"
    using len by (auto simp: rt2_def slice_def seen_packet_def)
  have order: "rt_order rt2 = rt_order rt" by (simp add: rt2_def rt1_def rt0)
  from body_read [OF rt0_def [symmetric] d r [folded rt2_def] order data] obtain e p where
    u: "Packet_UnmarshalBinary (zero_Packet\<lparr>pk_order := Some (rt_order rt)\<rparr>) (seen_packet rt (hdr @ payload)) = Some (e, p)"
    and body: "receive_body ?sz rt = Some (receive_result (e, p), event_noted (e, p) rt2)" by auto
  have conn: "rt_conn rt2 = Some (c\<lparr>cn_deadline := dl, cn_inbox := q\<rparr>)" by (simp add: rt2_def)
  have buf: "length (rt_buffer rt) \<le> length (rt_buffer rt2)"
    using rt0 by (auto simp: rt2_def rt1_def rt0_def)
  have size: "length (rt_buffer rt2) = max (length (rt_buffer rt)) ?sz"
    using rt0(4) by (auto simp: rt2_def rt1_def rt0_def)
  have cfg: "same_config rt rt2" using buf c by (simp add: same_config_def conn) (simp add: rt2_def rt1_def rt0_def)
  have ev: "rt_conn (event_noted (e, p) rt2) = rt_conn rt2" "rt_now (event_noted (e, p) rt2) = rt_now rt2"
    "rt_buffer (event_noted (e, p) rt2) = rt_buffer rt2"
    "rt_readTimeout (event_noted (e, p) rt2) = rt_readTimeout rt2" "same_config rt2 (event_noted (e, p) rt2)"
    "rt_state (event_noted (e, p) rt2) = rt_state (event_noted (e, p) rt)"
    "rt_lastEvent (event_noted (e, p) rt2) = rt_lastEvent (event_noted (e, p) rt)"
    by (simp_all add: event_noted_def note_event_def Let_def rt2_def rt1_def rt0_def same_config_def)
  show ?thesis
  proof (intro exI conjI)
    show "Packet_UnmarshalBinary (zero_Packet\<lparr>pk_order := Some (rt_order rt)\<rparr>) (seen_packet rt (hdr @ payload))
      = Some (e, p)" by (rule u)
    show "receive_body ?sz rt = Some (receive_result (e, p), event_noted (e, p) rt2)" by (rule body)
    show "incoming T (event_noted (e, p) rt2) = rest" using q by (simp add: incoming_def ev conn)
    show "healthy (event_noted (e, p) rt2)" using c buf assms(5) by (simp add: healthy_def ev conn)
    show "timely T d (event_noted (e, p) rt2)"
      using now assms(2) by (auto simp: timely_def ev) (simp_all add: rt2_def rt1_def rt0)
    show "same_config rt (event_noted (e, p) rt2)" using cfg ev(5) by (rule same_config_trans)
    show "length (rt_buffer (event_noted (e, p) rt2)) = max (length (rt_buffer rt)) ?sz" by (simp only: ev size)
  qed (rule ev)+
qed

text \<open>Once the header of an acceptable packet has been read, the body is waited for.\<close>

lemma header_read:
  assumes "IsConnected rt" and "setReadDeadline d rt = Some (None, rt1)" and "read_buffer 0 packetHeaderSize rt1 = Some (None, rt2)"
    and "rt_order rt2 = rt_order rt" and "rt_maxPacketSize rt2 = rt_maxPacketSize rt"
    and "rt_buffer rt2 = take packetHeaderSize (enc_packet (rt_order rt) t payload) @ buf"
    and "acceptable rt payload" and "payload \<noteq> []"
  shows "ReceiveTimeout d rt = receive_body (packetHeaderSize + length payload) rt2"
proof -
  let ?n = "packetHeaderSize + length payload"
  define sz :: u32 where "sz = of_nat ?n"
  have sz: "unat sz = ?n"
    using assms(7) by (intro of_nat_inverse [OF sz_def [symmetric]]) (simp add: acceptable_def)
  then have usz: "uint sz = int ?n" by (metis uint_nat)
  have "take packetHeaderSize (enc_packet (rt_order rt) t payload) = PutUint32 (rt_order rt) sz @ PutUint32 (rt_order rt) t"
    by (simp add: enc_packet_def sz_def)
  then have "slice (rt_buffer rt2) 0 4 = Some (PutUint32 (rt_order rt) sz)" "slice (rt_buffer rt2) 4 8 = Some (PutUint32 (rt_order rt) t)"
    by (simp_all add: assms(6) slice_def)
  then show ?thesis
    using assms(1-5,7,8) by (simp add: ReceiveTimeout_def sz usz acceptable_def)
qed

lemma ReceiveTimeout_delivers:
  assumes "healthy rt" and "timely T d rt" and "incoming T rt = enc_packet (rt_order rt) t payload @ rest"
    and "acceptable rt payload" and "payload \<noteq> []"
  shows "\<exists>r rt'. Packet_UnmarshalBinary (zero_Packet\<lparr>pk_order := Some (rt_order rt)\<rparr>)
        (seen_packet rt (enc_packet (rt_order rt) t payload)) = Some r
    \<and> ReceiveTimeout d rt = Some (receive_result r, rt')
    \<and> incoming T rt' = rest \<and> healthy rt' \<and> timely T d rt' \<and> same_config rt rt'
    \<and> rt_state rt' = rt_state (event_noted r rt) \<and> rt_lastEvent rt' = rt_lastEvent (event_noted r rt)
    \<and> length (rt_buffer rt') = max (length (rt_buffer rt)) (packetHeaderSize + length payload)"
proof -
  let ?n = "packetHeaderSize + length payload"
  let ?ord = "rt_order rt"
  from assms(1) obtain c where c: "rt_conn rt = Some c" "cn_deadline_err c = None"
    and buf: "packetHeaderSize \<le> length (rt_buffer rt)"
    by (auto simp: healthy_def)
  define hdr where "hdr = take packetHeaderSize (enc_packet ?ord t payload)"
  have hdr: "length hdr = packetHeaderSize" "enc_packet ?ord t payload = hdr @ payload"
    by (simp_all add: hdr_def enc_packet_def)
  define dl where "dl = (if d \<le> 0 then None else Some (rt_now rt + d))"
  define rt1 where "rt1 = rt\<lparr>rt_conn := Some (c\<lparr>cn_deadline := dl\<rparr>)\<rparr>"
  have d: "setReadDeadline d rt = Some (None, rt1)"
    using setReadDeadline_ok [OF c] by (simp add: rt1_def dl_def)
  have nl: "\<not> late dl T" using assms(2) by (auto simp: dl_def late_def timely_def)
  obtain now q where r: "read_buffer 0 packetHeaderSize rt1 = Some (None, rt1\<lparr>rt_conn := Some (c\<lparr>cn_deadline := dl, cn_inbox := q\<rparr>),
      rt_now := now, rt_buffer := take 0 (rt_buffer rt1) @ hdr @ drop packetHeaderSize (rt_buffer rt1)\<rparr>)"
    and now: "rt_now rt \<le> now" "now \<le> T" and q: "arrived T q = payload @ rest"
    using read_buffer_delivers [of rt1 "c\<lparr>cn_deadline := dl\<rparr>" T hdr "payload @ rest" packetHeaderSize 0]
      nl assms(2,3) c hdr buf by (auto simp: rt1_def timely_def incoming_def)
  define rt2 where "rt2 = rt\<lparr>rt_conn := Some (c\<lparr>cn_deadline := dl, cn_inbox := q\<rparr>),
      rt_now := now, rt_buffer := hdr @ drop packetHeaderSize (rt_buffer rt)\<rparr>"
  have len2: "length (rt_buffer rt2) = length (rt_buffer rt)" using buf hdr by (simp add: rt2_def)
  have r2: "read_buffer 0 packetHeaderSize rt1 = Some (None, rt2)" using r by (simp add: rt2_def rt1_def)
  have step: "ReceiveTimeout d rt = receive_body ?n rt2"
    by (rule header_read [where t = t and buf = "drop packetHeaderSize (rt_buffer rt)", OF _ d r2 _ _ _ assms(4,5)]) (simp_all add: rt2_def hdr_def IsConnected_def c)
  have h2: "healthy rt2" "timely T d rt2" "incoming T rt2 = payload @ rest"
    "take packetHeaderSize (rt_buffer rt2) = hdr" "packetHeaderSize \<le> length (rt_buffer rt2)"
    using c buf len2 hdr now q assms(2)
    by (auto simp: healthy_def timely_def incoming_def rt2_def)
  have same: "rt_order rt2 = rt_order rt" "seen_packet rt2 = seen_packet rt" "same_config rt rt2"
    "rt_state (event_noted r rt2) = rt_state (event_noted r rt)"
    "rt_lastEvent (event_noted r rt2) = rt_lastEvent (event_noted r rt)" for r
    using len2 c
    by (auto simp: seen_packet_def fun_eq_iff same_config_def event_noted_def note_event_def Let_def rt2_def
        split: prod.splits)
  from receive_body_delivers [OF h2] obtain r rt' where
    "Packet_UnmarshalBinary (zero_Packet\<lparr>pk_order := Some ?ord\<rparr>) (seen_packet rt (hdr @ payload)) = Some r"
    "receive_body ?n rt2 = Some (receive_result r, rt')" "incoming T rt' = rest" "healthy rt'" "timely T d rt'"
    "same_config rt2 rt'" "rt_state rt' = rt_state (event_noted r rt)"
    "rt_lastEvent rt' = rt_lastEvent (event_noted r rt)" "length (rt_buffer rt') = max (length (rt_buffer rt)) ?n"
    unfolding same len2 by blast
  with step same_config_trans [OF same(3)] hdr(2) show ?thesis
    by (intro exI [of _ r] exI [of _ rt']) simp
qed

subsection \<open>Streams of packets\<close>

text \<open>What one packet stands for, and receiving one packet after the other.\<close>

definition packet_result :: "byte_order \<Rightarrow> u32 \<times> bytes \<Rightarrow> Packet \<times> err option" where
  "packet_result ord = (\<lambda>(t, payload). receive_result (the
     (Packet_UnmarshalBinary (zero_Packet\<lparr>pk_order := Some ord\<rparr>) (enc_packet ord t payload))))"

definition enc_packets :: "byte_order \<Rightarrow> (u32 \<times> bytes) list \<Rightarrow> bytes" where
  "enc_packets ord ps = concat (map (\<lambda>(t, payload). enc_packet ord t payload) ps)"

definition fits :: "Protocol \<Rightarrow> u32 \<times> bytes \<Rightarrow> bool" where
  "fits rt = (\<lambda>(t, payload). payload \<noteq> [] \<and> acceptable rt payload
     \<and> packetHeaderSize + length payload \<le> length (rt_buffer rt))"

fun receive_many :: "int \<Rightarrow> nat \<Rightarrow> Protocol \<Rightarrow> ((Packet \<times> err option) list \<times> Protocol) option" where
  "receive_many d 0 rt = Some ([], rt)"
| "receive_many d (Suc n) rt = do {
     (r, rt) \<leftarrow> ReceiveTimeout d rt;
     (rs, rt) \<leftarrow> receive_many d n rt;
     Some (r # rs, rt)
   }"

lemma fits_config: "same_config rt rt' \<Longrightarrow> fits rt p \<Longrightarrow> fits rt' p"
  by (auto simp: fits_def acceptable_def same_config_def)

lemma ReceiveTimeout_fits:
  assumes "healthy rt" and "timely T d rt" and "incoming T rt = enc_packet (rt_order rt) t payload @ rest"
    and "fits rt (t, payload)"
  shows "\<exists>rt'. ReceiveTimeout d rt = Some (packet_result (rt_order rt) (t, payload), rt')
    \<and> incoming T rt' = rest \<and> healthy rt' \<and> timely T d rt' \<and> same_config rt rt'
    \<and> length (rt_buffer rt') = length (rt_buffer rt)"
proof -
  have "seen_packet rt (enc_packet (rt_order rt) t payload) = enc_packet (rt_order rt) t payload"
    using assms(4) by (simp add: seen_packet_def fits_def)
  moreover have "acceptable rt payload" "payload \<noteq> []" using assms(4) by (simp_all add: fits_def)
  ultimately show ?thesis
    using ReceiveTimeout_delivers [OF assms(1-3)] assms(4) by (auto simp: packet_result_def fits_def max_def)
qed

text \<open>
  A packet that is larger than the receive buffer as it is: the header is in the buffer that is
  replaced, the decoder sees zeros, and the payload is taken for the text of an error packet.
\<close>

definition misread :: "byte_order \<Rightarrow> bytes \<Rightarrow> Packet \<times> err option" where
  "misread ord payload = (zero_Packet\<lparr>pk_order := Some ord, pk_ErrorResponse := trimStringResponse payload\<rparr>,
     Some (Errorf ''receive: error packet returned (%s)'' [AStr (trimStringResponse payload)]))"

lemma put_word_0: "put_word ord k 0 = replicate k 0"
  by (cases ord) (simp_all add: put_word_def arrange_def le_bytes_def map_replicate_const)

lemma zeros_decoded:
  assumes "payload \<noteq> []"
  shows "Packet_UnmarshalBinary (zero_Packet\<lparr>pk_order := Some ord\<rparr>) (replicate packetHeaderSize 0 @ payload)
    = Some (None, zero_Packet\<lparr>pk_order := Some ord, pk_ErrorResponse := trimStringResponse payload\<rparr>)"
proof -
  let ?p0 = "zero_Packet\<lparr>pk_order := Some ord\<rparr>"
  have zeros: "replicate packetHeaderSize 0 = PutUint32 (Packet_byteOrder ?p0) 0 @ PutUint32 (Packet_byteOrder ?p0) 0"
    by (simp add: put_word_0 flip: replicate_add)
  show ?thesis
    unfolding zeros append_assoc Packet_UnmarshalBinary_header
    using assms by (simp add: decoded_payload_def zero_Packet_def)
qed

lemma ReceiveTimeout_large:
  assumes "healthy rt" and "timely T d rt" and "incoming T rt = enc_packet (rt_order rt) t payload @ rest"
    and "acceptable rt payload" and "length (rt_buffer rt) < packetHeaderSize + length payload"
  shows "\<exists>rt'. ReceiveTimeout d rt = Some (misread (rt_order rt) payload, rt')
    \<and> incoming T rt' = rest \<and> healthy rt' \<and> timely T d rt' \<and> same_config rt rt'
    \<and> length (rt_buffer rt') = packetHeaderSize + length payload"
proof -
  have ne: "payload \<noteq> []" using assms(1,5) by (auto simp: healthy_def)
  have "seen_packet rt (enc_packet (rt_order rt) t payload) = replicate packetHeaderSize 0 @ payload"
    using assms(5) by (simp add: seen_packet_def enc_packet_def)
  with zeros_decoded [OF ne, of "rt_order rt"] show ?thesis
    using ReceiveTimeout_delivers [OF assms(1-4) ne] assms(5)
    by (auto simp: receive_result_def misread_def zero_Packet_def max_def)
qed

text \<open>What the packets of a stream are received as, with \<open>n\<close> the size of the buffer, which grows.\<close>

fun received_as :: "byte_order \<Rightarrow> nat \<Rightarrow> (u32 \<times> bytes) list \<Rightarrow> (Packet \<times> err option) list" where
  "received_as ord n [] = []"
| "received_as ord n ((t, payload) # ps) =
     (if packetHeaderSize + length payload \<le> n then packet_result ord (t, payload) # received_as ord n ps
      else misread ord payload # received_as ord (packetHeaderSize + length payload) ps)"

definition packet_size :: "u32 \<times> bytes \<Rightarrow> nat" where
  "packet_size pkt = packetHeaderSize + length (snd pkt)"

lemma received_as_nth:
  "i < length ps \<Longrightarrow> received_as ord n ps ! i =
    (if packet_size (ps ! i) \<le> foldl max n (map packet_size (take i ps)) then packet_result ord (ps ! i)
     else misread ord (snd (ps ! i)))"
proof (induction ps arbitrary: n i)
  case (Cons x ps)
  obtain t payload where x: "x = (t, payload)" by (cases x)
  show ?case
  proof (cases i)
    case 0
    then show ?thesis by (simp add: x packet_size_def)
  next
    case (Suc j)
    with Cons.prems Cons.IH [of j n] Cons.IH [of j "packetHeaderSize + length payload"] show ?thesis
      by (auto simp: x packet_size_def max_def not_le)
  qed
qed simp

lemma received_as_length [simp]: "length (received_as ord n ps) = length ps"
  by (induction ord n ps rule: received_as.induct) simp_all

text \<open>Events ahead of a response.\<close>

definition event_packets :: "u8 list \<Rightarrow> (u32 \<times> bytes) list" where
  "event_packets evs = map (\<lambda>ev. (PacketTypeEvent, [ev])) evs"

definition last_state :: "u8 \<Rightarrow> u8 list \<Rightarrow> u8" where
  "last_state s evs = foldl (\<lambda>s ev. if ev \<noteq> EventTypeCameraSettingsChanged then ev else s) s evs"

lemma event_decoded:
  "Packet_UnmarshalBinary (zero_Packet\<lparr>pk_order := Some ord\<rparr>) (enc_packet ord PacketTypeEvent [ev])
    = Some (None, zero_Packet\<lparr>pk_order := Some ord, pk_Size := 9, pk_Type := PacketTypeEvent, pk_Event := ev\<rparr>)"
proof -
  have "Packet_byteOrder (zero_Packet\<lparr>pk_order := Some ord\<rparr>) = ord"
    by (simp add: Packet_byteOrder_def)
  then show ?thesis
    using Packet_UnmarshalBinary_header [of "zero_Packet\<lparr>pk_order := Some ord\<rparr>" 9 PacketTypeEvent "[ev]"]
    by (simp add: enc_packet_def decoded_payload_def)
qed

lemma Packet_UnmarshalBinary_enc:
  "Packet_UnmarshalBinary (zero_Packet\<lparr>pk_order := Some ord\<rparr>) (enc_packet ord t payload)
    = decoded_payload ord t payload (zero_Packet\<lparr>pk_order := Some ord,
        pk_Size := uint (of_nat (packetHeaderSize + length payload) :: u32), pk_Type := t\<rparr>)"
  using Packet_UnmarshalBinary_header [of "zero_Packet\<lparr>pk_order := Some ord\<rparr>"]
  by (simp add: enc_packet_def Packet_byteOrder_def)

lemma decoded_type:
  assumes "Packet_UnmarshalBinary (zero_Packet\<lparr>pk_order := Some ord\<rparr>) (enc_packet ord t payload) = Some (e, p)"
  shows "pk_Type p = t"
  using runs_SomeD [OF decoded_payload_returns assms [unfolded Packet_UnmarshalBinary_enc]] by simp

lemma timely_mono: "timely T d rt \<Longrightarrow> d' \<le> 0 \<or> T < rt_now rt + d' \<Longrightarrow> timely T d' rt"
  by (simp add: timely_def)

text \<open>Waiting behind events: the response ends the wait, an event is passed over.\<close>

lemma skip_events_response:
  assumes "healthy rt" and "0 < timeout" and "timely T (deadline - rt_now rt) rt" and "T < deadline"
    and "incoming T rt = enc_packet (rt_order rt) t payload @ rest"
    and "fits rt (t, payload)" and "t \<noteq> PacketTypeEvent" and "t \<noteq> PacketTypeNoMoreData"
  shows "\<exists>rt'. skip_events timeout deadline rt = Some (packet_result (rt_order rt) (t, payload), rt')
    \<and> incoming T rt' = rest \<and> healthy rt' \<and> same_config rt rt' \<and> rt_state rt' = rt_state rt
    \<and> rt_now rt \<le> rt_now rt' \<and> rt_now rt' \<le> T \<and> length (rt_buffer rt') = length (rt_buffer rt)"
proof -
  let ?d = "deadline - rt_now rt"
  let ?ord = "rt_order rt"
  have seen: "seen_packet rt (enc_packet ?ord t payload) = enc_packet ?ord t payload"
    and acc: "acceptable rt payload" "payload \<noteq> []"
    using assms(6) by (simp_all add: seen_packet_def fits_def)
  from ReceiveTimeout_delivers [OF assms(1,3,5) acc] obtain e p rt1 where
    u: "Packet_UnmarshalBinary (zero_Packet\<lparr>pk_order := Some ?ord\<rparr>) (enc_packet ?ord t payload) = Some (e, p)"
    and r: "ReceiveTimeout ?d rt = Some (receive_result (e, p), rt1)"
    and rt1: "incoming T rt1 = rest" "healthy rt1" "same_config rt rt1"
      "rt_state rt1 = rt_state (event_noted (e, p) rt)" "rt_now rt1 \<le> T"
      "length (rt_buffer rt1) = length (rt_buffer rt)"
    unfolding seen using assms(6) by (auto simp: timely_def fits_def max_def)
  obtain p1 e1 where "ReceiveTimeout ?d rt = Some ((p1, e1), rt1)" using r by (cases "receive_result (e, p)") auto
  from ReceiveTimeout_progress [OF this] have mono: "rt_now rt \<le> rt_now rt1" by simp
  have t: "pk_Type p = t" using decoded_type [OF u] .
  then have "rt_state rt1 = rt_state rt" using rt1(4) assms(7) by (simp add: event_noted_def note_event_def)
  moreover have "0 < ?d" using assms(3,4) by (simp add: timely_def)
  then have "skip_events timeout deadline rt = Some (receive_result (e, p), rt1)"
    using r assms(2,7,8) t by (auto simp: skip_events_eq skip_wait_def receive_result_def split: option.splits)
  ultimately show ?thesis using rt1 u mono by (simp add: packet_result_def)
qed

lemma skip_events_passes:
  assumes "healthy rt" and "0 < timeout" and "timely T (deadline - rt_now rt) rt" and "T < deadline"
    and "incoming T rt = enc_packet (rt_order rt) PacketTypeEvent [ev] @ rest"
    and "packetHeaderSize < length (rt_buffer rt)" and "int packetHeaderSize < rt_maxPacketSize rt"
  shows "\<exists>rt'. skip_events timeout deadline rt = skip_events timeout deadline rt' \<and> incoming T rt' = rest \<and> healthy rt'
    \<and> timely T (deadline - rt_now rt') rt' \<and> same_config rt rt' \<and> rt_state rt' = last_state (rt_state rt) [ev]
    \<and> rt_now rt \<le> rt_now rt' \<and> length (rt_buffer rt') = length (rt_buffer rt)"
proof -
  let ?d = "deadline - rt_now rt"
  let ?ord = "rt_order rt"
  have d: "0 < ?d" using assms(3,4) by (simp add: timely_def)
  have seen: "seen_packet rt (enc_packet ?ord PacketTypeEvent [ev]) = enc_packet ?ord PacketTypeEvent [ev]"
    and acc: "acceptable rt [ev]" "[ev] \<noteq> []"
    using assms(6,7) by (simp_all add: seen_packet_def acceptable_def)
  from ReceiveTimeout_delivers [OF assms(1,3,5) acc] obtain p rt1 where
    r: "ReceiveTimeout ?d rt = Some ((p, None), rt1)" and p: "pk_Type p = PacketTypeEvent"
    and rt1: "incoming T rt1 = rest" "healthy rt1" "timely T ?d rt1" "same_config rt rt1"
      "rt_state rt1 = last_state (rt_state rt) [ev]" "length (rt_buffer rt1) = length (rt_buffer rt)"
    unfolding seen event_decoded using assms(6)
    by (auto simp: max_def receive_result_def event_noted_def note_event_def last_state_def Let_def)
  have "timely T (deadline - rt_now rt1) rt1"
    by (rule timely_mono [OF rt1(3)]) (use assms(4) in simp)
  moreover have "skip_events timeout deadline rt = skip_events timeout deadline rt1"
    using r p d assms(2) by (simp add: skip_events_eq [of _ _ rt] skip_wait_def)
  ultimately show ?thesis using rt1 ReceiveTimeout_progress [OF r] by auto
qed

lemma skip_events_delivers:
  assumes "healthy rt" and "0 < timeout" and "T < deadline" and "timely T (deadline - rt_now rt) rt"
    and "incoming T rt = enc_packets (rt_order rt) (event_packets evs) @ enc_packet (rt_order rt) t payload @ rest"
    and "packetHeaderSize < length (rt_buffer rt)" and "int packetHeaderSize < rt_maxPacketSize rt"
    and "fits rt (t, payload)" and "t \<noteq> PacketTypeEvent" and "t \<noteq> PacketTypeNoMoreData"
  shows "\<exists>rt'. skip_events timeout deadline rt = Some (packet_result (rt_order rt) (t, payload), rt')
    \<and> incoming T rt' = rest \<and> healthy rt' \<and> same_config rt rt' \<and> rt_state rt' = last_state (rt_state rt) evs
    \<and> rt_now rt \<le> rt_now rt' \<and> rt_now rt' \<le> T \<and> length (rt_buffer rt') = length (rt_buffer rt)"
  using assms
proof (induction evs arbitrary: rt)
  case Nil
  then show ?case
    using skip_events_response [OF Nil.prems(1,2,4,3) _ Nil.prems(8-10)]
    by (simp add: event_packets_def enc_packets_def last_state_def)
next
  case (Cons ev evs)
  let ?ord = "rt_order rt"
  from Cons.prems(5) have "incoming T rt = enc_packet ?ord PacketTypeEvent [ev]
      @ enc_packets ?ord (event_packets evs) @ enc_packet ?ord t payload @ rest"
    by (simp add: event_packets_def enc_packets_def)
  from skip_events_passes [OF Cons.prems(1,2,4,3) this Cons.prems(6,7)] obtain rt1 where
    step: "skip_events timeout deadline rt = skip_events timeout deadline rt1"
    and rt1: "incoming T rt1 = enc_packets ?ord (event_packets evs) @ enc_packet ?ord t payload @ rest"
      "healthy rt1" "timely T (deadline - rt_now rt1) rt1" "same_config rt rt1" "rt_state rt1 = last_state (rt_state rt) [ev]"
      "rt_now rt \<le> rt_now rt1" "length (rt_buffer rt1) = length (rt_buffer rt)" by blast
  have cfg: "rt_order rt1 = ?ord" "packetHeaderSize < length (rt_buffer rt1)"
    "int packetHeaderSize < rt_maxPacketSize rt1"
    using rt1(4) Cons.prems(6,7) by (auto simp: same_config_def)
  from Cons.IH [OF rt1(2) Cons.prems(2,3) rt1(3) _ cfg(2,3) fits_config [OF rt1(4) Cons.prems(8)] Cons.prems(9,10)]
    rt1(1) cfg(1) obtain rt' where
    "skip_events timeout deadline rt1 = Some (packet_result ?ord (t, payload), rt')"
    "incoming T rt' = rest" "healthy rt'" "same_config rt1 rt'" "rt_state rt' = last_state (rt_state rt1) evs"
    "rt_now rt1 \<le> rt_now rt'" "rt_now rt' \<le> T" "length (rt_buffer rt') = length (rt_buffer rt1)"
    by auto
  with step rt1(5-7) same_config_trans [OF rt1(4)] show ?case
    by (intro exI [of _ rt']) (simp add: last_state_def)
qed

subsection \<open>How long a receive takes\<close>

lemma read_buffer_bound:
  assumes "read_buffer a b rt = Some (e, rt')" and "deadline_of rt = Some D"
  shows "rt_now rt' \<le> max (rt_now rt) D"
proof -
  from assms(1) obtain c bs now q where c: "rt_conn rt = Some c"
    and io: "io_ReadFull (cn_deadline c) (b - a) (rt_now rt) (cn_inbox c) = Some (bs, e, now, q)"
    and now: "rt_now rt' = now"
    by (auto simp: read_buffer_def bind_eq_Some_conv split: option.splits if_splits)
  from c assms(2) have "cn_deadline c = Some D" by (simp add: deadline_of_def)
  with io_ReadFull_bound [of D] io now show ?thesis by simp
qed

lemma receive_body_bound:
  assumes "receive_body sz rt = Some (r, rt')" and "0 < rt_readTimeout rt"
  shows "rt_now rt' \<le> rt_now rt + rt_readTimeout rt"
proof -
  define rt0 where "rt0 = (if length (rt_buffer rt) < sz then rt\<lparr>rt_buffer := replicate sz 0\<rparr> else rt)"
  have rt0: "rt_readTimeout rt0 = rt_readTimeout rt" "rt_now rt0 = rt_now rt" by (simp_all add: rt0_def)
  obtain e1 rt1 where d: "setReadDeadline (rt_readTimeout rt0) rt0 = Some (e1, rt1)"
    using assms(1) by (auto simp: receive_body_def rt0_def [symmetric] Let_def bind_eq_Some_conv)
  note d' = setReadDeadline_Some [OF d]
  show ?thesis
  proof (cases e1)
    case (Some x)
    with assms d d' rt0 show ?thesis by (auto simp: receive_body_def rt0_def [symmetric] Let_def)
  next
    case None
    obtain e2 rt2 where rd: "read_buffer packetHeaderSize sz rt1 = Some (e2, rt2)"
      using assms(1) d None
      by (auto simp: receive_body_def rt0_def [symmetric] Let_def bind_eq_Some_conv)
    have "rt' = rt2 \<or> (\<exists>p. rt' = note_event p rt2)"
      using assms(1) d rd None
      by (auto simp: receive_body_def rt0_def [symmetric] Let_def bind_eq_Some_conv
          split: option.splits if_splits prod.splits)
    moreover have "rt_now rt2 \<le> rt_now rt + rt_readTimeout rt"
      using read_buffer_bound [OF rd, of "rt_now rt + rt_readTimeout rt"] d' None rt0 assms(2) by simp
    ultimately show ?thesis by auto
  qed
qed

lemma ReceiveTimeout_bound:
  assumes "ReceiveTimeout d rt = Some (r, rt')" and "0 < d" and "0 < rt_readTimeout rt"
  shows "rt_now rt' \<le> rt_now rt + d + rt_readTimeout rt"
proof (cases "IsConnected rt")
  case False
  with assms show ?thesis by (auto simp: ReceiveTimeout_def)
next
  case True
  with assms(1) obtain e1 rt1 where dl: "setReadDeadline d rt = Some (e1, rt1)"
    by (auto simp: ReceiveTimeout_def bind_eq_Some_conv)
  note dl' = setReadDeadline_Some [OF dl]
  show ?thesis
  proof (cases e1)
    case (Some x)
    with True assms dl dl' show ?thesis by (auto simp: ReceiveTimeout_def)
  next
    case None
    obtain e2 rt2 where rd: "read_buffer 0 packetHeaderSize rt1 = Some (e2, rt2)"
      using True assms(1) dl None by (auto simp: ReceiveTimeout_def bind_eq_Some_conv)
    have now2: "rt_now rt2 \<le> rt_now rt + d"
      using read_buffer_bound [OF rd, of "rt_now rt + d"] dl' None assms(2) by simp
    have "rt_readTimeout rt2 = rt_readTimeout rt"
      using setReadDeadline_config [OF dl] read_buffer_config [OF rd] by (simp add: same_config_def)
    moreover have "rt' = rt2 \<or> (\<exists>sz. receive_body sz rt2 = Some (r, rt'))"
      using True assms(1) dl None rd
      by (auto simp: ReceiveTimeout_def bind_eq_Some_conv split: if_splits option.splits)
    ultimately show ?thesis
      using now2 assms(3) receive_body_bound [of _ rt2 r rt'] by fastforce
  qed
qed

lemma skip_events_bound:
  "skip_events timeout deadline rt = Some (r, rt') \<Longrightarrow>
    0 < timeout \<longrightarrow> 0 < rt_readTimeout rt \<longrightarrow> rt_now rt' \<le> max (rt_now rt) (deadline + rt_readTimeout rt)"
proof (induction rule: skip_events_induct)
  case (received rt p e rt1)
  with ReceiveTimeout_bound [OF received(1)] show ?case by (auto simp: skip_wait_def)
next
  case (ended rt p rt1)
  with ReceiveTimeout_bound [OF ended(1)] show ?case by (auto simp: skip_wait_def)
next
  case (skipped rt p rt1 r rt')
  have "rt_readTimeout rt1 = rt_readTimeout rt"
    using ReceiveTimeout_config [OF skipped(1)] by (simp add: same_config_def)
  with skipped ReceiveTimeout_bound [OF skipped(1)] show ?case by (auto simp: skip_wait_def)
qed simp

text \<open>A successful receive never carries an error text.\<close>

lemma decoded_payload_error:
  "decoded_payload ord t payload p = Some (e, p') \<Longrightarrow> t \<noteq> PacketTypeError \<Longrightarrow>
    pk_ErrorResponse p' = pk_ErrorResponse p"
  by (auto simp: decoded_payload_def split: if_splits)

lemma Packet_UnmarshalBinary_error:
  assumes "Packet_UnmarshalBinary p data = Some (e, p')" and "pk_Type p' \<noteq> PacketTypeError"
  shows "pk_ErrorResponse p' = pk_ErrorResponse p"
proof (cases "length data < packetHeaderSize")
  case False
  then obtain sz t payload where data:
    "data = PutUint32 (Packet_byteOrder p) sz @ PutUint32 (Packet_byteOrder p) t @ payload"
    using packet_header_exists by (metis not_less)
  note dec = assms(1) [unfolded data Packet_UnmarshalBinary_header]
  with runs_SomeD [OF decoded_payload_returns dec] assms(2) decoded_payload_error [OF dec]
  show ?thesis by simp
qed (use assms in \<open>simp add: Packet_UnmarshalBinary_def\<close>)

lemma receive_body_no_error_text:
  assumes "receive_body sz rt = Some ((p, None), rt')"
  shows "pk_ErrorResponse p = ''''"
proof -
  from assms have "\<exists>ord data. Packet_UnmarshalBinary (zero_Packet\<lparr>pk_order := Some ord\<rparr>) data
      = Some (None, p) \<and> pk_Type p \<noteq> PacketTypeError"
    by (auto simp: receive_body_def Let_def bind_eq_Some_conv split: option.splits if_splits)
  then show ?thesis by (auto dest!: Packet_UnmarshalBinary_error) (simp_all add: zero_Packet_def)
qed

lemma ReceiveTimeout_no_error_text:
  assumes "ReceiveTimeout d rt = Some ((p, None), rt')"
  shows "pk_ErrorResponse p = ''''"
proof -
  from assms have "(\<exists>t. p = zero_Packet\<lparr>pk_Type := t\<rparr>)
      \<or> (\<exists>sz t ord. p = zero_Packet\<lparr>pk_Size := sz, pk_Type := t, pk_order := ord\<rparr>)
      \<or> (\<exists>sz rt2. receive_body sz rt2 = Some ((p, None), rt'))"
    by (auto simp: ReceiveTimeout_def bind_eq_Some_conv split: option.splits if_splits)
  then show ?thesis
    using receive_body_no_error_text by (elim disjE exE) (simp_all add: zero_Packet_def)
qed

lemma skip_events_no_error_text:
  "skip_events timeout deadline rt = Some (r, rt') \<Longrightarrow> snd r = None \<longrightarrow> pk_ErrorResponse (fst r) = ''''"
  by (induction rule: skip_events_induct) (auto dest: ReceiveTimeout_no_error_text)

subsection \<open>Properties\<close>

lemma receive_many_received:
  assumes "healthy rt" and "timely T d rt" and "incoming T rt = enc_packets (rt_order rt) ps @ rest"
    and "list_all (\<lambda>(t, payload). payload \<noteq> [] \<and> acceptable rt payload) ps"
  shows "\<exists>rt'. receive_many d (length ps) rt = Some (received_as (rt_order rt) (length (rt_buffer rt)) ps, rt')
    \<and> incoming T rt' = rest \<and> healthy rt' \<and> same_config rt rt'"
  using assms
proof (induction ps arbitrary: rt)
  case Nil
  then show ?case by (simp add: enc_packets_def)
next
  case (Cons p ps)
  obtain t payload where p: "p = (t, payload)" by (cases p)
  let ?ord = "rt_order rt"
  let ?n = "packetHeaderSize + length payload"
  have inc: "incoming T rt = enc_packet ?ord t payload @ enc_packets ?ord ps @ rest"
    and acc: "acceptable rt payload" "payload \<noteq> []"
    using Cons.prems(3,4) by (simp_all add: p enc_packets_def)
  obtain r rt1 where r: "ReceiveTimeout d rt = Some (r, rt1)"
    "r # received_as ?ord (length (rt_buffer rt1)) ps = received_as ?ord (length (rt_buffer rt)) (p # ps)"
    and rt1: "incoming T rt1 = enc_packets ?ord ps @ rest" "healthy rt1" "timely T d rt1" "same_config rt rt1"
  proof (cases "?n \<le> length (rt_buffer rt)")
    case True
    then have fit: "fits rt (t, payload)" using acc by (simp add: fits_def)
    from ReceiveTimeout_fits [OF Cons.prems(1,2) inc fit] True that show thesis by (auto simp: p)
  next
    case False
    with ReceiveTimeout_large [OF Cons.prems(1,2) inc acc(1)] that show thesis by (auto simp: p)
  qed
  have ord: "rt_order rt1 = ?ord" using rt1(4) by (simp add: same_config_def)
  have "list_all (\<lambda>(t, payload). payload \<noteq> [] \<and> acceptable rt1 payload) ps"
    using Cons.prems(4) rt1(4) by (auto simp: list_all_iff acceptable_def same_config_def)
  with Cons.IH [OF rt1(2,3)] rt1(1) ord obtain rt' where
    "receive_many d (length ps) rt1 = Some (received_as ?ord (length (rt_buffer rt1)) ps, rt')"
    "incoming T rt' = rest" "healthy rt'" "same_config rt1 rt'" by auto
  with r same_config_trans [OF rt1(4)] show ?case by (intro exI [of _ rt']) simp
qed

text \<open>
  C12: The packets of a connection come out one by one in the order they were sent, however TCP
  cuts the byte stream into chunks and whenever within the deadlines the chunks arrive: a header
  may be split, several packets may come in one chunk, and what follows stays for the next call.
  Each packet that fits the receive buffer (4096 bytes at first) is the decoding of its own bytes
  alone. A packet within the size limit that is larger than the buffer, and so than every packet
  before it, is misread as an error packet; the stream stays aligned, and from then on the buffer
  has the size of that packet. Packets without a payload are not covered.
\<close>

theorem stream_delivered:
  assumes "healthy rt" and "timely T d rt" and "incoming T rt = enc_packets (rt_order rt) ps @ rest"
    and "list_all (\<lambda>(t, payload). payload \<noteq> [] \<and> acceptable rt payload) ps"
  shows "\<exists>rt'. receive_many d (length ps) rt = Some (received_as (rt_order rt) (length (rt_buffer rt)) ps, rt')
    \<and> incoming T rt' = rest \<and> healthy rt' \<and> same_config rt rt'"
  using assms by (rule receive_many_received)

text \<open>
  A response is found behind any number of asynchronous events: waiting for it returns
  the first packet that is not an event, leaves what follows it in the stream, and records
  the last event that is a state change.
\<close>

lemma response_after_events:
  assumes "healthy rt" and "0 < timeout" and "timely T timeout rt"
    and "incoming T rt = enc_packets (rt_order rt) (event_packets evs) @ enc_packet (rt_order rt) t payload @ rest"
    and "packetHeaderSize < length (rt_buffer rt)" and "int packetHeaderSize < rt_maxPacketSize rt"
    and "fits rt (t, payload)" and "t \<noteq> PacketTypeEvent" and "t \<noteq> PacketTypeNoMoreData"
  shows "\<exists>rt'. receiveSkippingEvents timeout rt = Some (packet_result (rt_order rt) (t, payload), rt')
    \<and> incoming T rt' = rest \<and> healthy rt' \<and> rt_state rt' = last_state (rt_state rt) evs"
proof -
  have "T < rt_now rt + timeout" using assms(2,3) by (simp add: timely_def)
  with skip_events_delivers [of rt timeout T "rt_now rt + timeout" evs t payload rest] assms show ?thesis
    by (auto simp: receiveSkippingEvents_def)
qed

lemma large_packet_received:
  assumes "healthy rt" and "timely T d rt" and "incoming T rt = enc_packet (rt_order rt) t payload @ rest"
    and "acceptable rt payload" and "length (rt_buffer rt) < packetHeaderSize + length payload"
  shows "\<exists>p rt'. ReceiveTimeout d rt =
      Some ((p, Some (Errorf ''receive: error packet returned (%s)'' [AStr (trimStringResponse payload)])), rt')
    \<and> pk_Type p = PacketTypeError \<and> pk_Size p = 0"
  using ReceiveTimeout_large [OF assms] by (auto simp: misread_def zero_Packet_def)

text \<open>
  C38: The first packet that is larger than the receive buffer is misread: the buffer is
  replaced by a new one after the header has been read into the old one, so the decoder
  sees a header of zeros. Whatever QTM sent, even a well-formed parameter or file packet,
  the caller gets an error packet with the payload as its text.
\<close>

theorem large_packet_misread:
  assumes "healthy rt" and "timely T d rt" and "incoming T rt = enc_packet (rt_order rt) t payload @ rest"
    and "acceptable rt payload" and "length (rt_buffer rt) < packetHeaderSize + length payload"
  shows "\<exists>p rt'. ReceiveTimeout d rt =
      Some ((p, Some (Errorf ''receive: error packet returned (%s)'' [AStr (trimStringResponse payload)])), rt')
    \<and> pk_Type p = PacketTypeError \<and> pk_Size p = 0"
  using assms by (rule large_packet_received)

text \<open>
  C14: Waiting for a response always ends: with a positive timeout the call returns, with
  neither a panic nor an endless wait, whatever the server sends (a flood of events, parts
  of packets, nothing); it is over at the deadline plus the time one packet body may take.
  A packet it returns without an error is neither an event nor the no-data marker.
\<close>

lemma response_wait_ends:
  assumes "bounded_waits rt" and "0 < timeout"
  shows "\<exists>p e rt'. receiveSkippingEvents timeout rt = Some ((p, e), rt')
    \<and> rt_now rt' \<le> rt_now rt + timeout + rt_readTimeout rt
    \<and> (e \<noteq> None \<or> (pk_Type p \<noteq> PacketTypeEvent \<and> pk_Type p \<noteq> PacketTypeNoMoreData))"
proof -
  from skip_events_returns [OF assms] obtain p e rt' where
    r: "skip_events timeout (rt_now rt + timeout) rt = Some ((p, e), rt')" by (metis prod.collapse)
  from skip_events_bound [OF r] skip_events_result [OF r] assms r show ?thesis
    by (auto simp: receiveSkippingEvents_def bounded_waits_def)
qed

text \<open>
  A timeout in the middle of a header loses data: when only a part of the next header
  has come by the deadline, the call reports "no more data" without an error, and the
  part that was read is gone; the rest of that packet is what the next call takes for a
  header.
\<close>

lemma partial_header_lost:
  assumes "rt_conn rt = Some c" and "cn_deadline_err c = None" and "packetHeaderSize \<le> length (rt_buffer rt)"
    and "0 < d" and "cn_inbox c = [(t, Chunk part), (t', Chunk others)] @ q"
    and "part \<noteq> []" and "length part < packetHeaderSize"
    and "t < rt_now rt + d" and "rt_now rt + d \<le> t'"
  shows "\<exists>rt' c'. ReceiveTimeout d rt = Some ((zero_Packet\<lparr>pk_Type := PacketTypeNoMoreData\<rparr>, None), rt')
    \<and> rt_conn rt' = Some c' \<and> cn_inbox c' = [(t', Chunk others)] @ q"
proof -
  let ?D = "Some (rt_now rt + d)"
  have "conn_Read ?D packetHeaderSize (rt_now rt) (cn_inbox c)
      = Some (part, None, max (rt_now rt) t, (t', Chunk others) # q)"
    using assms(4-8) by (auto simp: late_def)
  moreover have "conn_Read ?D (packetHeaderSize - length part) (max (rt_now rt) t) ((t', Chunk others) # q)
      = Some ([], Some ioTimeout, rt_now rt + d, (t', Chunk others) # q)"
    using assms(4,8,9) by (auto simp: late_def give_up_def)
  ultimately have "io_ReadFull ?D packetHeaderSize (rt_now rt) (cn_inbox c)
      = Some (part, Some ioTimeout, rt_now rt + d, (t', Chunk others) # q)"
    using assms(7) by (simp add: io_ReadFull_def read_loop_net.simps ioTimeout_def)
  with assms(1-4) show ?thesis
    by (simp add: ReceiveTimeout_def IsConnected_def setReadDeadline_def conn_SetReadDeadline_def
        read_buffer_def ioTimeout_def)
qed

text \<open>
  The ladder of versions that are tried: the requested one first, then only versions
  from the supported range, strictly descending, and, when the requested major version is
  the supported one, all of them older than the request; just the request when
  negotiation is off.
\<close>

lemma version_ladder:
  "hd (versionCandidates rt) = (rt_wantMajor rt, rt_wantMinor rt)
   \<and> (\<exists>minors. tl (versionCandidates rt) = map (Pair DefaultMajorVersion) minors
        \<and> sorted_wrt (>) minors
        \<and> set minors = {m. rt_negotiateVersion rt \<and> MinSupportedMinorVersion \<le> m \<and> m \<le> DefaultMinorVersion
            \<and> \<not> (rt_wantMajor rt = DefaultMajorVersion \<and> rt_wantMinor rt \<le> m)})"
proof -
  have desc: "sorted_wrt (>) (rev [MinSupportedMinorVersion..DefaultMinorVersion])"
    by (simp add: sorted_wrt_rev)
  let ?minors = "if rt_negotiateVersion rt then
      filter (\<lambda>minor. \<not> (rt_wantMajor rt = DefaultMajorVersion \<and> minor \<ge> rt_wantMinor rt))
        (rev [MinSupportedMinorVersion..DefaultMinorVersion]) else []"
  have "sorted_wrt (>) ?minors" using sorted_wrt_filter [OF desc] by simp
  then show ?thesis
    by (intro conjI exI [of _ ?minors]) (auto simp: versionCandidates_def)
qed

text \<open>
  The ladder is not always older than the request: for a major version below the
  supported one it continues with newer versions, although its comment says that newer
  versions are skipped.
\<close>

lemma version_ladder_newer:
  "(1, 28) \<in> set (versionCandidates (NewProtocol ip basePort [WithVersion 0 9]))"
  by (simp add: versionCandidates_def NewProtocol_def WithVersion_def) 

text \<open>
  An error packet without a text is not reported: when QTM sends a packet of type
  error that is only a header, the call returns it without an error, while one with a
  payload is turned into an error.
\<close>

lemma bare_error_packet_accepted:
  assumes "healthy rt" and "timely T d rt" and "incoming T rt = enc_packet (rt_order rt) PacketTypeError [] @ rest"
    and "int packetHeaderSize \<le> rt_maxPacketSize rt"
  shows "\<exists>p rt'. ReceiveTimeout d rt = Some ((p, None), rt') \<and> Packet_Error p"
proof -
  let ?ord = "rt_order rt"
  from assms(1) obtain c where c: "rt_conn rt = Some c" "cn_deadline_err c = None"
    and buf: "packetHeaderSize \<le> length (rt_buffer rt)"
    by (auto simp: healthy_def)
  define dl where "dl = (if d \<le> 0 then None else Some (rt_now rt + d))"
  define rt1 where "rt1 = rt\<lparr>rt_conn := Some (c\<lparr>cn_deadline := dl\<rparr>)\<rparr>"
  have d: "setReadDeadline d rt = Some (None, rt1)"
    using setReadDeadline_ok [OF c] by (simp add: rt1_def dl_def)
  have nl: "\<not> late dl T" using assms(2) by (auto simp: dl_def late_def timely_def)
  let ?hdr = "PutUint32 ?ord 8 @ PutUint32 ?ord 0"
  obtain rt2 where r: "read_buffer 0 packetHeaderSize rt1 = Some (None, rt2)"
    and b2: "rt_buffer rt2 = ?hdr @ drop packetHeaderSize (rt_buffer rt1)" "rt_order rt2 = ?ord"
      "rt_maxPacketSize rt2 = rt_maxPacketSize rt"
    using read_buffer_delivers [of rt1 "c\<lparr>cn_deadline := dl\<rparr>" T ?hdr rest packetHeaderSize 0]
      nl assms(2,3) c buf by (auto simp: rt1_def timely_def incoming_def enc_packet_def)
  have "slice (rt_buffer rt2) 0 4 = Some (PutUint32 ?ord 8)" "slice (rt_buffer rt2) 4 8 = Some (PutUint32 ?ord 0)"
    by (simp_all add: b2 slice_def)
  with d r b2 c assms(4) show ?thesis
    by (simp add: ReceiveTimeout_def IsConnected_def Packet_Error_def)
qed

subsection \<open>Concrete connections\<close>

text \<open>A freshly connected client to which \<open>bs\<close> arrives in two chunks.\<close>

definition demo_conn :: "inbox \<Rightarrow> conn" where
  "demo_conn q = \<lparr>cn_inbox = q, cn_deadline = None, cn_outbox = [], cn_peer = (\<lambda>w. Inr []),
     cn_deadline_err = None\<rparr>"

definition demo_client :: "bytes \<Rightarrow> Protocol" where
  "demo_client bs = (NewProtocol ''qtm'' 22222 [])\<lparr>rt_conn :=
     Some (demo_conn [(1, Chunk (take 3 bs)), (2, Chunk (drop 3 bs))]), rt_sockets := 1\<rparr>"

lemma demo_client [simp]:
  "healthy (demo_client bs)" "incoming 2 (demo_client bs) = bs" "timely 2 Second (demo_client bs)"
  "bounded_waits (demo_client bs)" "rt_order (demo_client bs) = LittleEndian"
  "length (rt_buffer (demo_client bs)) = 4096" "rt_maxPacketSize (demo_client bs) = DefaultMaxPacketSize"
  "rt_now (demo_client bs) = 0" "rt_readTimeout (demo_client bs) = Second"
  by (simp_all add: demo_client_def demo_conn_def healthy_def incoming_def timely_def bounded_waits_def
      NewProtocol_def)

text \<open>The second packet is larger than the buffer, the third is not any more.\<close>

definition demo_packets :: "(u32 \<times> bytes) list" where
  "demo_packets = [(PacketTypeCommand, [79, 75, 0]), (PacketTypeXML, replicate 5000 60), (PacketTypeXML, replicate 4900 62)]"

theorem stream_delivered_witness:
  "\<exists>rt'. receive_many Second (length demo_packets) (demo_client (enc_packets LittleEndian demo_packets @ [9])) =
      Some ([packet_result LittleEndian (PacketTypeCommand, [79, 75, 0]), misread LittleEndian (replicate 5000 60),
        packet_result LittleEndian (PacketTypeXML, replicate 4900 62)], rt') \<and> incoming 2 rt' = [9]"
proof -
  let ?rt = "demo_client (enc_packets LittleEndian demo_packets @ [9])"
  have "list_all (\<lambda>(t, payload). payload \<noteq> [] \<and> acceptable ?rt payload) demo_packets"
    by (simp add: demo_packets_def acceptable_def)
  moreover have "received_as LittleEndian 4096 demo_packets = [packet_result LittleEndian (PacketTypeCommand, [79, 75, 0]),
      misread LittleEndian (replicate 5000 60), packet_result LittleEndian (PacketTypeXML, replicate 4900 62)]"
    by (simp add: demo_packets_def)
  ultimately show ?thesis using stream_delivered [of ?rt 2 Second demo_packets "[9]"] by auto
qed

theorem large_packet_misread_witness:
  "\<exists>p rt'. ReceiveTimeout Second (demo_client (enc_packet LittleEndian PacketTypeXML (replicate 5000 60) @ [])) =
      Some ((p, Some (Errorf ''receive: error packet returned (%s)'' [AStr (trimStringResponse (replicate 5000 60))])), rt')
    \<and> pk_Type p = PacketTypeError \<and> pk_Size p = 0"
  by (rule large_packet_misread [of _ 2 Second PacketTypeXML "replicate 5000 60" "[]"])
    (simp_all add: acceptable_def)

theorem response_wait_ends_witness:
  "\<exists>p e rt'. receiveSkippingEvents 5 (demo_client [1, 2, 3, 4, 5]) = Some ((p, e), rt')
    \<and> rt_now rt' \<le> rt_now (demo_client [1, 2, 3, 4, 5]) + 5 + rt_readTimeout (demo_client [1, 2, 3, 4, 5])
    \<and> (e \<noteq> None \<or> (pk_Type p \<noteq> PacketTypeEvent \<and> pk_Type p \<noteq> PacketTypeNoMoreData))"
  by (rule response_wait_ends) simp_all

theorem partial_header_lost_witness:
  "\<exists>rt' c'. ReceiveTimeout 10 ((NewProtocol ''qtm'' 22222 [])\<lparr>rt_conn :=
        Some (demo_conn ([(1, Chunk [12, 0, 0]), (50, Chunk [0, 1, 0, 0, 0, 79, 75, 0])] @ []))\<rparr>) =
      Some ((zero_Packet\<lparr>pk_Type := PacketTypeNoMoreData\<rparr>, None), rt')
    \<and> rt_conn rt' = Some c' \<and> cn_inbox c' = [(50, Chunk [0, 1, 0, 0, 0, 79, 75, 0])] @ []"
  by (rule partial_header_lost [where t = 1 and part = "[12, 0, 0]"
      and c = "demo_conn ([(1, Chunk [12, 0, 0]), (50, Chunk [0, 1, 0, 0, 0, 79, 75, 0])] @ [])"])
    (simp_all add: demo_conn_def NewProtocol_def)

end
