(* ===== verification/Stringer.thy ===== *)
theory Stringer
  imports Go_Strings
begin

text \<open>
  The generated \<open>String\<close> methods (\<open>*_string.go\<close>): a name is a slice of one constant string
  between two entries of an index table, or \<open>Type(n)\<close> for a value without a name. An index
  that is out of range of the table would be a panic (\<open>None\<close>). The methods share one body,
  \<open>stringer\<close>, and differ in the type's name, the first value and the two tables.
\<close>

definition stringer :: "string \<Rightarrow> int \<Rightarrow> string \<Rightarrow> nat list \<Rightarrow> int \<Rightarrow> string option" where
  "stringer ty first names index i =
     (let idx = i - first in
      if i < first \<or> idx \<ge> int (length index) - 1 then Some (ty @ ''('' @ Itoa i @ '')'')
      else slice names (index ! nat idx) (index ! (nat idx + 1)))"

definition ComponentType_index :: "nat list" where
  "ComponentType_index = [0, 2, 12, 18, 23, 25, 32, 34, 46, 56, 74, 84, 99, 111, 116, 127, 137, 145, 153, 163]"

definition ComponentType_String :: "int \<Rightarrow> string option" where
  "ComponentType_String = stringer ''ComponentType'' 1
     ''3D3DNoLabelsAnalogForce6D6DEuler2D2DLinearized3DResidual3DNoLabelsResidual6DResidual6DEulerResidualAnalogSingleImageForceSingleGazeVectorTimecodeSkeletonEyeTracker''
     ComponentType_index"

definition EventType_index :: "nat list" where
  "EventType_index = [0, 9, 25, 39, 53, 76, 94, 112, 129, 146, 163, 184, 199, 211, 230, 249, 256, 260]"

definition EventType_String :: "u8 \<Rightarrow> string option" where
  "EventType_String i = stringer ''EventType'' 1
     ''ConnectedConnectionClosedCaptureStartedCaptureStoppedCaptureFetchingFinishedCalibrationStartedCalibrationStoppedRtFromFileStartedRtFromFileStoppedWaitingForTriggerCameraSettingsChangedQTMShuttingDownCaptureSavedReprocessingStartedReprocessingStoppedTriggerNone''
     EventType_index (uint i)"

definition PacketType_String :: "u32 \<Rightarrow> string option" where
  "PacketType_String i = stringer ''PacketType'' 0
     ''ErrorCommandXMLDataNoMoreDataC3DFileEventDiscoverQTMFileNone''
     [0, 5, 12, 15, 19, 29, 36, 41, 49, 56, 60] (uint i)"

definition FileType_String :: "u32 \<Rightarrow> string" where
  "FileType_String i = (if i = 5 then ''C3D'' else if i = 8 then ''QTM''
     else ''FileType('' @ Itoa (uint i) @ '')'')"

definition ParameterType_String :: "int \<Rightarrow> string option" where
  "ParameterType_String = stringer ''ParameterType'' 0
     ''AllGeneralCalibration3D6DAnalogForceImageGazeVectorEyeTrackerSkeleton''
     [0, 3, 10, 21, 23, 25, 31, 36, 41, 51, 61, 69]"

definition StreamRateType_String :: "int \<Rightarrow> string option" where
  "StreamRateType_String = stringer ''StreamRateType'' 0 ''AllFramesFrequencyFrequencyDivisor'' [0, 9, 18, 34]"

definition LedMode_String :: "u8 \<Rightarrow> string option" where
  "LedMode_String i = stringer ''LedMode'' 0 ''OnOffPulsing'' [0, 2, 5, 12] (uint i)"

definition LedColor_String :: "u8 \<Rightarrow> string option" where
  "LedColor_String i = stringer ''LedColor'' 0 ''AmberGreenAll'' [0, 5, 10, 13] (uint i)"

definition ImageFormatType_String :: "u32 \<Rightarrow> string option" where
  "ImageFormatType_String i = stringer ''ImageFormatType'' 0 ''RawGreyscaleRawBGRJPGPNG'' [0, 12, 18, 21, 24] (uint i)"

definition TimecodeType_String :: "u32 \<Rightarrow> string option" where
  "TimecodeType_String i = stringer ''TimecodeType'' 0 ''SMPTEIRIGCameraTime'' [0, 5, 9, 19] (uint i)"

text \<open>The table lookups stay in bounds when the table is ascending and ends in the string.\<close>

definition good_table :: "string \<Rightarrow> nat list \<Rightarrow> bool" where
  "good_table names index \<longleftrightarrow> index \<noteq> [] \<and> sorted index \<and> last index \<le> length names"

lemma stringer_total:
  assumes "good_table names index"
  shows "\<exists>s. stringer ty first names index i = Some s"
proof (cases "i < first \<or> i - first \<ge> int (length index) - 1")
  case True
  then show ?thesis by (simp add: stringer_def)
next
  case False
  define k where "k = nat (i - first)"
  from False have k: "k + 1 < length index" by (auto simp: k_def)
  have "index ! k \<le> index ! (k + 1)"
    using assms k by (intro sorted_nth_mono) (auto simp: good_table_def)
  moreover have "index ! (k + 1) \<le> last index"
    using assms k by (auto simp: good_table_def last_conv_nth intro!: sorted_nth_mono)
  ultimately have "slice names (index ! k) (index ! (k + 1)) \<noteq> None"
    using assms by (simp add: slice_def good_table_def)
  with False show ?thesis by (auto simp: stringer_def Let_def k_def)
qed

lemma good_tables:
  "good_table ''OnOffPulsing'' [0, 2, 5, 12]" "good_table ''AmberGreenAll'' [0, 5, 10, 13]"
  by (simp_all add: good_table_def)

end
