(* ===== verification/Commands.thy ===== *)
theory Commands
  imports Protocol Stringer
begin

text \<open>
  Commands (\<open>commands.go\<close>) and the handshake (\<open>Connect\<close> of \<open>protocol.go\<close>): framing what is
  sent, sending a command and waiting for its answer, every command of the client,
  streaming, the UDP data path. \<open>net.ListenUDP\<close> and the dialer are parameters.

  A command returns its error (if any), or a value with an error, and the new state.
\<close>

subsection \<open>Sending\<close>

definition frame_string :: "byte_order \<Rightarrow> string \<Rightarrow> u32 \<Rightarrow> bytes" where
  "frame_string ord s t =
     (let dataSize = length s + packetHeaderSize + 1 in
      PutUint32 ord (of_nat dataSize) @ PutUint32 ord t @ to_bytes s @ [0])"

definition sendString :: "string \<Rightarrow> u32 \<Rightarrow> Protocol \<Rightarrow> err option \<times> Protocol" where
  "sendString s t rt = (case rt_conn rt of
       None \<Rightarrow> (Some ErrNotConnected, rt)
     | Some c \<Rightarrow> (case conn_Write (frame_string (rt_order rt) s t) (rt_now rt) c of
         (Some e, c) \<Rightarrow> (Some (Errorf ''write failed: %w'' [AWrap e]), rt\<lparr>rt_conn := Some c\<rparr>)
       | (None, c) \<Rightarrow> (None, rt\<lparr>rt_conn := Some c\<rparr>)))"

text \<open>\<open>if err := op; err != nil { return fmt.Errorf(f, err) }\<close>\<close>

definition wrap_err :: "string \<Rightarrow> err option \<Rightarrow> err option" where
  "wrap_err f e = map_option (\<lambda>e. Errorf f [AWrap e]) e"

definition wrapped :: "string \<Rightarrow> (err option \<times> Protocol) option \<Rightarrow> (err option \<times> Protocol) option" where
  "wrapped f m = map_option (\<lambda>(e, rt). (wrap_err f e, rt)) m"

definition sendCommand :: "string \<Rightarrow> Protocol \<Rightarrow> err option \<times> Protocol" where
  "sendCommand cmd rt = (case sendString cmd PacketTypeCommand rt of (e, rt) \<Rightarrow>
     (wrap_err ''sendcommand: %w'' e, rt))"

definition sendXML :: "string \<Rightarrow> Protocol \<Rightarrow> err option \<times> Protocol" where
  "sendXML cmd rt = (case sendString cmd PacketTypeXML rt of (e, rt) \<Rightarrow>
     (wrap_err ''sendxml: %w'' e, rt))"

definition SendCommand :: "string \<Rightarrow> Protocol \<Rightarrow> ((string \<times> err option) \<times> Protocol) option" where
  "SendCommand cmd rt = (case sendCommand cmd rt of
       (Some e, rt) \<Rightarrow> Some (('''', Some e), rt)
     | (None, rt) \<Rightarrow> do {
         ((p, e), rt) \<leftarrow> receiveSkippingEvents DefaultCommandTimeout rt;
         case e of
           Some e \<Rightarrow> Some (('''', Some (Errorf ''sendcommand %q: %w'' [AStr cmd, AWrap e])), rt)
         | None \<Rightarrow> Some ((pk_CommandResponse p, None), rt)
       })"

text \<open>What \<open>sendAndWaitForResponse\<close> makes of the packet it received.\<close>

definition response_error :: "string list \<Rightarrow> Packet \<Rightarrow> err option" where
  "response_error expected p =
     (if list_ex (EqualFold (pk_CommandResponse p)) expected then None
      else if pk_CommandResponse p = '''' \<and> pk_ErrorResponse p \<noteq> '''' then
        Some (Errorf ''unexpected error response (%s)'' [AStr (pk_ErrorResponse p)])
      else Some (Errorf ''unexpected response (%s), wanted one of %v''
        [AStr (pk_CommandResponse p), AStrs expected]))"

definition sendAndWaitForResponse :: "(string \<Rightarrow> Protocol \<Rightarrow> err option \<times> Protocol) \<Rightarrow> string \<Rightarrow>
    string list \<Rightarrow> Protocol \<Rightarrow> (err option \<times> Protocol) option" where
  "sendAndWaitForResponse sender s expected rt = (case sender s rt of
       (Some e, rt) \<Rightarrow> Some (Some e, rt)
     | (None, rt) \<Rightarrow> do {
         ((p, e), rt) \<leftarrow> receiveSkippingEvents DefaultCommandTimeout rt;
         case e of
           Some e \<Rightarrow> Some (Some e, rt)
         | None \<Rightarrow> Some (response_error expected p, rt)
       })"

subsection \<open>Versions and state\<close>

definition version_string :: "int \<Rightarrow> int \<Rightarrow> string" where
  "version_string major minor = Itoa major @ ''.'' @ Itoa minor"

definition SetVersion :: "int \<Rightarrow> int \<Rightarrow> Protocol \<Rightarrow> (err option \<times> Protocol) option" where
  "SetVersion major minor rt = do {
     let ver = version_string major minor;
     (e, rt) \<leftarrow> sendAndWaitForResponse sendCommand (''Version '' @ ver) [''Version set to '' @ ver] rt;
     case e of
       Some e \<Rightarrow> Some (Some (Errorf ''setversion %s: %w'' [AStr ver, AWrap e]), rt)
     | None \<Rightarrow> Some (None, rt\<lparr>rt_majorVersion := major, rt_minorVersion := minor\<rparr>)
   }"

definition GetQTMVersion :: "Protocol \<Rightarrow> ((string \<times> err option) \<times> Protocol) option" where
  "GetQTMVersion rt = do {
     ((resp, e), rt) \<leftarrow> SendCommand ''QTMVersion'' rt;
     case e of
       Some e \<Rightarrow> Some (('''', Some (Errorf ''getqtmversion: %w'' [AWrap e])), rt)
     | None \<Rightarrow> Some ((resp, None), rt)
   }"

definition GetByteOrder :: "Protocol \<Rightarrow> ((bool \<times> err option) \<times> Protocol) option" where
  "GetByteOrder rt = do {
     ((resp, e), rt) \<leftarrow> SendCommand ''ByteOrder'' rt;
     case e of
       Some e \<Rightarrow> Some ((False, Some (Errorf ''getbyteorder: %w'' [AWrap e])), rt)
     | None \<Rightarrow> Some ((resp = ''Byte order is big endian'', None), rt)
   }"

definition CheckLicense :: "string \<Rightarrow> Protocol \<Rightarrow> (err option \<times> Protocol) option" where
  "CheckLicense licenseCode rt = do {
     ((resp, e), rt) \<leftarrow> SendCommand (''CheckLicense '' @ licenseCode) rt;
     case e of
       Some e \<Rightarrow> Some (Some (Errorf ''checklicense: %w'' [AWrap e]), rt)
     | None \<Rightarrow>
         if resp \<noteq> ''License pass'' then Some (Some (Errorf ''checklicense: rejected (%s)'' [AStr resp]), rt)
         else Some (None, rt)
   }"

definition GetState :: "Protocol \<Rightarrow> ((u8 \<times> err option) \<times> Protocol) option" where
  "GetState rt =
     (let cmd = (if rt_majorVersion rt = 1 \<and> rt_minorVersion rt \<le> 9 then ''GetLastEvent'' else ''GetState'')
      in case sendCommand cmd rt of
        (Some e, rt) \<Rightarrow> Some ((EventTypeNone, Some (Errorf ''getstate: %w'' [AWrap e])), rt)
      | (None, rt) \<Rightarrow> do {
          ((r, e), rt) \<leftarrow> poll (rt_now rt + DefaultCommandTimeout)
            (\<lambda>p. if pk_Type p = PacketTypeEvent then Some (pk_Event p) else None) rt;
          case r of
            Some ev \<Rightarrow> Some ((ev, None), rt)
          | None \<Rightarrow> (case e of
              Some e \<Rightarrow> Some ((EventTypeNone, Some (Errorf ''getstate: %w'' [AWrap e])), rt)
            | None \<Rightarrow> Some ((EventTypeNone, Some (Errorf ''getstate: %w'' [AWrap ErrTimeout])), rt))
        })"

subsection \<open>Streaming\<close>

abbreviation StreamRateTypeAllFrames :: int where "StreamRateTypeAllFrames \<equiv> 0"
abbreviation StreamRateTypeFrequency :: int where "StreamRateTypeFrequency \<equiv> 1"
abbreviation StreamRateTypeFrequencyDivisor :: int where "StreamRateTypeFrequencyDivisor \<equiv> 2"

record ComponentOptions =
  co_AnalogChannels :: string
  co_SkeletonGlobal :: bool

definition zero_ComponentOptions :: ComponentOptions where
  "zero_ComponentOptions = \<lparr>co_AnalogChannels = '''', co_SkeletonGlobal = False\<rparr>"

definition componentName :: "int \<Rightarrow> string option" where
  "componentName c =
     (if c = ComponentType3D then Some ''3D''
      else if c = ComponentType3DNoLabels then Some ''3DNoLabels''
      else if c = ComponentTypeAnalog then Some ''Analog''
      else if c = ComponentTypeForce then Some ''Force''
      else if c = ComponentType6D then Some ''6D''
      else if c = ComponentType6DEuler then Some ''6DEuler''
      else if c = ComponentType2D then Some ''2D''
      else if c = ComponentType2DLinearized then Some ''2DLin''
      else if c = ComponentType3DResidual then Some ''3DRes''
      else if c = ComponentType3DNoLabelsResidual then Some ''3DNoLabelsRes''
      else if c = ComponentType6DResidual then Some ''6DRes''
      else if c = ComponentType6DEulerResidual then Some ''6DEulerRes''
      else if c = ComponentTypeAnalogSingle then Some ''AnalogSingle''
      else if c = ComponentTypeImage then Some ''Image''
      else if c = ComponentTypeForceSingle then Some ''ForceSingle''
      else if c = ComponentTypeGazeVector then Some ''GazeVector''
      else if c = ComponentTypeTimecode then Some ''Timecode''
      else if c = ComponentTypeSkeleton then Some ''Skeleton''
      else if c = ComponentTypeEyeTracker then Some ''EyeTracker''
      else None)"

text \<open>The token of one component with its option.\<close>

definition component_part :: "ComponentOptions \<Rightarrow> int \<Rightarrow> string \<Rightarrow> string" where
  "component_part opts c name =
     (if (c = ComponentTypeAnalog \<or> c = ComponentTypeAnalogSingle) \<and> co_AnalogChannels opts \<noteq> ''''
      then name @ '':'' @ co_AnalogChannels opts
      else if c = ComponentTypeSkeleton \<and> co_SkeletonGlobal opts then name @ '':global''
      else name)"

fun component_parts :: "ComponentOptions \<Rightarrow> int list \<Rightarrow> err + string list" where
  "component_parts opts [] = Inr []"
| "component_parts opts (c # cs) = (case componentName c of
     None \<Rightarrow> Inl (Errorf ''unknown component type %d'' [AInt c])
   | Some name \<Rightarrow> (case component_parts opts cs of
       Inl e \<Rightarrow> Inl e
     | Inr parts \<Rightarrow> Inr (component_part opts c name # parts)))"

definition componentString :: "ComponentOptions \<Rightarrow> int list \<Rightarrow> err + string" where
  "componentString opts components = (case component_parts opts components of
     Inl e \<Rightarrow> Inl e | Inr parts \<Rightarrow> Inr (Join parts '' ''))"

definition GetCurrentFrameWithOptions :: "ComponentOptions \<Rightarrow> int list \<Rightarrow> Protocol \<Rightarrow> err option \<times> Protocol" where
  "GetCurrentFrameWithOptions opts components rt = (case componentString opts components of
       Inl e \<Rightarrow> (Some (Errorf ''getcurrentframe: %w'' [AWrap e]), rt)
     | Inr cs \<Rightarrow> (case sendCommand (''GetCurrentFrame '' @ cs) rt of (e, rt) \<Rightarrow>
         (wrap_err ''getcurrentframe: %w'' e, rt)))"

definition GetCurrentFrame :: "int list \<Rightarrow> Protocol \<Rightarrow> err option \<times> Protocol" where
  "GetCurrentFrame = GetCurrentFrameWithOptions zero_ComponentOptions"

definition rate_string :: "int \<Rightarrow> int \<Rightarrow> string option" where
  "rate_string rate value =
     (if rate = StreamRateTypeAllFrames then Some '' AllFrames''
      else if rate = StreamRateTypeFrequency then Some ('' Frequency:'' @ Itoa value)
      else if rate = StreamRateTypeFrequencyDivisor then Some ('' FrequencyDivisor:'' @ Itoa value)
      else None)"

definition udp_string :: "int \<Rightarrow> string \<Rightarrow> string" where
  "udp_string udpPort udpAddr =
     (if udpPort > 0 then '' UDP'' @ (if udpAddr \<noteq> '''' then '':'' @ udpAddr else '''') @ '':'' @ Itoa udpPort
      else '''')"

text \<open>The text of the command that is built before anything is sent.\<close>

definition stream_command :: "int \<Rightarrow> int \<Rightarrow> int \<Rightarrow> string \<Rightarrow> ComponentOptions \<Rightarrow> int list \<Rightarrow> err + string" where
  "stream_command rate value udpPort udpAddr opts components = (case rate_string rate value of
       None \<Rightarrow> Inl (Errorf ''streamframes: invalid rate type %d'' [AInt rate])
     | Some r \<Rightarrow> (case componentString opts components of
         Inl e \<Rightarrow> Inl (Errorf ''streamframes: %w'' [AWrap e])
       | Inr cs \<Rightarrow>
           if cs = '''' then Inl (Errorf ''streamframes: no components requested'' [])
           else Inr (''StreamFrames'' @ r @ udp_string udpPort udpAddr @ '' '' @ cs)))"

definition streamFrames :: "int \<Rightarrow> int \<Rightarrow> int \<Rightarrow> string \<Rightarrow> ComponentOptions \<Rightarrow> int list \<Rightarrow> Protocol \<Rightarrow>
    err option \<times> Protocol" where
  "streamFrames rate value udpPort udpAddr opts components rt =
     (case stream_command rate value udpPort udpAddr opts components of
       Inl e \<Rightarrow> (Some e, rt)
     | Inr cmd \<Rightarrow> (case sendCommand cmd rt of (e, rt) \<Rightarrow> (wrap_err ''streamframes: %w'' e, rt)))"

definition StreamFramesWithOptions :: "int \<Rightarrow> int \<Rightarrow> ComponentOptions \<Rightarrow> int list \<Rightarrow> Protocol \<Rightarrow> err option \<times> Protocol" where
  "StreamFramesWithOptions rate value opts components = streamFrames rate value 0 '''' opts components"

definition StreamFrames :: "int \<Rightarrow> int \<Rightarrow> int list \<Rightarrow> Protocol \<Rightarrow> err option \<times> Protocol" where
  "StreamFrames rate value components = StreamFramesWithOptions rate value zero_ComponentOptions components"

definition StreamFramesAll :: "int list \<Rightarrow> Protocol \<Rightarrow> err option \<times> Protocol" where
  "StreamFramesAll components = StreamFrames StreamRateTypeAllFrames 0 components"

definition StreamFramesUDP :: "int \<Rightarrow> int \<Rightarrow> int \<Rightarrow> string \<Rightarrow> ComponentOptions \<Rightarrow> int list \<Rightarrow> Protocol \<Rightarrow>
    err option \<times> Protocol" where
  "StreamFramesUDP rate value udpPort udpAddr opts components rt =
     (if udpPort \<le> 0 \<or> udpPort > 65535 then
        (Some (Errorf ''streamframesudp: invalid udp port %d'' [AInt udpPort]), rt)
      else if length udpAddr > 64 then (Some (Errorf ''streamframesudp: udp address too long'' []), rt)
      else streamFrames rate value udpPort udpAddr opts components rt)"

definition StreamFramesStop :: "Protocol \<Rightarrow> err option \<times> Protocol" where
  "StreamFramesStop rt = (case sendCommand ''StreamFrames Stop'' rt of (e, rt) \<Rightarrow>
     (wrap_err ''streamframesstop: %w'' e, rt))"

subsection \<open>The UDP data path\<close>

definition close_udp :: "Protocol \<Rightarrow> Protocol" where
  "close_udp rt = rt\<lparr>rt_udpConn := None, rt_sockets := rt_sockets rt - 1\<rparr>"

definition EnableUDPStream :: "(int \<Rightarrow> err + udp_conn) \<Rightarrow> int \<Rightarrow> Protocol \<Rightarrow> (int \<times> err option) \<times> Protocol" where
  "EnableUDPStream listenUDP p rt =
     (let rt = (if rt_udpConn rt \<noteq> None then close_udp rt else rt) in
      case listenUDP p of
        Inl e \<Rightarrow> ((0, Some (Errorf ''enableudpstream: listen: %w'' [AWrap e])), rt)
      | Inr u \<Rightarrow>
          let rt = rt\<lparr>rt_udpConn := Some u, rt_sockets := rt_sockets rt + 1\<rparr> in
          case ud_port u of
            None \<Rightarrow> ((0, Some (Errorf ''enableudpstream: unexpected local address type'' [])), close_udp rt)
          | Some local \<Rightarrow> ((local, None), rt))"

definition UDPServerPort :: "Protocol \<Rightarrow> int" where
  "UDPServerPort rt = (case rt_udpConn rt of
       None \<Rightarrow> 0
     | Some u \<Rightarrow> (case ud_port u of Some local \<Rightarrow> local | None \<Rightarrow> 0))"

abbreviation maxUDPDatagramSize :: nat where "maxUDPDatagramSize \<equiv> 65536"

text \<open>\<open>ReadFromUDP\<close>: one datagram, cut to the size of the buffer.\<close>

fun udp_Read :: "int option \<Rightarrow> nat \<Rightarrow> int \<Rightarrow> (int \<times> (err + bytes)) list \<Rightarrow>
    (bytes \<times> err option \<times> int \<times> (int \<times> (err + bytes)) list) option" where
  "udp_Read dl n now [] =
     (if dl = None then None else Some ([], Some ioTimeout, give_up dl now, []))"
| "udp_Read dl n now ((t, d) # q) =
     (if late dl (max now t) then Some ([], Some ioTimeout, give_up dl now, (t, d) # q)
      else case d of
        Inl e \<Rightarrow> Some ([], Some e, max now t, q)
      | Inr bs \<Rightarrow> Some (take n bs, None, max now t, q))"

definition ReceiveUDP :: "Protocol \<Rightarrow> ((Packet \<times> err option) \<times> Protocol) option" where
  "ReceiveUDP rt = (case rt_udpConn rt of
       None \<Rightarrow> Some ((none_Packet, Some (Errorf ''receiveudp: %w: call EnableUDPStream first'' [AWrap ErrNotConnected])), rt)
     | Some u \<Rightarrow>
         if rt_readTimeout rt > 0 \<and> ud_deadline_err u \<noteq> None then
           Some ((none_Packet, Some (Errorf ''receiveudp: set deadline: %w'' [AWrap (the (ud_deadline_err u))])), rt)
         else do {
           let u = (if rt_readTimeout rt > 0 then u\<lparr>ud_deadline := Some (rt_now rt + rt_readTimeout rt)\<rparr> else u);
           let buf = (case rt_udpBuffer rt of None \<Rightarrow> replicate maxUDPDatagramSize 0 | Some buf \<Rightarrow> buf);
           (bs, e, now, q) \<leftarrow> udp_Read (ud_deadline u) (length buf) (rt_now rt) (ud_inbox u);
           let n = length bs;
           let buf = bs @ drop n buf;
           let rt = rt\<lparr>rt_udpConn := Some (u\<lparr>ud_inbox := q\<rparr>), rt_now := now, rt_udpBuffer := Some buf\<rparr>;
           case e of
             Some e \<Rightarrow>
               if isTimeout e then Some ((zero_Packet\<lparr>pk_Type := PacketTypeNoMoreData\<rparr>, None), rt)
               else Some ((none_Packet, Some (Errorf ''receiveudp: read: %w'' [AWrap e])), rt)
           | None \<Rightarrow>
               if n < packetHeaderSize then
                 Some ((none_Packet, Some (Errorf ''receiveudp: datagram too short (%d bytes)'' [AInt (int n)])), rt)
               else do {
                 data \<leftarrow> slice buf 0 n;
                 (e, p) \<leftarrow> Packet_UnmarshalBinary (zero_Packet\<lparr>pk_order := Some (rt_order rt)\<rparr>) data;
                 case e of
                   Some e \<Rightarrow> Some ((none_Packet, Some (Errorf ''receiveudp: unmarshal: %w'' [AWrap e])), rt)
                 | None \<Rightarrow> Some ((p, None), rt)
               }
         })"

subsection \<open>Commands that wait for their answer\<close>

definition TakeControl :: "string \<Rightarrow> Protocol \<Rightarrow> (err option \<times> Protocol) option" where
  "TakeControl password rt =
     (let cmd = (if password \<noteq> '''' then ''TakeControl '' @ password else ''TakeControl'') in
      wrapped ''takecontrol: %w''
        (sendAndWaitForResponse sendCommand cmd [''You are now master'', ''You are already master''] rt))"

definition ReleaseControl :: "Protocol \<Rightarrow> (err option \<times> Protocol) option" where
  "ReleaseControl rt = wrapped ''releasecontrol: %w''
     (sendAndWaitForResponse sendCommand ''ReleaseControl''
       [''You are now a regular client'', ''You are already a regular client''] rt)"

definition New :: "Protocol \<Rightarrow> (err option \<times> Protocol) option" where
  "New rt = wrapped ''new: %w''
     (sendAndWaitForResponse sendCommand ''New'' [''Creating new connection'', ''Already connected''] rt)"

definition Close :: "Protocol \<Rightarrow> (err option \<times> Protocol) option" where
  "Close rt = wrapped ''close: %w''
     (sendAndWaitForResponse sendCommand ''Close''
       [''Closing connection'', ''File closed'', ''Closing file'', ''No connection to close''] rt)"

definition Start :: "bool \<Rightarrow> Protocol \<Rightarrow> (err option \<times> Protocol) option" where
  "Start rtFromFile rt = wrapped ''start: %w''
     (sendAndWaitForResponse sendCommand (if rtFromFile then ''Start RTFromFile'' else ''Start'')
       [''Starting measurement'', ''Starting RT from file''] rt)"

definition Stop :: "Protocol \<Rightarrow> (err option \<times> Protocol) option" where
  "Stop rt = wrapped ''stop: %w''
     (sendAndWaitForResponse sendCommand ''Stop'' [''Stopping measurement''] rt)"

definition Load :: "string \<Rightarrow> Protocol \<Rightarrow> (err option \<times> Protocol) option" where
  "Load filename rt = wrapped ''load: %w''
     (sendAndWaitForResponse sendCommand (''Load '' @ filename) [''Measurement loaded''] rt)"

definition Save :: "string \<Rightarrow> bool \<Rightarrow> Protocol \<Rightarrow> (err option \<times> Protocol) option" where
  "Save filename overwrite rt =
     (let cmd = (if overwrite then ''Save '' @ filename @ '' Overwrite'' else ''Save '' @ filename) in
      wrapped ''save: %w''
        (sendAndWaitForResponse sendCommand cmd [''Measurement saved'', ''Measurement saved as '' @ filename] rt))"

definition LoadProject :: "string \<Rightarrow> Protocol \<Rightarrow> (err option \<times> Protocol) option" where
  "LoadProject path rt = wrapped ''loadproject: %w''
     (sendAndWaitForResponse sendCommand (''LoadProject '' @ path) [''Project loaded''] rt)"

definition Trig :: "Protocol \<Rightarrow> (err option \<times> Protocol) option" where
  "Trig rt = wrapped ''trig: %w'' (sendAndWaitForResponse sendCommand ''Trig'' [''Trig ok''] rt)"

definition SetQTMEvent :: "string \<Rightarrow> Protocol \<Rightarrow> (err option \<times> Protocol) option" where
  "SetQTMEvent label rt =
     (let cmd = (if rt_majorVersion rt = 1 \<and> rt_minorVersion rt \<le> 7 then ''Event '' else ''SetQTMEvent '') in
      wrapped ''setqtmevent: %w'' (sendAndWaitForResponse sendCommand (cmd @ label) [''Event set''] rt))"

definition Reprocess :: "Protocol \<Rightarrow> (err option \<times> Protocol) option" where
  "Reprocess rt = wrapped ''reprocess: %w''
     (sendAndWaitForResponse sendCommand ''Reprocess'' [''Reprocessing file''] rt)"

definition Quit :: "Protocol \<Rightarrow> (err option \<times> Protocol) option" where
  "Quit rt = wrapped ''quit: %w'' (sendAndWaitForResponse sendCommand ''Quit'' [''Bye bye''] rt)"

definition Led :: "int \<Rightarrow> u8 \<Rightarrow> u8 \<Rightarrow> Protocol \<Rightarrow> (err option \<times> Protocol) option" where
  "Led cameraNumber mode color rt = do {
     m \<leftarrow> LedMode_String mode;
     c \<leftarrow> LedColor_String color;
     let cmd = ''Led '' @ Itoa cameraNumber @ '' '' @ m @ '' '' @ c;
     Some (case sendCommand cmd rt of (e, rt) \<Rightarrow> (wrap_err ''led: %w'' e, rt))
   }"

subsection \<open>File transfers\<close>

definition getCapture :: "string \<Rightarrow> u32 \<Rightarrow> Protocol \<Rightarrow> ((FilePacket option \<times> err option) \<times> Protocol) option" where
  "getCapture cmd want rt = do {
     (e, rt) \<leftarrow> sendAndWaitForResponse sendCommand cmd [''Sending capture''] rt;
     case e of
       Some e \<Rightarrow> Some ((None, Some (Errorf ''%s: %w'' [AStr (ToLower cmd), AWrap e])), rt)
     | None \<Rightarrow> do {
         ((p, e), rt) \<leftarrow> receiveSkippingEvents DefaultFileTimeout rt;
         case e of
           Some e \<Rightarrow> Some ((None, Some (Errorf ''%s: %w'' [AStr (ToLower cmd), AWrap e])), rt)
         | None \<Rightarrow>
             if pk_Type p \<noteq> want then
               Some ((None, Some (Errorf ''%s: expected packet type %v, got %v''
                 [AStr (ToLower cmd), AInt (uint want), AInt (uint (pk_Type p))])), rt)
             else Some ((Some (pk_File p), None), rt)
       }
   }"

definition GetCaptureC3D :: "Protocol \<Rightarrow> ((FilePacket option \<times> err option) \<times> Protocol) option" where
  "GetCaptureC3D = getCapture ''GetCaptureC3D'' PacketTypeC3DFile"

definition GetCaptureQTM :: "Protocol \<Rightarrow> ((FilePacket option \<times> err option) \<times> Protocol) option" where
  "GetCaptureQTM = getCapture ''GetCaptureQTM'' PacketTypeQTMFile"

text \<open>The two \<open>SaveCapture\<close> functions: \<open>get\<close> is the download; a nil file pointer would be a panic.\<close>

definition save_capture :: "(Protocol \<Rightarrow> ((FilePacket option \<times> err option) \<times> Protocol) option) \<Rightarrow>
    (string \<Rightarrow> bytes \<Rightarrow> int \<Rightarrow> 'w \<Rightarrow> err option \<times> 'w) \<Rightarrow> string \<Rightarrow> 'w \<Rightarrow> Protocol \<Rightarrow>
    ((err option \<times> 'w) \<times> Protocol) option" where
  "save_capture get os_WriteFile path w rt = do {
     ((f, e), rt) \<leftarrow> get rt;
     case e of
       Some e \<Rightarrow> Some ((Some e, w), rt)
     | None \<Rightarrow> do { f \<leftarrow> f; Some (WriteFile os_WriteFile f path w, rt) }
   }"

definition SaveCaptureC3D :: "(string \<Rightarrow> bytes \<Rightarrow> int \<Rightarrow> 'w \<Rightarrow> err option \<times> 'w) \<Rightarrow> string \<Rightarrow> 'w \<Rightarrow> Protocol \<Rightarrow>
    ((err option \<times> 'w) \<times> Protocol) option" where
  "SaveCaptureC3D = save_capture GetCaptureC3D"

definition SaveCaptureQTM :: "(string \<Rightarrow> bytes \<Rightarrow> int \<Rightarrow> 'w \<Rightarrow> err option \<times> 'w) \<Rightarrow> string \<Rightarrow> 'w \<Rightarrow> Protocol \<Rightarrow>
    ((err option \<times> 'w) \<times> Protocol) option" where
  "SaveCaptureQTM = save_capture GetCaptureQTM"

subsection \<open>Calibration\<close>

definition calibration_answer :: "Packet \<Rightarrow> (string + unit) option" where
  "calibration_answer p =
     (if pk_Type p = PacketTypeXML then Some (Inl (pk_XMLResponse p))
      else if pk_Type p = PacketTypeEvent then
        (if pk_Event p = EventTypeConnectionClosed then Some (Inr ()) else None)
      else None)"

definition Calibrate :: "bool \<Rightarrow> int \<Rightarrow> Protocol \<Rightarrow> ((string \<times> err option) \<times> Protocol) option" where
  "Calibrate refine timeout rt =
     (let timeout = (if timeout \<le> 0 then DefaultCalibrationTimeout else timeout);
          cmd = (if refine then ''Calibrate Refine'' else ''Calibrate'')
      in do {
        (e, rt) \<leftarrow> sendAndWaitForResponse sendCommand cmd [''Starting calibration''] rt;
        case e of
          Some e \<Rightarrow> Some (('''', Some (Errorf ''calibrate: %w'' [AWrap e])), rt)
        | None \<Rightarrow> do {
            ((r, e), rt) \<leftarrow> poll (rt_now rt + timeout) calibration_answer rt;
            case r of
              Some (Inl xml) \<Rightarrow> Some ((xml, None), rt)
            | Some (Inr _) \<Rightarrow> Some (('''', Some (Errorf ''calibrate: connection closed during calibration'' [])), rt)
            | None \<Rightarrow> (case e of
                Some e \<Rightarrow> Some (('''', Some (Errorf ''calibrate: %w'' [AWrap e])), rt)
              | None \<Rightarrow> Some (('''', Some (Errorf ''calibrate: %w waiting for calibration result''
                  [AWrap ErrTimeout])), rt))
          }
      })"

end
