(* ===== verification/Handshake.thy ===== *)
theory Handshake
  imports Commands
begin

text \<open>
  \<open>Connect\<close> of \<open>protocol.go\<close>: dial, read the welcome, go down the ladder of versions. The
  dialer is a parameter: it maps the address, the timeout and the time to an error or a
  connection, and the time when it is done.
\<close>

type_synonym dialer = "string \<Rightarrow> int \<Rightarrow> int \<Rightarrow> (err + conn) \<times> int"

definition qtmConnectedResponse :: string where
  "qtmConnectedResponse = ''QTM RT Interface connected''"

text \<open>The loop over the candidates, and what follows it.\<close>

fun try_versions :: "(int \<times> int) list \<Rightarrow> err option \<Rightarrow> Protocol \<Rightarrow> (err option \<times> Protocol) option" where
  "try_versions [] lastErr rt =
     (let rt = Disconnect rt;
          lastErr = (case lastErr of None \<Rightarrow> ErrVersionNotSupported | Some e \<Rightarrow> e)
      in Some (Some (Errorf ''connect: %w (tried %d.%d down to %d.%d): %v''
        [AWrap ErrVersionNotSupported, AInt (rt_wantMajor rt), AInt (rt_wantMinor rt),
         AInt DefaultMajorVersion, AInt MinSupportedMinorVersion, AErr lastErr]), rt))"
| "try_versions ((major, minor) # vs) lastErr rt = do {
     (e, rt) \<leftarrow> SetVersion major minor rt;
     case e of
       Some e \<Rightarrow> try_versions vs (Some e) rt
     | None \<Rightarrow> do { (_, rt) \<leftarrow> GetState rt; Some (None, rt) }
   }"

definition Connect :: "dialer \<Rightarrow> Protocol \<Rightarrow> (err option \<times> Protocol) option" where
  "Connect dial rt =
     (let rt = (if IsConnected rt then Disconnect rt else rt);
          addr = JoinHostPort (rt_ip rt) (Itoa (port rt))
      in case dial addr (rt_connectTimeout rt) (rt_now rt) of
        (Inl e, now) \<Rightarrow> Some (Some (Errorf ''connect: dial %s: %w'' [AStr addr, AWrap e]), rt\<lparr>rt_now := now\<rparr>)
      | (Inr c, now) \<Rightarrow> do {
          let rt = rt\<lparr>rt_conn := Some c, rt_now := now, rt_sockets := rt_sockets rt + 1\<rparr>;
          ((p, e), rt) \<leftarrow> ReceiveTimeout (rt_connectTimeout rt) rt;
          case e of
            Some e \<Rightarrow> Some (Some (Errorf ''connect: welcome: %w'' [AWrap e]), Disconnect rt)
          | None \<Rightarrow>
              if pk_CommandResponse p \<noteq> qtmConnectedResponse then
                Some (Some (Errorf ''connect: unexpected welcome message (%q)'' [AStr (pk_CommandResponse p)]),
                  Disconnect rt)
              else try_versions (versionCandidates rt) None rt
        })"

subsection \<open>What the commands keep\<close>

text \<open>
  Everything but the negotiated version: the sockets, the configuration, whether there is
  a connection.
\<close>

definition same_link :: "Protocol \<Rightarrow> Protocol \<Rightarrow> bool" where
  "same_link rt rt' \<longleftrightarrow> same_config
     (rt\<lparr>rt_majorVersion := 0, rt_minorVersion := 0\<rparr>) (rt'\<lparr>rt_majorVersion := 0, rt_minorVersion := 0\<rparr>)"

lemma same_config_link: "same_config rt rt' \<Longrightarrow> same_link rt rt'"
  by (simp add: same_link_def same_config_def)

lemma same_link_refl [simp]: "same_link rt rt"
  by (simp add: same_link_def)

lemma same_link_trans: "same_link rt rt' \<Longrightarrow> same_link rt' rt'' \<Longrightarrow> same_link rt rt''"
  by (auto simp: same_link_def dest: same_config_trans)

lemma same_link_version [simp]:
  "same_link rt (rt'\<lparr>rt_majorVersion := a, rt_minorVersion := b\<rparr>) = same_link rt rt'"
  by (simp add: same_link_def)

lemma bounded_waits_link: "same_link rt rt' \<Longrightarrow> bounded_waits rt \<Longrightarrow> bounded_waits rt'"
  by (auto simp: same_link_def same_config_def bounded_waits_def)

lemma conn_Write_config:
  "rt_conn rt = Some c \<Longrightarrow> conn_Write data now c = (e, c') \<Longrightarrow> same_config rt (rt\<lparr>rt_conn := Some c'\<rparr>)"
  by (simp add: same_config_def)

lemma sendString_config: "sendString s t rt = (e, rt') \<Longrightarrow> same_config rt rt'"
  by (auto simp: sendString_def dest: conn_Write_config split: option.splits prod.splits)

lemma sendString_now: "sendString s t rt = (e, rt') \<Longrightarrow> rt_now rt' = rt_now rt"
  by (auto simp: sendString_def split: option.splits prod.splits)

lemma sendString_offline: "rt_conn rt = None \<Longrightarrow> sendString s t rt = (Some ErrNotConnected, rt)"
  by (simp add: sendString_def)

text \<open>What \<open>sendAndWaitForResponse\<close> needs of the function that sends.\<close>

locale sender =
  fixes send :: "string \<Rightarrow> Protocol \<Rightarrow> err option \<times> Protocol"
  assumes send_config: "send s rt = (e, rt') \<Longrightarrow> same_config rt rt'"
    and send_offline: "rt_conn rt = None \<Longrightarrow> \<exists>e. send s rt = (Some e, rt) \<and> errors_Is e ErrNotConnected"
begin

lemma answer_config:
  "sendAndWaitForResponse send s expected rt = Some (e, rt') \<Longrightarrow> same_config rt rt'"
  by (auto simp: sendAndWaitForResponse_def receiveSkippingEvents_def bind_eq_Some_conv
      dest: send_config skip_events_config intro: same_config_trans split: option.splits prod.splits)

lemma answer_returns:
  assumes "bounded_waits rt"
  shows "\<exists>r. sendAndWaitForResponse send s expected rt = Some r"
proof -
  obtain e rt1 where s: "send s rt = (e, rt1)" by fastforce
  then have b: "bounded_waits rt1" using assms send_config bounded_waits_config by blast
  then obtain p e2 rt2 where "receiveSkippingEvents DefaultCommandTimeout rt1 = Some ((p, e2), rt2)"
    using skip_events_returns [OF b, of DefaultCommandTimeout "rt_now rt1 + DefaultCommandTimeout"]
    by (auto simp: receiveSkippingEvents_def)
  with s show ?thesis
    by (cases e; cases e2) (simp_all add: sendAndWaitForResponse_def)
qed

lemma answer_offline:
  "rt_conn rt = None \<Longrightarrow>
    \<exists>e. sendAndWaitForResponse send s expected rt = Some (Some e, rt) \<and> errors_Is e ErrNotConnected"
  using send_offline [of rt s] by (auto simp: sendAndWaitForResponse_def)

end

lemma wrap_err_simps [simp]: "wrap_err f None = None" "wrap_err f (Some e) = Some (Errorf f [AWrap e])"
  by (simp_all add: wrap_err_def)

interpretation cmd: sender sendCommand
proof
  show "sendCommand s rt = (e, rt') \<Longrightarrow> same_config rt rt'" for s rt e rt'
    by (auto simp: sendCommand_def dest: sendString_config split: prod.splits)
  show "rt_conn rt = None \<Longrightarrow> \<exists>e. sendCommand s rt = (Some e, rt) \<and> errors_Is e ErrNotConnected" for s rt
    by (simp add: sendCommand_def sendString_offline)
qed

interpretation xml: sender sendXML
proof
  show "sendXML s rt = (e, rt') \<Longrightarrow> same_config rt rt'" for s rt e rt'
    by (auto simp: sendXML_def dest: sendString_config split: prod.splits)
  show "rt_conn rt = None \<Longrightarrow> \<exists>e. sendXML s rt = (Some e, rt) \<and> errors_Is e ErrNotConnected" for s rt
    by (simp add: sendXML_def sendString_offline)
qed

lemma SetVersion_link:
  assumes "SetVersion major minor rt = Some (e, rt')"
  shows "same_link rt rt' \<and> (e = None \<longrightarrow> Version rt' = (major, minor))
    \<and> (e \<noteq> None \<longrightarrow> Version rt' = Version rt)"
proof -
  from assms obtain e1 rt1 where a: "sendAndWaitForResponse sendCommand (''Version '' @ version_string major minor)
      [''Version set to '' @ version_string major minor] rt = Some (e1, rt1)"
    by (auto simp: SetVersion_def Let_def bind_eq_Some_conv)
  note cfg = cmd.answer_config [OF a]
  then have ver: "Version rt1 = Version rt" by (simp add: same_config_def Version_def)
  show ?thesis
  proof (cases e1)
    case None
    with assms a have "e = None" and rt': "rt' = rt1\<lparr>rt_majorVersion := major, rt_minorVersion := minor\<rparr>"
      by (simp_all add: SetVersion_def Let_def)
    then show ?thesis using same_config_link [OF cfg] by (simp add: Version_def)
  next
    case (Some x)
    with assms a have "e \<noteq> None" and "rt' = rt1" by (auto simp: SetVersion_def Let_def)
    then show ?thesis using same_config_link [OF cfg] ver by auto
  qed
qed

lemma SetVersion_returns: "bounded_waits rt \<Longrightarrow> \<exists>e rt'. SetVersion major minor rt = Some (e, rt')"
  using cmd.answer_returns [of rt "''Version '' @ version_string major minor"
    "[''Version set to '' @ version_string major minor]"]
  by (auto simp: SetVersion_def Let_def split: option.splits)

lemma GetState_config:
  assumes "GetState rt = Some (r, rt')"
  shows "same_config rt rt'"
proof -
  define msg where "msg = (if rt_majorVersion rt = 1 \<and> rt_minorVersion rt \<le> 9 then ''GetLastEvent'' else ''GetState'')"
  obtain e rt1 where s: "sendCommand msg rt = (e, rt1)" by fastforce
  note cfg = cmd.send_config [OF s]
  show ?thesis
  proof (cases e)
    case (Some x)
    with assms s cfg show ?thesis by (simp add: GetState_def msg_def [symmetric])
  next
    case None
    with assms s obtain a e2 rt2 where p: "poll (rt_now rt1 + DefaultCommandTimeout)
        (\<lambda>p. if pk_Type p = PacketTypeEvent then Some (pk_Event p) else None) rt1 = Some ((a, e2), rt2)"
      by (auto simp: GetState_def msg_def [symmetric] bind_eq_Some_conv)
    then have "rt' = rt2"
      using assms s None by (cases a; cases e2) (simp_all add: GetState_def msg_def [symmetric])
    with same_config_trans [OF cfg poll_config [OF p]] show ?thesis by simp
  qed
qed

lemma GetState_returns:
  assumes "bounded_waits rt"
  shows "\<exists>r. GetState rt = Some r"
proof -
  define msg where "msg = (if rt_majorVersion rt = 1 \<and> rt_minorVersion rt \<le> 9 then ''GetLastEvent'' else ''GetState'')"
  obtain e rt1 where s: "sendCommand msg rt = (e, rt1)" by fastforce
  then have "bounded_waits rt1" using assms cmd.send_config bounded_waits_config by blast
  from poll_returns [OF this] obtain x where
    "poll (rt_now rt1 + DefaultCommandTimeout)
      (\<lambda>p. if pk_Type p = PacketTypeEvent then Some (pk_Event p) else None) rt1 = Some x" by blast
  moreover obtain r e2 rt2 where "x = ((r, e2), rt2)" by (cases x) auto
  ultimately have "poll (rt_now rt1 + DefaultCommandTimeout)
      (\<lambda>p. if pk_Type p = PacketTypeEvent then Some (pk_Event p) else None) rt1 = Some ((r, e2), rt2)" by simp
  with s show ?thesis
    unfolding GetState_def Let_def msg_def [symmetric]
    by (cases e; cases r; cases e2) simp_all
qed

subsection \<open>Sockets\<close>

text \<open>The sockets the client owes a \<open>Close\<close> are exactly the ones it still holds.\<close>

definition no_leak :: "Protocol \<Rightarrow> bool" where
  "no_leak rt \<longleftrightarrow> rt_sockets rt =
     (if rt_conn rt = None then 0 else 1) + (if rt_udpConn rt = None then 0 else 1)"

lemma no_leak_link: "same_link rt rt' \<Longrightarrow> no_leak rt' = no_leak rt"
  by (simp add: same_link_def same_config_def no_leak_def)

lemma Disconnect_simps [simp]:
  "rt_conn (Disconnect rt) = None" "rt_udpConn (Disconnect rt) = None"
  "rt_buffer (Disconnect rt) = rt_buffer rt" "rt_readTimeout (Disconnect rt) = rt_readTimeout rt"
  "rt_wantMajor (Disconnect rt) = rt_wantMajor rt" "rt_wantMinor (Disconnect rt) = rt_wantMinor rt"
  "rt_negotiateVersion (Disconnect rt) = rt_negotiateVersion rt" "rt_order (Disconnect rt) = rt_order rt"
  "rt_connectTimeout (Disconnect rt) = rt_connectTimeout rt" "rt_now (Disconnect rt) = rt_now rt"
  "rt_ip (Disconnect rt) = rt_ip rt" "rt_basePort (Disconnect rt) = rt_basePort rt"
  "rt_bigEndian (Disconnect rt) = rt_bigEndian rt" "rt_maxPacketSize (Disconnect rt) = rt_maxPacketSize rt"
  by (simp_all add: Disconnect_def Let_def)

lemma Disconnect_no_leak: "no_leak rt \<Longrightarrow> no_leak (Disconnect rt)"
  by (auto simp: no_leak_def Disconnect_def Let_def)

lemma versionCandidates_link: "same_link rt rt' \<Longrightarrow> versionCandidates rt' = versionCandidates rt"
  by (simp add: same_link_def same_config_def versionCandidates_def)

lemma versionCandidates_Disconnect [simp]: "versionCandidates (Disconnect rt) = versionCandidates rt"
  by (simp add: versionCandidates_def)

lemma try_versions_result:
  assumes "try_versions vs lastErr rt = Some (e, rt')"
  shows "(e = None \<and> same_link rt rt' \<and> Version rt' \<in> set vs)
    \<or> (\<exists>x rt1. e = Some x \<and> errors_Is x ErrVersionNotSupported \<and> same_link rt rt1 \<and> rt' = Disconnect rt1)"
  using assms
proof (induction vs arbitrary: lastErr rt)
  case Nil
  then show ?case by (auto simp: Let_def intro!: exI [of _ rt])
next
  case (Cons v vs)
  obtain major minor where v: "v = (major, minor)" by (cases v)
  with Cons.prems obtain e1 rt1 where s: "SetVersion major minor rt = Some (e1, rt1)"
    by (auto simp: bind_eq_Some_conv)
  note link = SetVersion_link [OF s]
  show ?case
  proof (cases e1)
    case (Some x)
    with Cons.prems s v have "try_versions vs (Some x) rt1 = Some (e, rt')" by simp
    from Cons.IH [OF this] link show ?thesis by (auto intro: same_link_trans)
  next
    case None
    with Cons.prems s v obtain r rt2 where g: "GetState rt1 = Some (r, rt2)" and e: "e = None" "rt' = rt2"
      by (auto simp: bind_eq_Some_conv)
    from GetState_config [OF g] have "same_link rt1 rt2" "Version rt2 = Version rt1"
      by (simp_all add: same_config_link) (simp add: same_config_def Version_def)
    with link None e v show ?thesis by (auto intro: same_link_trans)
  qed
qed

lemma try_versions_returns:
  "bounded_waits rt \<Longrightarrow> \<exists>r. try_versions vs lastErr rt = Some r"
proof (induction vs arbitrary: lastErr rt)
  case Nil
  then show ?case by (simp add: Let_def)
next
  case (Cons v vs)
  obtain major minor where v: "v = (major, minor)" by (cases v)
  from SetVersion_returns [OF Cons.prems] obtain e1 rt1 where s: "SetVersion major minor rt = Some (e1, rt1)"
    by blast
  with SetVersion_link [OF s] Cons.prems have b: "bounded_waits rt1" by (blast intro: bounded_waits_link)
  with Cons.IH GetState_returns s v show ?case by (cases e1) fastforce+
qed

text \<open>\<open>Connect\<close>, cut at the point where the connection is there.\<close>

definition dialled :: "conn \<Rightarrow> int \<Rightarrow> Protocol \<Rightarrow> Protocol" where
  "dialled c now rt = (let rt = (if IsConnected rt then Disconnect rt else rt) in
     rt\<lparr>rt_conn := Some c, rt_now := now, rt_sockets := rt_sockets rt + 1\<rparr>)"

lemma dialled_no_leak: "no_leak rt \<Longrightarrow> no_leak (dialled c now rt)"
  by (auto simp: no_leak_def dialled_def IsConnected_def Disconnect_def Let_def)

lemma dialled_simps [simp]:
  "rt_conn (dialled c now rt) = Some c" "rt_now (dialled c now rt) = now"
  "rt_buffer (dialled c now rt) = rt_buffer rt" "rt_readTimeout (dialled c now rt) = rt_readTimeout rt"
  "rt_order (dialled c now rt) = rt_order rt" "rt_connectTimeout (dialled c now rt) = rt_connectTimeout rt"
  "rt_maxPacketSize (dialled c now rt) = rt_maxPacketSize rt"
  "versionCandidates (dialled c now rt) = versionCandidates rt"
  by (simp_all add: dialled_def Let_def versionCandidates_def)

definition dial_address :: "Protocol \<Rightarrow> string" where
  "dial_address rt = JoinHostPort (rt_ip rt) (Itoa (port rt))"

lemma Connect_dialled:
  assumes "dial (dial_address rt) (rt_connectTimeout rt) (rt_now rt) = (Inr c, now)"
  shows "Connect dial rt = do {
     ((p, e), rt) \<leftarrow> ReceiveTimeout (rt_connectTimeout rt) (dialled c now rt);
     case e of
       Some e \<Rightarrow> Some (Some (Errorf ''connect: welcome: %w'' [AWrap e]), Disconnect rt)
     | None \<Rightarrow>
         if pk_CommandResponse p \<noteq> qtmConnectedResponse then
           Some (Some (Errorf ''connect: unexpected welcome message (%q)'' [AStr (pk_CommandResponse p)]),
             Disconnect rt)
         else try_versions (versionCandidates rt) None rt }"
  using assms
  by (simp add: Connect_def dial_address_def dialled_def Let_def port_def cong: if_cong)

lemma Connect_failed_dial:
  assumes "dial (dial_address rt) (rt_connectTimeout rt) (rt_now rt) = (Inl e, now)"
  shows "Connect dial rt = Some (Some (Errorf ''connect: dial %s: %w'' [AStr (dial_address rt), AWrap e]),
    (if IsConnected rt then Disconnect rt else rt)\<lparr>rt_now := now\<rparr>)"
  using assms
  by (simp add: Connect_def dial_address_def Let_def port_def cong: if_cong)

lemma Connect_result:
  assumes "Connect dial rt = Some (e, rt')" and "no_leak rt"
  shows "no_leak rt' \<and> length (rt_buffer rt) \<le> length (rt_buffer rt') \<and> rt_readTimeout rt' = rt_readTimeout rt
    \<and> (e = None \<longrightarrow> IsConnected rt' \<and> Version rt' \<in> set (versionCandidates rt))
    \<and> (e \<noteq> None \<longrightarrow> \<not> IsConnected rt')"
proof -
  obtain d now where dial: "dial (dial_address rt) (rt_connectTimeout rt) (rt_now rt) = (d, now)" by fastforce
  show ?thesis
  proof (cases d)
    case (Inl x)
    with assms(1) Connect_failed_dial [of dial rt x now] dial have
      "e \<noteq> None" "rt' = (if IsConnected rt then Disconnect rt else rt)\<lparr>rt_now := now\<rparr>" by auto
    then show ?thesis
      using assms(2) Disconnect_no_leak [OF assms(2)] by (auto simp: IsConnected_def no_leak_def)
  next
    case (Inr c)
    let ?rt = "dialled c now rt"
    note conn = assms(1) [unfolded Connect_dialled [of dial rt c now, OF dial [unfolded Inr]]]
    then obtain p e1 rt1 where r: "ReceiveTimeout (rt_connectTimeout ?rt) ?rt = Some ((p, e1), rt1)"
      by (auto simp: bind_eq_Some_conv)
    from ReceiveTimeout_config [OF r] have link: "same_link ?rt rt1" by (rule same_config_link)
    have keep: "no_leak rt2 \<and> length (rt_buffer rt) \<le> length (rt_buffer rt2) \<and> rt_readTimeout rt2 = rt_readTimeout rt
        \<and> IsConnected rt2" if "same_link rt1 rt2" for rt2
    proof -
      note l = same_link_trans [OF link that]
      have "no_leak rt2" using no_leak_link [OF l] dialled_no_leak [OF assms(2)] by simp
      with l show ?thesis by (auto simp: same_link_def same_config_def IsConnected_def)
    qed
    have fail: "no_leak (Disconnect rt2) \<and> length (rt_buffer rt) \<le> length (rt_buffer (Disconnect rt2))
        \<and> rt_readTimeout (Disconnect rt2) = rt_readTimeout rt \<and> \<not> IsConnected (Disconnect rt2)"
      if "same_link rt1 rt2" for rt2
      using keep [OF that] Disconnect_no_leak by (simp add: IsConnected_def)
    have cand: "versionCandidates rt1 = versionCandidates rt"
      using versionCandidates_link [OF link] by simp
    show ?thesis
    proof (cases "e1 = None \<and> pk_CommandResponse p = qtmConnectedResponse")
      case True
      with conn r have "try_versions (versionCandidates rt1) None rt1 = Some (e, rt')" by simp
      from try_versions_result [OF this] keep fail cand show ?thesis by auto
    next
      case False
      with conn r have "e \<noteq> None" "rt' = Disconnect rt1" by (auto split: option.splits if_splits)
      with fail [OF same_link_refl] show ?thesis by simp
    qed
  qed
qed

lemma Connect_returns:
  assumes "bounded_waits rt" and "0 < rt_connectTimeout rt"
  shows "\<exists>r. Connect dial rt = Some r"
proof -
  obtain d now where dial: "dial (dial_address rt) (rt_connectTimeout rt) (rt_now rt) = (d, now)" by fastforce
  show ?thesis
  proof (cases d)
    case (Inl x)
    with Connect_failed_dial [of dial rt x now] dial show ?thesis by simp
  next
    case (Inr c)
    let ?rt = "dialled c now rt"
    have b: "bounded_waits ?rt" using assms(1) by (simp add: bounded_waits_def)
    from ReceiveTimeout_returns [OF b, of "rt_connectTimeout ?rt"] assms(2) obtain p e rt1 where
      r: "ReceiveTimeout (rt_connectTimeout ?rt) ?rt = Some ((p, e), rt1)" by auto
    from ReceiveTimeout_config [OF r] b have "bounded_waits rt1" by (rule bounded_waits_config)
    from try_versions_returns [OF this] obtain x where "try_versions (versionCandidates rt1) None rt1 = Some x" by blast
    with r show ?thesis
      unfolding Connect_dialled [of dial rt c now, OF dial [unfolded Inr]] by (cases e) simp_all
  qed
qed

subsection \<open>A server that negotiates\<close>

text \<open>
  The answer to a version request: the confirmation for a version the server accepts, an
  error packet otherwise. \<open>negotiates\<close> says that the peer of a connection answers every
  version request so, whatever was sent before; it may do anything on other commands.
\<close>

definition version_reply :: "(int \<times> int \<Rightarrow> bool) \<Rightarrow> int \<times> int \<Rightarrow> u32 \<times> bytes" where
  "version_reply accepts v =
     (if accepts v then (PacketTypeCommand, to_bytes (''Version set to '' @ version_string (fst v) (snd v)) @ [0])
      else (PacketTypeError, to_bytes ''Version NOT supported'' @ [0]))"

definition negotiates :: "byte_order \<Rightarrow> (int \<times> int \<Rightarrow> bool) \<Rightarrow> (bytes list \<Rightarrow> err + inbox) \<Rightarrow> bool" where
  "negotiates ord accepts peer \<longleftrightarrow> (\<forall>sent v.
     peer (sent @ [frame_string ord (''Version '' @ version_string (fst v) (snd v)) PacketTypeCommand])
       = Inr [(0, Chunk (case version_reply accepts v of (t, payload) \<Rightarrow> enc_packet ord t payload))])"

text \<open>The client is at rest at time \<open>T\<close>: everything that came has been read.\<close>

definition at_rest :: "int \<Rightarrow> (bytes list \<Rightarrow> err + inbox) \<Rightarrow> Protocol \<Rightarrow> bool" where
  "at_rest T peer rt \<longleftrightarrow> healthy rt \<and> rt_now rt = T \<and> incoming T rt = [] \<and>
     (\<exists>c. rt_conn rt = Some c \<and> upto_time T (cn_inbox c) \<and> cn_peer c = peer)"

lemma code_digits_last: "code (last (digits n)) \<noteq> 0"
  using digits_all [of n] by (auto simp: list_all_iff is_digit_def dest!: bspec [of _ _ "last (digits n)"])

lemma text_string_version: "text_string (''Version set to '' @ version_string major minor)"
  using code_digits_last by (simp add: text_string_def version_string_def Itoa_def)

lemma packet_result_command:
  assumes "text_string s"
  shows "\<exists>p. packet_result ord (PacketTypeCommand, to_bytes s @ [0]) = (p, None) \<and> pk_CommandResponse p = s
    \<and> pk_Type p = PacketTypeCommand"
  using trimStringResponse_text [OF assms, of 1]
  by (simp add: packet_result_def Packet_UnmarshalBinary_enc decoded_payload_def receive_result_def)

lemma packet_result_error:
  "\<exists>p e. packet_result ord (PacketTypeError, payload) = (p, Some e)"
  by (simp add: packet_result_def Packet_UnmarshalBinary_enc decoded_payload_def receive_result_def)

lemma timely_now: "rt_now rt = T \<Longrightarrow> timely T d rt"
  by (auto simp: timely_def)

lemma skip_events_answer:
  assumes "healthy rt" and "rt_now rt = T" and "incoming T rt = enc_packet (rt_order rt) t payload"
    and "rt_conn rt = Some c" and "upto_time T (cn_inbox c)" and "fits rt (t, payload)"
    and "t \<noteq> PacketTypeEvent" and "t \<noteq> PacketTypeNoMoreData" and "0 < timeout"
  shows "\<exists>rt'. receiveSkippingEvents timeout rt = Some (packet_result (rt_order rt) (t, payload), rt')
    \<and> at_rest T (cn_peer c) rt' \<and> same_config rt rt'"
proof -
  from assms(6) have b: "packetHeaderSize < length (rt_buffer rt)" "int packetHeaderSize < rt_maxPacketSize rt"
    by (auto simp: fits_def acceptable_def length_greater_0_conv [symmetric] simp del: length_greater_0_conv)
  from skip_events_delivers [of rt timeout T "T + timeout" "[]" t payload "[]"] assms b
  obtain rt' where r: "skip_events timeout (T + timeout) rt = Some (packet_result (rt_order rt) (t, payload), rt')"
    and rt': "incoming T rt' = []" "healthy rt'" "same_config rt rt'" "rt_now rt' = T"
    by (auto simp: enc_packets_def event_packets_def timely_now)
  from skip_events_kept [OF r] assms(4,5) obtain c' where "rt_conn rt' = Some c'" "same_peer c c'"
    by (auto simp: conn_kept_def option_rel_Some1)
  with rt' assms(2,5) r show ?thesis
    by (auto simp: at_rest_def receiveSkippingEvents_def same_peer_def)
qed

text \<open>What \<open>SetVersion\<close> makes of the reply of a negotiating server.\<close>

lemma SetVersion_reply:
  assumes "sendCommand (''Version '' @ version_string major minor) rt = (None, rt1)"
    and "receiveSkippingEvents DefaultCommandTimeout rt1 = Some (packet_result ord (version_reply accepts (major, minor)), rt2)"
  shows "if accepts (major, minor)
    then SetVersion major minor rt = Some (None, rt2\<lparr>rt_majorVersion := major, rt_minorVersion := minor\<rparr>)
    else \<exists>e. SetVersion major minor rt = Some (Some e, rt2)"
proof (cases "accepts (major, minor)")
  case True
  then have reply: "version_reply accepts (major, minor)
      = (PacketTypeCommand, to_bytes (''Version set to '' @ version_string major minor) @ [0])"
    by (simp add: version_reply_def)
  from packet_result_command [OF text_string_version, of ord major minor] obtain p where
    p: "packet_result ord (version_reply accepts (major, minor)) = (p, None)"
      "pk_CommandResponse p = ''Version set to '' @ version_string major minor"
    unfolding reply by auto
  with True assms show ?thesis
    by (simp add: SetVersion_def sendAndWaitForResponse_def response_error_def Let_def)
next
  case False
  then obtain payload where "version_reply accepts (major, minor) = (PacketTypeError, payload)"
    by (auto simp: version_reply_def)
  with packet_result_error [of ord payload] obtain p e where
    "packet_result ord (version_reply accepts (major, minor)) = (p, Some e)" by auto
  with False assms show ?thesis
    by (simp add: SetVersion_def sendAndWaitForResponse_def Let_def)
qed

lemma SetVersion_negotiated:
  assumes "at_rest T peer rt" and "negotiates (rt_order rt) accepts peer"
    and "fits rt (version_reply accepts (major, minor))"
  shows "\<exists>e rt'. SetVersion major minor rt = Some (e, rt') \<and> at_rest T peer rt' \<and> same_link rt rt'
    \<and> (e = None \<longleftrightarrow> accepts (major, minor))"
proof -
  let ?ver = "version_string major minor"
  let ?ord = "rt_order rt"
  obtain t payload where reply: "version_reply accepts (major, minor) = (t, payload)" by fastforce
  then have t: "t \<noteq> PacketTypeEvent" "t \<noteq> PacketTypeNoMoreData"
    by (auto simp: version_reply_def split: if_splits)
  from assms(1) obtain c where c: "rt_conn rt = Some c" "upto_time T (cn_inbox c)" "cn_peer c = peer"
    and rest: "healthy rt" "rt_now rt = T" "incoming T rt = []"
    by (auto simp: at_rest_def)
  define rt1 where "rt1 = rt\<lparr>rt_conn := Some (c\<lparr>
    cn_outbox := cn_outbox c @ [frame_string ?ord (''Version '' @ ?ver) PacketTypeCommand],
    cn_inbox := cn_inbox c @ [(T, Chunk (enc_packet ?ord t payload))]\<rparr>)\<rparr>"
  have send: "sendCommand (''Version '' @ ?ver) rt = (None, rt1)"
    using c rest assms(2)
    by (auto simp: sendCommand_def sendString_def conn_Write_def negotiates_def rt1_def
        dest!: spec [of _ "cn_outbox c"] spec [of _ "(major, minor)"] simp: reply)
  have rt1: "healthy rt1" "rt_now rt1 = T" "incoming T rt1 = enc_packet (rt_order rt1) t payload"
    "fits rt1 (t, payload)"
    using rest c assms(3) reply
    by (auto simp: healthy_def rt1_def incoming_def arrived_append fits_def acceptable_def)
  obtain rt2 where r: "receiveSkippingEvents DefaultCommandTimeout rt1
      = Some (packet_result (rt_order rt1) (t, payload), rt2)"
    and rt2: "at_rest T peer rt2" "same_config rt1 rt2"
    using skip_events_answer [OF rt1(1-3) _ _ rt1(4) t, of _ DefaultCommandTimeout] c
    by (auto simp: rt1_def)
  have link: "same_link rt rt2"
    using rt2(2) c by (simp add: same_link_def same_config_def rt1_def)
  have ver: "at_rest T peer (rt2\<lparr>rt_majorVersion := major, rt_minorVersion := minor\<rparr>)"
    using rt2(1) by (simp add: at_rest_def healthy_def incoming_def)
  from SetVersion_reply [OF send r [folded reply]] ver rt2(1) link show ?thesis
    by (cases "accepts (major, minor)") auto
qed

lemma same_link_order: "same_link rt rt' \<Longrightarrow> rt_order rt' = rt_order rt"
  by (simp add: same_link_def same_config_def)

lemma fits_link: "same_link rt rt' \<Longrightarrow> fits rt p \<Longrightarrow> fits rt' p"
  by (auto simp: fits_def acceptable_def same_link_def same_config_def)

lemma try_versions_negotiated:
  assumes "at_rest T peer rt" and "negotiates (rt_order rt) accepts peer"
    and "\<forall>v \<in> set vs. fits rt (version_reply accepts v)" and "bounded_waits rt"
  shows "\<exists>e rt'. try_versions vs lastErr rt = Some (e, rt') \<and> (case List.find accepts vs of
      Some v \<Rightarrow> e = None \<and> same_link rt rt' \<and> Version rt' = v
    | None \<Rightarrow> (\<exists>x. e = Some x \<and> errors_Is x ErrVersionNotSupported) \<and> \<not> IsConnected rt')"
  using assms
proof (induction vs arbitrary: rt lastErr)
  case Nil
  then show ?case by (simp add: Let_def IsConnected_def)
next
  case (Cons v vs)
  obtain major minor where v: "v = (major, minor)" by (cases v)
  from SetVersion_negotiated [OF Cons.prems(1,2), of major minor] Cons.prems(3) v
  obtain e1 rt1 where s: "SetVersion major minor rt = Some (e1, rt1)" and rest: "at_rest T peer rt1"
    and link: "same_link rt rt1" and ok: "e1 = None \<longleftrightarrow> accepts v" by auto
  have b: "bounded_waits rt1" using bounded_waits_link [OF link] Cons.prems(4) .
  show ?case
  proof (cases e1)
    case None
    with SetVersion_link [OF s] v have ver: "Version rt1 = v" by simp
    from GetState_returns [OF b] obtain r rt2 where g: "GetState rt1 = Some (r, rt2)" by auto
    have "same_link rt rt2" "Version rt2 = v"
      using GetState_config [OF g] link ver
      by (auto intro: same_link_trans same_config_link) (simp add: same_config_def Version_def)
    with None ok s g v show ?thesis by simp
  next
    case (Some x)
    have "\<forall>v \<in> set vs. fits rt1 (version_reply accepts v)"
      using Cons.prems(3) fits_link [OF link] by simp
    from Cons.IH [OF rest _ this b, of "Some x"] Cons.prems(2) same_link_order [OF link]
    obtain e rt' where t: "try_versions vs (Some x) rt1 = Some (e, rt')" "case List.find accepts vs of
      Some v \<Rightarrow> e = None \<and> same_link rt1 rt' \<and> Version rt' = v
    | None \<Rightarrow> (\<exists>x. e = Some x \<and> errors_Is x ErrVersionNotSupported) \<and> \<not> IsConnected rt'" by auto
    moreover have "\<not> accepts v" using Some ok by simp
    ultimately show ?thesis
      using s Some v same_link_trans [OF link] by (simp split: option.splits)
  qed
qed

text \<open>The dialer gives a connection on which the welcome is waiting.\<close>

definition welcomes :: "byte_order \<Rightarrow> int \<Rightarrow> conn \<Rightarrow> bool" where
  "welcomes ord T c \<longleftrightarrow> cn_deadline_err c = None \<and> upto_time T (cn_inbox c) \<and>
     arrived T (cn_inbox c) = enc_packet ord PacketTypeCommand (to_bytes qtmConnectedResponse @ [0])"

lemma Connect_negotiated:
  assumes "dial (dial_address rt) (rt_connectTimeout rt) (rt_now rt) = (Inr c, T)"
    and "welcomes (rt_order rt) T c" and "negotiates (rt_order rt) accepts (cn_peer c)"
    and "bounded_waits rt" and "64 \<le> length (rt_buffer rt)" and "64 \<le> rt_maxPacketSize rt"
    and "\<forall>v \<in> set (versionCandidates rt). fits rt (version_reply accepts v)"
  shows "\<exists>e rt'. Connect dial rt = Some (e, rt') \<and> (case List.find accepts (versionCandidates rt) of
      Some v \<Rightarrow> e = None \<and> IsConnected rt' \<and> Version rt' = v
    | None \<Rightarrow> (\<exists>x. e = Some x \<and> errors_Is x ErrVersionNotSupported) \<and> \<not> IsConnected rt')"
proof -
  let ?rt = "dialled c T rt"
  have h: "healthy ?rt" "rt_now ?rt = T" "incoming T ?rt = enc_packet (rt_order ?rt) PacketTypeCommand
      (to_bytes qtmConnectedResponse @ [0]) @ []"
    using assms(2,5) by (simp_all add: healthy_def incoming_def welcomes_def)
  have "fits ?rt (PacketTypeCommand, to_bytes qtmConnectedResponse @ [0])"
    using assms(5,6) by (simp add: fits_def acceptable_def qtmConnectedResponse_def)
  from ReceiveTimeout_fits [OF h(1) timely_now [OF h(2)] h(3) this, of "rt_connectTimeout ?rt"]
  obtain rt1 where r: "ReceiveTimeout (rt_connectTimeout ?rt) ?rt
      = Some (packet_result (rt_order ?rt) (PacketTypeCommand, to_bytes qtmConnectedResponse @ [0]), rt1)"
    and rt1: "incoming T rt1 = []" "healthy rt1" "timely T (rt_connectTimeout ?rt) rt1" "same_config ?rt rt1"
    by auto
  have "text_string qtmConnectedResponse" by (simp add: text_string_def qtmConnectedResponse_def)
  from packet_result_command [OF this, of "rt_order ?rt"] obtain p where
    p: "packet_result (rt_order ?rt) (PacketTypeCommand, to_bytes qtmConnectedResponse @ [0]) = (p, None)"
      "pk_CommandResponse p = qtmConnectedResponse" by blast
  have now: "rt_now rt1 = T"
    using ReceiveTimeout_progress [OF r [unfolded p(1)]] rt1(3) by (simp add: timely_def)
  from ReceiveTimeout_kept [OF r] assms(2) obtain c' where "rt_conn rt1 = Some c'" "same_peer c c'"
    by (auto simp: conn_kept_def option_rel_Some1)
  with rt1 now assms(2) have rest: "at_rest T (cn_peer c) rt1"
    by (auto simp: at_rest_def same_peer_def welcomes_def)
  have link: "same_link ?rt rt1" using rt1(4) by (rule same_config_link)
  have ord: "rt_order rt1 = rt_order rt" using same_link_order [OF link] by simp
  have cand: "versionCandidates rt1 = versionCandidates rt" using versionCandidates_link [OF link] by simp
  have "bounded_waits ?rt" using assms(4) by (simp add: bounded_waits_def)
  with link have b: "bounded_waits rt1" by (rule bounded_waits_link)
  have "fits ?rt q = fits rt q" for q by (simp add: fits_def acceptable_def)
  with assms(7) fits_link [OF link] have f: "\<forall>v \<in> set (versionCandidates rt). fits rt1 (version_reply accepts v)"
    by blast
  from try_versions_negotiated [OF rest _ f b, of None] assms(3) ord obtain e rt' where
    t: "try_versions (versionCandidates rt1) None rt1 = Some (e, rt')" "case List.find accepts (versionCandidates rt) of
      Some v \<Rightarrow> e = None \<and> same_link rt1 rt' \<and> Version rt' = v
    | None \<Rightarrow> (\<exists>x. e = Some x \<and> errors_Is x ErrVersionNotSupported) \<and> \<not> IsConnected rt'"
    unfolding cand by auto
  have "Connect dial rt = Some (e, rt')"
    using r p t(1) Connect_dialled [of dial rt c T, OF assms(1)] by simp
  moreover have "same_link rt1 rt' \<Longrightarrow> IsConnected rt'"
    using rest by (auto simp: same_link_def same_config_def IsConnected_def at_rest_def)
  ultimately show ?thesis using t(2) by (auto split: option.splits)
qed

subsection \<open>The handshake\<close>

text \<open>
  C8: \<open>Connect\<close> cleans up after itself, however it ends: on success there is a connection with a
  version from the ladder; on any failure (dialling, the welcome, the negotiation) there is none,
  and no socket is left open in either case beyond the ones the client holds. With a positive read
  timeout and a positive connect timeout it returns, whatever the server does, provided that writes
  do not block; with a connect timeout of zero or less the wait for the welcome has no deadline.
\<close>

theorem connect_outcome:
  assumes "no_leak rt"
  shows "(bounded_waits rt \<and> 0 < rt_connectTimeout rt \<longrightarrow> Connect dial rt \<noteq> None)
    \<and> (case Connect dial rt of None \<Rightarrow> True
       | Some (e, rt') \<Rightarrow>
           rt_sockets rt' = (if IsConnected rt' then 1 else 0) + (if rt_udpConn rt' = None then 0 else 1) \<and>
           (case e of None \<Rightarrow> IsConnected rt' \<and> Version rt' \<in> set (versionCandidates rt) | Some x \<Rightarrow> \<not> IsConnected rt'))"
proof
  show "bounded_waits rt \<and> 0 < rt_connectTimeout rt \<longrightarrow> Connect dial rt \<noteq> None"
    using Connect_returns [of rt dial] by auto
  show "case Connect dial rt of None \<Rightarrow> True
    | Some (e, rt') \<Rightarrow>
        rt_sockets rt' = (if IsConnected rt' then 1 else 0) + (if rt_udpConn rt' = None then 0 else 1) \<and>
        (case e of None \<Rightarrow> IsConnected rt' \<and> Version rt' \<in> set (versionCandidates rt) | Some x \<Rightarrow> \<not> IsConnected rt')"
    using Connect_result [of dial rt _ _, OF _ assms]
    by (auto simp: no_leak_def IsConnected_def split: option.split)
qed

text \<open>
  C9: Negotiation finds the first version of the ladder that the server accepts: against a
  server that welcomes the client and answers each version request with the confirmation or
  an error, \<open>Connect\<close> succeeds with that version, or, when it accepts none, fails with
  \<open>ErrVersionNotSupported\<close> and without a connection.
\<close>

theorem connect_negotiates:
  assumes "dial (dial_address rt) (rt_connectTimeout rt) (rt_now rt) = (Inr c, T)"
    and "welcomes (rt_order rt) T c" and "negotiates (rt_order rt) accepts (cn_peer c)"
    and "bounded_waits rt" and "64 \<le> length (rt_buffer rt)" and "64 \<le> rt_maxPacketSize rt"
    and "\<forall>v \<in> set (versionCandidates rt). fits rt (version_reply accepts v)"
  shows "\<exists>e rt'. Connect dial rt = Some (e, rt') \<and> (case List.find accepts (versionCandidates rt) of
      Some v \<Rightarrow> e = None \<and> IsConnected rt' \<and> Version rt' = v
    | None \<Rightarrow> (\<exists>x. e = Some x \<and> errors_Is x ErrVersionNotSupported) \<and> \<not> IsConnected rt')"
  using assms by (rule Connect_negotiated)

text \<open>A server that speaks version 1.25 only.\<close>

definition only_125 :: "int \<times> int \<Rightarrow> bool" where
  "only_125 v \<longleftrightarrow> v = (1, 25)"

definition demo_server :: "bytes list \<Rightarrow> err + inbox" where
  "demo_server w = Inr [(0, Chunk (case version_reply only_125
     (if last w = frame_string LittleEndian (''Version '' @ version_string 1 25) PacketTypeCommand then (1, 25) else (0, 0))
     of (t, payload) \<Rightarrow> enc_packet LittleEndian t payload))]"

definition demo_server_conn :: conn where
  "demo_server_conn = (demo_conn [(0, Chunk (enc_packet LittleEndian PacketTypeCommand
     (to_bytes qtmConnectedResponse @ [0])))])\<lparr>cn_peer := demo_server\<rparr>"

definition demo_dial :: dialer where
  "demo_dial addr tmo now = (Inr demo_server_conn, 0)"

lemma to_bytes_inject [simp]: "to_bytes s = to_bytes t \<longleftrightarrow> s = t"
  by (metis to_string_to_bytes)

lemma version_string_inject: "version_string a b = version_string c d \<longleftrightarrow> a = c \<and> b = d"
proof
  have split: "Split (version_string a b) CHR ''.'' = [Itoa a, Itoa b]" for a b
  proof -
    have "CHR ''.'' \<notin> set (Itoa i)" for i by (rule Itoa_no_sep) (simp_all add: is_digit_def)
    then show ?thesis by (simp add: version_string_def Split_append Split_single)
  qed
  assume "version_string a b = version_string c d"
  then have "Split (version_string a b) CHR ''.'' = Split (version_string c d) CHR ''.''" by simp
  then show "a = c \<and> b = d" unfolding split by simp
qed simp

lemma version_frame_inject:
  "frame_string ord (''Version '' @ version_string a b) PacketTypeCommand =
    frame_string ord (''Version '' @ version_string c d) PacketTypeCommand \<longleftrightarrow> a = c \<and> b = d"
proof
  assume "frame_string ord (''Version '' @ version_string a b) PacketTypeCommand =
    frame_string ord (''Version '' @ version_string c d) PacketTypeCommand"
  then have "drop 8 (frame_string ord (''Version '' @ version_string a b) PacketTypeCommand) =
    drop 8 (frame_string ord (''Version '' @ version_string c d) PacketTypeCommand)" by simp
  then have "to_bytes (version_string a b) = to_bytes (version_string c d)"
    by (simp add: frame_string_def Let_def)
  then show "a = c \<and> b = d" by (simp add: version_string_inject)
qed simp

lemma demo_server_negotiates: "negotiates LittleEndian only_125 demo_server"
  unfolding negotiates_def
proof (intro allI)
  fix sent and v :: "int \<times> int"
  let ?frame = "\<lambda>v. frame_string LittleEndian (''Version '' @ version_string (fst v) (snd v)) PacketTypeCommand"
  have "?frame v = ?frame (1, 25) \<longleftrightarrow> v = (1, 25)" by (cases v) (simp only: fst_conv snd_conv version_frame_inject prod.inject)
  moreover have "version_reply only_125 v = version_reply only_125 (0, 0)" if "v \<noteq> (1, 25)"
    using that by (simp add: version_reply_def only_125_def)
  ultimately have reply: "(if ?frame v = ?frame (1, 25) then version_reply only_125 (1, 25) else version_reply only_125 (0, 0))
      = version_reply only_125 v" by simp
  have "demo_server (sent @ [?frame v]) = Inr [(0, Chunk (case
      (if ?frame v = ?frame (1, 25) then version_reply only_125 (1, 25) else version_reply only_125 (0, 0))
      of (t, payload) \<Rightarrow> enc_packet LittleEndian t payload))]"
    unfolding demo_server_def last_snoc fst_conv snd_conv if_distrib [of "version_reply only_125"] ..
  then show "demo_server (sent @ [?frame v]) = Inr [(0, Chunk (case version_reply only_125 v of
      (t, payload) \<Rightarrow> enc_packet LittleEndian t payload))]" unfolding reply .
qed

abbreviation demo_start :: Protocol where "demo_start \<equiv> NewProtocol ''qtm'' 22222 []"

lemma demo_candidates:
  "versionCandidates demo_start = [(1, 28), (1, 27), (1, 26), (1, 25), (1, 24), (1, 23), (1, 22)]"
  by (simp add: versionCandidates_def NewProtocol_def upto.simps)

lemma demo_handshake:
  "demo_dial (dial_address demo_start) (rt_connectTimeout demo_start) (rt_now demo_start) = (Inr demo_server_conn, 0)"
  "welcomes (rt_order demo_start) 0 demo_server_conn"
  "negotiates (rt_order demo_start) only_125 (cn_peer demo_server_conn)"
  "bounded_waits demo_start" "64 \<le> length (rt_buffer demo_start)" "64 \<le> rt_maxPacketSize demo_start"
  "\<forall>v \<in> set (versionCandidates demo_start). fits demo_start (version_reply only_125 v)"
proof -
  have ord: "rt_order demo_start = LittleEndian" by (simp add: NewProtocol_def)
  show "welcomes (rt_order demo_start) 0 demo_server_conn"
    by (simp add: ord demo_server_conn_def welcomes_def demo_conn_def upto_time_def)
  show "negotiates (rt_order demo_start) only_125 (cn_peer demo_server_conn)"
    using demo_server_negotiates by (simp add: ord demo_server_conn_def)
  show "\<forall>v \<in> set (versionCandidates demo_start). fits demo_start (version_reply only_125 v)"
    unfolding demo_candidates
    by (simp add: fits_def acceptable_def version_reply_def only_125_def version_string_def Itoa_def digits.simps NewProtocol_def)
qed (simp_all add: demo_dial_def bounded_waits_def NewProtocol_def)

lemma demo_found: "List.find only_125 (versionCandidates demo_start) = Some (1, 25)"
  by (simp add: demo_candidates only_125_def)

text \<open>A dial that fails, and a server with which the negotiation succeeds.\<close>

theorem connect_outcome_witness:
  "Connect (\<lambda>addr tmo now. (Inl (NetError True ''i/o timeout''), now + tmo)) demo_start \<noteq> None
    \<and> (\<exists>rt'. Connect demo_dial demo_start = Some (None, rt') \<and> IsConnected rt' \<and> Version rt' = (1, 25)
        \<and> rt_sockets rt' = 1 + (if rt_udpConn rt' = None then 0 else 1))"
proof -
  have start: "no_leak demo_start" "bounded_waits demo_start" "0 < rt_connectTimeout demo_start"
    by (simp_all add: no_leak_def bounded_waits_def NewProtocol_def)
  note outcome = connect_outcome [OF start(1)]
  obtain rt' where ok: "Connect demo_dial demo_start = Some (None, rt')" "IsConnected rt'" "Version rt' = (1, 25)"
    using Connect_negotiated [where dial = demo_dial and accepts = only_125, OF demo_handshake] demo_found by auto
  from outcome [of demo_dial] ok have "rt_sockets rt' = 1 + (if rt_udpConn rt' = None then 0 else 1)" by simp
  with outcome start(2,3) ok show ?thesis by blast
qed

theorem connect_negotiates_witness:
  "\<exists>e rt'. Connect demo_dial demo_start = Some (e, rt') \<and> e = None \<and> IsConnected rt' \<and> Version rt' = (1, 25)"
  using connect_negotiates [where dial = demo_dial and accepts = only_125, OF demo_handshake] demo_found by simp

end
