(* ===== verification/Parameters.thy ===== *)
theory Parameters
  imports Commands
begin

text \<open>
  Settings (\<open>parameters.go\<close>): the names of the sections, fetching the settings XML, sending
  a fragment, and taking the versioned root element off.
\<close>

abbreviation ParameterTypeAll :: int where "ParameterTypeAll \<equiv> 0"
abbreviation ParameterTypeImage :: int where "ParameterTypeImage \<equiv> 7"
abbreviation ParameterTypeSkeleton :: int where "ParameterTypeSkeleton \<equiv> 10"

definition parameterName :: "int \<Rightarrow> string option" where
  "parameterName p =
     (if p = ParameterTypeAll then Some ''All''
      else if p = 1 then Some ''General''
      else if p = 2 then Some ''Calibration''
      else if p = 3 then Some ''3D''
      else if p = 4 then Some ''6D''
      else if p = 5 then Some ''Analog''
      else if p = 6 then Some ''Force''
      else if p = ParameterTypeImage then Some ''Image''
      else if p = 8 then Some ''GazeVector''
      else if p = 9 then Some ''EyeTracker''
      else if p = ParameterTypeSkeleton then Some ''Skeleton''
      else None)"

record ParameterOptions =
  po_SkeletonGlobal :: bool

fun parameter_names :: "ParameterOptions \<Rightarrow> int list \<Rightarrow> err + string list" where
  "parameter_names opts [] = Inr []"
| "parameter_names opts (p # ps) = (case parameterName p of
     None \<Rightarrow> Inl (Errorf ''getparameters: unknown parameter type %d'' [AInt p])
   | Some name \<Rightarrow> (case parameter_names opts ps of
       Inl e \<Rightarrow> Inl e
     | Inr names \<Rightarrow> Inr ((if p = ParameterTypeSkeleton \<and> po_SkeletonGlobal opts then name @ '':global'' else name)
         # names)))"

definition parameters_answer :: "Packet \<Rightarrow> (string + string) option" where
  "parameters_answer p =
     (if pk_Type p = PacketTypeXML then Some (Inl (pk_XMLResponse p))
      else if pk_Type p = PacketTypeError then Some (Inr (pk_ErrorResponse p))
      else None)"

definition GetParametersWithOptions :: "ParameterOptions \<Rightarrow> int list \<Rightarrow> Protocol \<Rightarrow>
    ((string \<times> err option) \<times> Protocol) option" where
  "GetParametersWithOptions opts parameters rt =
     (if \<not> IsConnected rt then Some (('''', Some (Errorf ''getparameters: %w'' [AWrap ErrNotConnected])), rt)
      else case parameter_names opts (if parameters = [] then [ParameterTypeAll] else parameters) of
        Inl e \<Rightarrow> Some (('''', Some e), rt)
      | Inr names \<Rightarrow> (case sendCommand (''GetParameters '' @ Join names '' '') rt of
          (Some e, rt) \<Rightarrow> Some (('''', Some (Errorf ''getparameters: %w'' [AWrap e])), rt)
        | (None, rt) \<Rightarrow> do {
            ((r, e), rt) \<leftarrow> poll (rt_now rt + DefaultCommandTimeout) parameters_answer rt;
            case r of
              Some (Inl xml) \<Rightarrow> Some ((xml, None), rt)
            | Some (Inr msg) \<Rightarrow> Some (('''', Some (Errorf ''getparameters: %s'' [AStr msg])), rt)
            | None \<Rightarrow> (case e of
                Some e \<Rightarrow> Some (('''', Some (Errorf ''getparameters: %w'' [AWrap e])), rt)
              | None \<Rightarrow> Some (('''', Some (Errorf ''getparameters: %w waiting for XML response''
                  [AWrap ErrTimeout])), rt))
          }))"

definition GetParameters :: "int list \<Rightarrow> Protocol \<Rightarrow> ((string \<times> err option) \<times> Protocol) option" where
  "GetParameters = GetParametersWithOptions \<lparr>po_SkeletonGlobal = False\<rparr>"

definition SetParameters :: "string \<Rightarrow> Protocol \<Rightarrow> (err option \<times> Protocol) option" where
  "SetParameters xml rt = wrapped ''setparameters: %w''
     (sendAndWaitForResponse sendXML (''<QTM_Settings>'' @ xml @ ''</QTM_Settings>'')
       [''Setting parameters succeeded''] rt)"

definition StripParametersElement :: "string \<Rightarrow> Protocol \<Rightarrow> string" where
  "StripParametersElement xml rt =
     (let name = ParametersElementName rt;
          xml = Replace1 xml (''<'' @ name @ ''>'') '''';
          xml = Replace1 xml (''</'' @ name @ ''>'') ''''
      in TrimSpace xml)"

end
