(* ===== verification/Client.thy ===== *)
theory Client
  imports Handshake Parameters
begin

text \<open>
  The client as a whole: the contract that every operation on the connection keeps, the
  operations it holds for, and the states a client can reach through its interface.
\<close>

subsection \<open>The contract of an operation\<close>

locale client_op =
  fixes op :: "Protocol \<Rightarrow> ('r \<times> Protocol) option" and failed :: "'r \<Rightarrow> err option"
  assumes keeps: "op rt = Some (r, rt') \<Longrightarrow> same_link rt rt'"
    and returns: "bounded_waits rt \<Longrightarrow> \<exists>r rt'. op rt = Some (r, rt')"
    and offline: "rt_conn rt = None \<Longrightarrow> \<exists>r. op rt = Some (r, rt) \<and> failed r \<noteq> None"
begin

lemma keeps_no_leak: "op rt = Some (r, rt') \<Longrightarrow> no_leak rt' = no_leak rt"
  by (rule no_leak_link [OF keeps])

lemma keeps_offline_state: "op rt = Some (r, rt') \<Longrightarrow> rt_conn rt = None \<Longrightarrow> rt' = rt"
  using offline [of rt] by auto

end

text \<open>The operations that report \<open>ErrNotConnected\<close> without a connection.\<close>

locale connected_op = client_op +
  assumes not_connected: "rt_conn rt = None \<Longrightarrow> op rt = Some (r, rt') \<Longrightarrow>
    \<exists>e. failed r = Some e \<and> errors_Is e ErrNotConnected"

lemma connected_opI:
  assumes "\<And>rt r rt'. op rt = Some (r, rt') \<Longrightarrow> same_link rt rt'"
    and "\<And>rt. bounded_waits rt \<Longrightarrow> \<exists>r rt'. op rt = Some (r, rt')"
    and "\<And>rt. rt_conn rt = None \<Longrightarrow> \<exists>r e. op rt = Some (r, rt) \<and> failed r = Some e \<and> errors_Is e ErrNotConnected"
  shows "connected_op op failed"
proof
  show "op rt = Some (r, rt') \<Longrightarrow> same_link rt rt'" for rt r rt' by (rule assms(1))
  show "bounded_waits rt \<Longrightarrow> \<exists>r rt'. op rt = Some (r, rt')" for rt by (rule assms(2))
  show "rt_conn rt = None \<Longrightarrow> \<exists>r. op rt = Some (r, rt) \<and> failed r \<noteq> None" for rt
    using assms(3) [of rt] by auto
  show "\<exists>e. failed r = Some e \<and> errors_Is e ErrNotConnected" if "rt_conn rt = None" "op rt = Some (r, rt')" for rt r rt'
    using assms(3) [OF that(1)] that(2) by auto
qed

text \<open>
  The operations that only exchange packets: they keep the negotiated version as well, so
  nothing of the link changes. All operations but \<open>SetVersion\<close> are of this kind.
\<close>

locale exchange_op = client_op +
  assumes keeps_config: "op rt = Some (r, rt') \<Longrightarrow> same_config rt rt'"

lemma exchange_opI:
  assumes "\<And>rt r rt'. op rt = Some (r, rt') \<Longrightarrow> same_config rt rt'"
    and "\<And>rt. bounded_waits rt \<Longrightarrow> \<exists>r rt'. op rt = Some (r, rt')"
    and "\<And>rt. rt_conn rt = None \<Longrightarrow> \<exists>r. op rt = Some (r, rt) \<and> failed r \<noteq> None"
  shows "exchange_op op failed"
  by unfold_locales (rule assms same_config_link, assumption?)+

locale connected_exchange = connected_op + exchange_op

lemma connected_exchangeI:
  assumes "\<And>rt r rt'. op rt = Some (r, rt') \<Longrightarrow> same_config rt rt'"
    and "\<And>rt. bounded_waits rt \<Longrightarrow> \<exists>r rt'. op rt = Some (r, rt')"
    and "\<And>rt. rt_conn rt = None \<Longrightarrow> \<exists>r e. op rt = Some (r, rt) \<and> failed r = Some e \<and> errors_Is e ErrNotConnected"
  shows "connected_exchange op failed"
proof -
  have c: "connected_op op failed" by (rule connected_opI [OF same_config_link [OF assms(1)] assms(2,3)])
  then have "exchange_op op failed"
    by (intro exchange_op.intro connected_op.axioms(1) exchange_op_axioms.intro assms(1))
  with c show ?thesis by (rule connected_exchange.intro)
qed

context sender
begin

lemma answer_op:
  "connected_exchange (\<lambda>rt. wrapped f (sendAndWaitForResponse send (cmd rt) expected rt)) (\<lambda>e. e)"
proof (rule connected_exchangeI)
  fix rt r rt'
  assume "wrapped f (sendAndWaitForResponse send (cmd rt) expected rt) = Some (r, rt')"
  then obtain e where "sendAndWaitForResponse send (cmd rt) expected rt = Some (e, rt')"
    by (auto simp: wrapped_def)
  then show "same_config rt rt'" by (rule answer_config)
next
  fix rt assume "bounded_waits rt"
  from answer_returns [OF this, of "cmd rt" expected]
  show "\<exists>r rt'. wrapped f (sendAndWaitForResponse send (cmd rt) expected rt) = Some (r, rt')"
    by (auto simp: wrapped_def)
next
  fix rt :: Protocol assume "rt_conn rt = None"
  from answer_offline [OF this, of "cmd rt" expected]
  show "\<exists>r e. wrapped f (sendAndWaitForResponse send (cmd rt) expected rt) = Some (r, rt) \<and> r = Some e
      \<and> errors_Is e ErrNotConnected"
    by (auto simp: wrapped_def)
qed

end

interpretation takeControl: connected_exchange "TakeControl password" "\<lambda>e. e" for password
  unfolding TakeControl_def [abs_def] Let_def by (rule cmd.answer_op)
interpretation releaseControl: connected_exchange ReleaseControl "\<lambda>e. e"
  unfolding ReleaseControl_def [abs_def] by (rule cmd.answer_op)
interpretation newConnection: connected_exchange New "\<lambda>e. e"
  unfolding New_def [abs_def] by (rule cmd.answer_op)
interpretation closeFile: connected_exchange Close "\<lambda>e. e"
  unfolding Close_def [abs_def] by (rule cmd.answer_op)
interpretation startMeasurement: connected_exchange "Start rtFromFile" "\<lambda>e. e" for rtFromFile
  unfolding Start_def [abs_def] by (rule cmd.answer_op)
interpretation stopMeasurement: connected_exchange Stop "\<lambda>e. e"
  unfolding Stop_def [abs_def] by (rule cmd.answer_op)
interpretation loadFile: connected_exchange "Load filename" "\<lambda>e. e" for filename
  unfolding Load_def [abs_def] by (rule cmd.answer_op)
interpretation saveFile: connected_exchange "Save filename overwrite" "\<lambda>e. e" for filename overwrite
  unfolding Save_def [abs_def] Let_def by (rule cmd.answer_op)
interpretation loadProject: connected_exchange "LoadProject path" "\<lambda>e. e" for path
  unfolding LoadProject_def [abs_def] by (rule cmd.answer_op)
interpretation trig: connected_exchange Trig "\<lambda>e. e"
  unfolding Trig_def [abs_def] by (rule cmd.answer_op)
interpretation setQTMEvent: connected_exchange "SetQTMEvent label" "\<lambda>e. e" for label
  unfolding SetQTMEvent_def [abs_def] Let_def by (rule cmd.answer_op)
interpretation reprocess: connected_exchange Reprocess "\<lambda>e. e"
  unfolding Reprocess_def [abs_def] by (rule cmd.answer_op)
interpretation quit: connected_exchange Quit "\<lambda>e. e"
  unfolding Quit_def [abs_def] by (rule cmd.answer_op)
interpretation setParameters: connected_exchange "SetParameters fragment" "\<lambda>e. e" for fragment
  unfolding SetParameters_def [abs_def] by (rule xml.answer_op)

text \<open>The operations with a value, and those that only send.\<close>

lemma ReceiveTimeout_offline:
  "rt_conn rt = None \<Longrightarrow> ReceiveTimeout d rt = Some ((none_Packet, Some ErrNotConnected), rt)"
  by (simp add: ReceiveTimeout_def IsConnected_def)

interpretation receive: connected_exchange Receive "\<lambda>(p, e). e"
proof (rule connected_exchangeI)
  show "same_config rt rt'" if "Receive rt = Some (r, rt')" for rt r rt'
    using that unfolding Receive_def by (rule ReceiveTimeout_config)
  show "\<exists>r rt'. Receive rt = Some (r, rt')" if "bounded_waits rt" for rt
    using ReceiveTimeout_returns [OF that, of "rt_readTimeout rt"] that
    by (auto simp: Receive_def bounded_waits_def)
  show "\<exists>r e. Receive rt = Some (r, rt) \<and> (case r of (p, e) \<Rightarrow> e) = Some e \<and> errors_Is e ErrNotConnected"
    if "rt_conn rt = None" for rt
    using ReceiveTimeout_offline [OF that] by (auto simp: Receive_def)
qed

lemma SendCommand_config:
  assumes "SendCommand msg rt = Some (r, rt')"
  shows "same_config rt rt'"
proof -
  obtain e rt1 where s: "sendCommand msg rt = (e, rt1)" by fastforce
  note cfg = cmd.send_config [OF s]
  show ?thesis
  proof (cases e)
    case (Some x)
    with assms s cfg show ?thesis by (simp add: SendCommand_def)
  next
    case None
    with assms s obtain p e2 where r: "receiveSkippingEvents DefaultCommandTimeout rt1 = Some ((p, e2), rt')"
      by (auto simp: SendCommand_def bind_eq_Some_conv split: option.splits)
    then have "same_config rt1 rt'" unfolding receiveSkippingEvents_def by (rule skip_events_config)
    with cfg show ?thesis by (rule same_config_trans)
  qed
qed

lemma receiveSkippingEvents_returns:
  "bounded_waits rt \<Longrightarrow> 0 < timeout \<Longrightarrow> \<exists>p e rt'. receiveSkippingEvents timeout rt = Some ((p, e), rt')"
  using skip_events_returns [of rt timeout "rt_now rt + timeout"] by (auto simp: receiveSkippingEvents_def)

lemma sendCommand_bounded: "sendCommand msg rt = (e, rt') \<Longrightarrow> bounded_waits rt \<Longrightarrow> bounded_waits rt'"
  by (rule bounded_waits_config [OF cmd.send_config])

interpretation sendCommandOp: connected_exchange "SendCommand msg" snd for msg
proof (rule connected_exchangeI)
  show "same_config rt rt'" if "SendCommand msg rt = Some (r, rt')" for rt r rt'
    using that by (rule SendCommand_config)
  show "\<exists>r rt'. SendCommand msg rt = Some (r, rt')" if "bounded_waits rt" for rt
  proof -
    obtain e rt1 where s: "sendCommand msg rt = (e, rt1)" by fastforce
    from receiveSkippingEvents_returns [OF sendCommand_bounded [OF s that], of DefaultCommandTimeout]
    obtain p e2 rt2 where "receiveSkippingEvents DefaultCommandTimeout rt1 = Some ((p, e2), rt2)" by auto
    with s show ?thesis by (cases e; cases e2) (simp_all add: SendCommand_def)
  qed
  show "\<exists>r e. SendCommand msg rt = Some (r, rt) \<and> snd r = Some e \<and> errors_Is e ErrNotConnected"
    if "rt_conn rt = None" for rt
    using cmd.send_offline [OF that, of msg] by (auto simp: SendCommand_def)
qed

text \<open>An operation that goes on with the answer of \<open>SendCommand\<close>.\<close>

lemma after_SendCommand:
  assumes "\<And>rt. op rt = do {
      ((resp, e), rt) \<leftarrow> SendCommand msg rt;
      case e of Some e \<Rightarrow> Some (bad e, rt) | None \<Rightarrow> Some (good resp, rt) }"
    and "\<And>e. failed (bad e) = Some (Errorf f [AWrap e])"
  shows "connected_exchange op failed"
proof (rule connected_exchangeI)
  show "same_config rt rt'" if "op rt = Some (r, rt')" for rt r rt'
    using that by (auto simp: assms(1) bind_eq_Some_conv dest: SendCommand_config split: option.splits)
  show "\<exists>r rt'. op rt = Some (r, rt')" if "bounded_waits rt" for rt
    using sendCommandOp.returns [OF that, of msg] by (auto simp: assms(1) split: option.splits)
  show "\<exists>r e. op rt = Some (r, rt) \<and> failed r = Some e \<and> errors_Is e ErrNotConnected"
    if off: "rt_conn rt = None" for rt
    using cmd.send_offline [OF off, of msg] by (auto simp: assms SendCommand_def)
qed

interpretation getQTMVersion: connected_exchange GetQTMVersion snd
  by (rule after_SendCommand [OF GetQTMVersion_def]) simp
interpretation getByteOrder: connected_exchange GetByteOrder snd
  by (rule after_SendCommand [OF GetByteOrder_def]) simp
interpretation checkLicense: connected_exchange "CheckLicense code" "\<lambda>e. e" for code
proof (rule after_SendCommand)
  show "CheckLicense code rt = do {
      ((resp, e), rt) \<leftarrow> SendCommand (''CheckLicense '' @ code) rt;
      case e of
        Some e \<Rightarrow> Some (Some (Errorf ''checklicense: %w'' [AWrap e]), rt)
      | None \<Rightarrow> Some (if resp \<noteq> ''License pass'' then Some (Errorf ''checklicense: rejected (%s)'' [AStr resp])
          else None, rt) }" for rt
    unfolding CheckLicense_def by (auto intro!: arg_cong [where f = "Option.bind _"] split: option.splits)
qed simp

lemma wrap_err_not_None [simp]: "wrap_err f e = None \<longleftrightarrow> e = None"
  by (simp add: wrap_err_def)

lemma sending_op:
  assumes "\<And>rt. op rt = (case build of Inl e \<Rightarrow> (Some e, rt)
      | Inr msg \<Rightarrow> (case sendCommand msg rt of (e, rt) \<Rightarrow> (wrap_err f e, rt)))"
  shows "exchange_op (\<lambda>rt. Some (op rt)) (\<lambda>e. e)"
proof (rule exchange_opI)
  show "same_config rt rt'" if "Some (op rt) = Some (r, rt')" for rt r rt'
    using that by (auto simp: assms dest!: cmd.send_config split: sum.splits prod.splits)
  show "\<exists>r rt'. Some (op rt) = Some (r, rt')" for rt
    by (cases "op rt") simp
  show "\<exists>r. Some (op rt) = Some (r, rt) \<and> r \<noteq> None" if "rt_conn rt = None" for rt
  proof (cases build)
    case (Inr msg)
    from cmd.send_offline [OF that, of msg] obtain e where "sendCommand msg rt = (Some e, rt)" by blast
    with Inr show ?thesis by (simp add: assms)
  qed (simp add: assms)
qed

interpretation streamFramesOp: exchange_op
  "\<lambda>rt. Some (streamFrames rate val udpPort udpAddr opts components rt)" "\<lambda>e. e"
  for rate val udpPort udpAddr opts components
  by (rule sending_op [OF streamFrames_def])
interpretation streamFramesStop: exchange_op "\<lambda>rt. Some (StreamFramesStop rt)" "\<lambda>e. e"
  by (rule sending_op [where build = "Inr ''StreamFrames Stop''"]) (simp add: StreamFramesStop_def)


interpretation setVersion: connected_op "SetVersion major minor" "\<lambda>e. e" for major minor
proof (rule connected_opI)
  show "same_link rt rt'" if "SetVersion major minor rt = Some (r, rt')" for rt r rt'
    using SetVersion_link [OF that] by simp
  show "\<exists>r rt'. SetVersion major minor rt = Some (r, rt')" if "bounded_waits rt" for rt
    by (rule SetVersion_returns [OF that])
  show "\<exists>r e. SetVersion major minor rt = Some (r, rt) \<and> r = Some e \<and> errors_Is e ErrNotConnected"
    if "rt_conn rt = None" for rt
    using cmd.answer_offline [OF that, of "''Version '' @ version_string major minor"
        "[''Version set to '' @ version_string major minor]"]
    by (auto simp: SetVersion_def Let_def)
qed

text \<open>An operation that sends a command and then polls for its answer.\<close>

lemma polling_op:
  assumes "\<And>rt. op rt = (case sendCommand (msg rt) rt of
        (Some e, rt) \<Rightarrow> Some (bad (Errorf f [AWrap e]), rt)
      | (None, rt) \<Rightarrow> do { (r, rt) \<leftarrow> poll (rt_now rt + timeout) pick rt; Some (answer r, rt) })"
    and "\<And>e. failed (bad e) = Some e"
  shows "connected_exchange op failed"
proof (rule connected_exchangeI)
  show "same_config rt rt'" if "op rt = Some (r, rt')" for rt r rt'
  proof -
    obtain e rt1 where s: "sendCommand (msg rt) rt = (e, rt1)" by fastforce
    note cfg = cmd.send_config [OF s]
    show ?thesis
    proof (cases e)
      case (Some x)
      with that s cfg show ?thesis by (simp add: assms)
    next
      case None
      with that s obtain a where "poll (rt_now rt1 + timeout) pick rt1 = Some (a, rt')"
        by (auto simp: assms bind_eq_Some_conv)
      from same_config_trans [OF cfg poll_config [OF this]] show ?thesis .
    qed
  qed
  show "\<exists>r rt'. op rt = Some (r, rt')" if "bounded_waits rt" for rt
  proof -
    obtain e rt1 where s: "sendCommand (msg rt) rt = (e, rt1)" by fastforce
    from poll_returns [OF sendCommand_bounded [OF s that], of "rt_now rt1 + timeout" pick] obtain a rt2 where
      "poll (rt_now rt1 + timeout) pick rt1 = Some (a, rt2)" by auto
    with s show ?thesis by (cases e) (simp_all add: assms)
  qed
  show "\<exists>r e. op rt = Some (r, rt) \<and> failed r = Some e \<and> errors_Is e ErrNotConnected"
    if "rt_conn rt = None" for rt
    using cmd.send_offline [OF that, of "msg rt"] by (auto simp: assms)
qed

lemma bind_eqI: "(\<And>x. f x = g x) \<Longrightarrow> Option.bind m f = Option.bind m g"
  by (cases m) simp_all

lemma GetState_poll:
  "GetState rt = (case sendCommand
        (if rt_majorVersion rt = 1 \<and> rt_minorVersion rt \<le> 9 then ''GetLastEvent'' else ''GetState'') rt of
      (Some e, rt) \<Rightarrow> Some ((EventTypeNone, Some (Errorf ''getstate: %w'' [AWrap e])), rt)
    | (None, rt) \<Rightarrow> do {
        (r, rt) \<leftarrow> poll (rt_now rt + DefaultCommandTimeout)
          (\<lambda>p. if pk_Type p = PacketTypeEvent then Some (pk_Event p) else None) rt;
        Some (case r of (Some ev, e) \<Rightarrow> (ev, None)
          | (None, Some e) \<Rightarrow> (EventTypeNone, Some (Errorf ''getstate: %w'' [AWrap e]))
          | (None, None) \<Rightarrow> (EventTypeNone, Some (Errorf ''getstate: %w'' [AWrap ErrTimeout])), rt) })"
  unfolding GetState_def Let_def
  by (auto intro!: bind_eqI split: prod.splits option.splits)

interpretation getState: connected_exchange GetState snd
  by (rule polling_op [OF GetState_poll]) simp

text \<open>A polling operation whose command may be refused before it is sent.\<close>

lemma GetParameters_op: "exchange_op (GetParametersWithOptions opts ps) snd"
proof (cases "parameter_names opts (if ps = [] then [0] else ps)")
  case (Inl x)
  then have eq: "GetParametersWithOptions opts ps rt =
      (if \<not> IsConnected rt then Some (('''', Some (Errorf ''getparameters: %w'' [AWrap ErrNotConnected])), rt)
       else Some (('''', Some x), rt))" for rt
    by (simp add: GetParametersWithOptions_def)
  show ?thesis by (rule exchange_opI) (auto simp: eq split: if_splits)
next
  case (Inr names)
  let ?answer = "\<lambda>r. case r of
      (Some (Inl fragment), e) \<Rightarrow> (fragment, None)
    | (Some (Inr msg), e) \<Rightarrow> ('''', Some (Errorf ''getparameters: %s'' [AStr msg]))
    | (None, Some e) \<Rightarrow> ('''', Some (Errorf ''getparameters: %w'' [AWrap e]))
    | (None, None) \<Rightarrow> ('''', Some (Errorf ''getparameters: %w waiting for XML response'' [AWrap ErrTimeout]))"
  define op where "op rt = (case sendCommand (''GetParameters '' @ Join names '' '') rt of
      (Some e, rt) \<Rightarrow> Some (('''', Some (Errorf ''getparameters: %w'' [AWrap e])), rt)
    | (None, rt) \<Rightarrow> do {
        (r, rt) \<leftarrow> poll (rt_now rt + DefaultCommandTimeout) parameters_answer rt;
        Some (?answer r, rt) })" for rt
  have eq: "GetParametersWithOptions opts ps rt =
      (if \<not> IsConnected rt then Some (('''', Some (Errorf ''getparameters: %w'' [AWrap ErrNotConnected])), rt)
       else op rt)" for rt
    unfolding GetParametersWithOptions_def op_def Inr
    by (auto intro!: bind_eqI split: prod.splits option.splits sum.splits)
  have "connected_exchange op snd"
    by (rule polling_op [where bad = "\<lambda>e. ('''', Some e)", OF op_def]) simp
  then have op: "exchange_op op (snd :: string \<times> err option \<Rightarrow> err option)" "client_op op (snd :: string \<times> err option \<Rightarrow> err option)"
    by (simp_all add: connected_exchange_def exchange_op_def)
  show ?thesis
    by (rule exchange_opI)
      (auto simp: eq IsConnected_def dest: exchange_op.keeps_config [OF op(1)] client_op.returns [OF op(2)] split: if_splits)
qed

interpretation getParameters: exchange_op "GetParametersWithOptions opts ps" snd for opts ps
  by (rule GetParameters_op)

lemma capture_op: "connected_exchange (getCapture msg want) snd"
proof (rule connected_exchangeI)
  fix rt r rt'
  assume "getCapture msg want rt = Some (r, rt')"
  then obtain e rt1 where a: "sendAndWaitForResponse sendCommand msg [''Sending capture''] rt = Some (e, rt1)"
    and r: "rt' = rt1 \<or> (\<exists>p. receiveSkippingEvents DefaultFileTimeout rt1 = Some (p, rt'))"
    by (auto simp: getCapture_def bind_eq_Some_conv split: option.splits if_splits)
  from r have "same_config rt1 rt'" by (auto simp: receiveSkippingEvents_def dest: skip_events_config)
  with cmd.answer_config [OF a] show "same_config rt rt'" by (rule same_config_trans)
next
  fix rt assume b: "bounded_waits rt"
  from cmd.answer_returns [OF b, of msg "[''Sending capture'']"] obtain e rt1 where
    a: "sendAndWaitForResponse sendCommand msg [''Sending capture''] rt = Some (e, rt1)" by auto
  from receiveSkippingEvents_returns [OF bounded_waits_config [OF cmd.answer_config [OF a] b], of DefaultFileTimeout]
  obtain p e2 rt2 where "receiveSkippingEvents DefaultFileTimeout rt1 = Some ((p, e2), rt2)" by auto
  with a show "\<exists>r rt'. getCapture msg want rt = Some (r, rt')"
    by (cases e; cases e2) (simp_all add: getCapture_def)
next
  fix rt :: Protocol assume "rt_conn rt = None"
  from cmd.answer_offline [OF this, of msg "[''Sending capture'']"]
  show "\<exists>r e. getCapture msg want rt = Some (r, rt) \<and> snd r = Some e \<and> errors_Is e ErrNotConnected"
    by (auto simp: getCapture_def)
qed

interpretation getCaptureC3D: connected_exchange GetCaptureC3D snd
  unfolding GetCaptureC3D_def by (rule capture_op)
interpretation getCaptureQTM: connected_exchange GetCaptureQTM snd
  unfolding GetCaptureQTM_def by (rule capture_op)

definition calibration_result :: "(string + unit) option \<times> err option \<Rightarrow> string \<times> err option" where
  "calibration_result r = (case r of
      (Some (Inl xml), e) \<Rightarrow> (xml, None)
    | (Some (Inr u), e) \<Rightarrow> ('''', Some (Errorf ''calibrate: connection closed during calibration'' []))
    | (None, Some e) \<Rightarrow> ('''', Some (Errorf ''calibrate: %w'' [AWrap e]))
    | (None, None) \<Rightarrow> ('''', Some (Errorf ''calibrate: %w waiting for calibration result'' [AWrap ErrTimeout])))"

lemma Calibrate_poll:
  "Calibrate refine timeout rt = do {
     (e, rt) \<leftarrow> sendAndWaitForResponse sendCommand (if refine then ''Calibrate Refine'' else ''Calibrate'')
       [''Starting calibration''] rt;
     case e of
       Some e \<Rightarrow> Some (('''', Some (Errorf ''calibrate: %w'' [AWrap e])), rt)
     | None \<Rightarrow> do {
         (r, rt) \<leftarrow> poll (rt_now rt + (if timeout \<le> 0 then DefaultCalibrationTimeout else timeout)) calibration_answer rt;
         Some (calibration_result r, rt)
       } }"
  unfolding Calibrate_def Let_def calibration_result_def
  by (auto intro!: bind_eqI split: prod.splits option.splits sum.splits)

interpretation calibrate: connected_exchange "Calibrate refine timeout" snd for refine timeout
proof (rule connected_exchangeI)
  define t where "t = (if timeout \<le> 0 then DefaultCalibrationTimeout else timeout)"
  define msg where "msg = (if refine then ''Calibrate Refine'' else ''Calibrate'')"
  note def = Calibrate_poll [of refine timeout, folded t_def msg_def]
  show "same_config rt rt'" if "Calibrate refine timeout rt = Some (r, rt')" for rt r rt'
  proof -
    from that obtain e rt1 where a: "sendAndWaitForResponse sendCommand msg [''Starting calibration''] rt = Some (e, rt1)"
      and r: "rt' = rt1 \<or> (\<exists>a. poll (rt_now rt1 + t) calibration_answer rt1 = Some (a, rt'))"
      by (auto simp: def bind_eq_Some_conv split: option.splits)
    from r have "same_config rt1 rt'" by (auto dest: poll_config)
    with cmd.answer_config [OF a] show "same_config rt rt'" by (rule same_config_trans)
  qed
  show "\<exists>r rt'. Calibrate refine timeout rt = Some (r, rt')" if b: "bounded_waits rt" for rt
  proof -
    from cmd.answer_returns [OF b, of msg "[''Starting calibration'']"] obtain e rt1 where
      a: "sendAndWaitForResponse sendCommand msg [''Starting calibration''] rt = Some (e, rt1)" by auto
    from poll_returns [OF bounded_waits_config [OF cmd.answer_config [OF a] b], of "rt_now rt1 + t" calibration_answer]
    obtain x rt2 where "poll (rt_now rt1 + t) calibration_answer rt1 = Some (x, rt2)" by auto
    with a show ?thesis by (cases e) (simp_all add: def)
  qed
  show "\<exists>r e. Calibrate refine timeout rt = Some (r, rt) \<and> snd r = Some e \<and> errors_Is e ErrNotConnected"
    if "rt_conn rt = None" for rt
    using cmd.answer_offline [OF that, of msg "[''Starting calibration'']"] by (auto simp: def)
qed

interpretation led: exchange_op "Led cameraNumber mode color" "\<lambda>e. e" for cameraNumber mode color
proof -
  obtain m c where mc: "LedMode_String mode = Some m" "LedColor_String color = Some c"
    using stringer_total [OF good_tables(1)] stringer_total [OF good_tables(2)]
    by (fastforce simp: LedMode_String_def LedColor_String_def)
  have "Led cameraNumber mode color = (\<lambda>rt. Some (case sendCommand (''Led '' @ Itoa cameraNumber @ '' '' @ m @ '' '' @ c) rt of
      (e, rt) \<Rightarrow> (wrap_err ''led: %w'' e, rt)))"
    by (simp add: fun_eq_iff Led_def mc)
  moreover have "exchange_op (\<lambda>rt. Some (case sendCommand (''Led '' @ Itoa cameraNumber @ '' '' @ m @ '' '' @ c) rt of
      (e, rt) \<Rightarrow> (wrap_err ''led: %w'' e, rt))) (\<lambda>e. e)"
    by (rule sending_op [where build = "Inr (''Led '' @ Itoa cameraNumber @ '' '' @ m @ '' '' @ c)"]) simp
  ultimately show "exchange_op (Led cameraNumber mode color) (\<lambda>e. e)" by simp
qed

interpretation getCurrentFrame: exchange_op "\<lambda>rt. Some (GetCurrentFrameWithOptions opts components rt)" "\<lambda>e. e"
  for opts components
proof (rule sending_op)
  show "GetCurrentFrameWithOptions opts components rt =
    (case (case componentString opts components of Inl e \<Rightarrow> Inl (Errorf ''getcurrentframe: %w'' [AWrap e])
        | Inr cs \<Rightarrow> Inr (''GetCurrentFrame '' @ cs)) of
      Inl e \<Rightarrow> (Some e, rt)
    | Inr msg \<Rightarrow> (case sendCommand msg rt of (e, rt) \<Rightarrow> (wrap_err ''getcurrentframe: %w'' e, rt)))" for rt
    by (simp add: GetCurrentFrameWithOptions_def split: sum.splits)
qed

interpretation streamFramesUDP: exchange_op
  "\<lambda>rt. Some (StreamFramesUDP rate val udpPort udpAddr opts components rt)" "\<lambda>e. e"
  for rate val udpPort udpAddr opts components
proof (rule sending_op)
  show "StreamFramesUDP rate val udpPort udpAddr opts components rt =
    (case (if udpPort \<le> 0 \<or> udpPort > 65535 then
          Inl (Errorf ''streamframesudp: invalid udp port %d'' [AInt udpPort])
        else if length udpAddr > 64 then Inl (Errorf ''streamframesudp: udp address too long'' [])
        else stream_command rate val udpPort udpAddr opts components) of
      Inl e \<Rightarrow> (Some e, rt)
    | Inr msg \<Rightarrow> (case sendCommand msg rt of (e, rt) \<Rightarrow> (wrap_err ''streamframes: %w'' e, rt)))" for rt
    by (simp add: StreamFramesUDP_def streamFrames_def)
qed

subsection \<open>The states of a client\<close>

inductive is_option :: "(Protocol \<Rightarrow> Protocol) \<Rightarrow> bool" where
  "is_option (WithVersion major minor)"
| "is_option WithoutVersionNegotiation"
| "is_option WithBigEndian"
| "is_option (WithReadTimeout d)"
| "is_option (WithConnectTimeout d)"
| "is_option (WithMaxPacketSize n)"

text \<open>
  An exchange: a call of the public interface that uses the connection as it is, with any
  arguments and any result, or anything that happens outside: time passes, data arrives, the
  peer changes its behaviour.
\<close>

inductive exchange :: "Protocol \<Rightarrow> Protocol \<Rightarrow> bool" where
  receive: "ReceiveTimeout d rt = Some (r, rt') \<Longrightarrow> exchange rt rt'"
| receive_udp: "ReceiveUDP rt = Some (r, rt') \<Longrightarrow> exchange rt rt'"
| send_command: "SendCommand msg rt = Some (r, rt') \<Longrightarrow> exchange rt rt'"
| qtm_version: "GetQTMVersion rt = Some (r, rt') \<Longrightarrow> exchange rt rt'"
| byte_order: "GetByteOrder rt = Some (r, rt') \<Longrightarrow> exchange rt rt'"
| license: "CheckLicense licenseCode rt = Some (e, rt') \<Longrightarrow> exchange rt rt'"
| get_state: "GetState rt = Some (s, rt') \<Longrightarrow> exchange rt rt'"
| get_parameters: "GetParametersWithOptions opts ps rt = Some (r, rt') \<Longrightarrow> exchange rt rt'"
| set_parameters: "SetParameters fragment rt = Some (e, rt') \<Longrightarrow> exchange rt rt'"
| capture: "getCapture msg want rt = Some (f, rt') \<Longrightarrow> exchange rt rt'"
| calibration: "Calibrate refine timeout rt = Some (r, rt') \<Longrightarrow> exchange rt rt'"
| led_command: "Led cameraNumber mode color rt = Some (e, rt') \<Longrightarrow> exchange rt rt'"
| stream: "streamFrames rate val udpPort udpAddr opts components rt = (e, rt') \<Longrightarrow> exchange rt rt'"
| stream_udp: "StreamFramesUDP rate val udpPort udpAddr opts components rt = (e, rt') \<Longrightarrow> exchange rt rt'"
| stop_stream: "StreamFramesStop rt = (e, rt') \<Longrightarrow> exchange rt rt'"
| current_frame: "GetCurrentFrameWithOptions opts components rt = (e, rt') \<Longrightarrow> exchange rt rt'"
| take_control: "TakeControl password rt = Some (e, rt') \<Longrightarrow> exchange rt rt'"
| release_control: "ReleaseControl rt = Some (e, rt') \<Longrightarrow> exchange rt rt'"
| new_connection: "New rt = Some (e, rt') \<Longrightarrow> exchange rt rt'"
| close_file: "Close rt = Some (e, rt') \<Longrightarrow> exchange rt rt'"
| start_measurement: "Start rtFromFile rt = Some (e, rt') \<Longrightarrow> exchange rt rt'"
| stop_measurement: "Stop rt = Some (e, rt') \<Longrightarrow> exchange rt rt'"
| load: "Load filename rt = Some (e, rt') \<Longrightarrow> exchange rt rt'"
| save: "Save filename overwrite rt = Some (e, rt') \<Longrightarrow> exchange rt rt'"
| load_project: "LoadProject path rt = Some (e, rt') \<Longrightarrow> exchange rt rt'"
| trigger: "Trig rt = Some (e, rt') \<Longrightarrow> exchange rt rt'"
| set_event: "SetQTMEvent label rt = Some (e, rt') \<Longrightarrow> exchange rt rt'"
| reprocess: "Reprocess rt = Some (e, rt') \<Longrightarrow> exchange rt rt'"
| quit: "Quit rt = Some (e, rt') \<Longrightarrow> exchange rt rt'"
| world: "rt_conn rt = Some c \<Longrightarrow> exchange rt
    (rt\<lparr>rt_conn := Some (c\<lparr>cn_inbox := q, cn_peer := peer, cn_deadline_err := de\<rparr>), rt_now := t\<rparr>)"
| world_udp: "rt_udpConn rt = Some u \<Longrightarrow> exchange rt
    (rt\<lparr>rt_udpConn := Some (u\<lparr>ud_inbox := uq, ud_deadline_err := de\<rparr>), rt_now := t\<rparr>)"

text \<open>
  A step of the client, with what the caller learns from it: connecting (the version that was
  negotiated, or none), disconnecting, setting a version (and whether it was accepted),
  opening the UDP socket (and whether that succeeded), or an exchange.
\<close>

datatype action = Dialled "(int \<times> int) option" | HungUp | VersionSet "int \<times> int" bool | UDPEnabled bool | Exchanged

inductive client_step :: "action \<Rightarrow> Protocol \<Rightarrow> Protocol \<Rightarrow> bool" where
  connect: "Connect dial rt = Some (e, rt') \<Longrightarrow>
    client_step (Dialled (if e = None then Some (Version rt') else None)) rt rt'"
| disconnect: "client_step HungUp rt (Disconnect rt)"
| set_version: "SetVersion major minor rt = Some (e, rt') \<Longrightarrow>
    client_step (VersionSet (major, minor) (e = None)) rt rt'"
| enable_udp: "EnableUDPStream listenUDP p rt = ((local, e), rt') \<Longrightarrow> client_step (UDPEnabled (e = None)) rt rt'"
| exchanged: "exchange rt rt' \<Longrightarrow> client_step Exchanged rt rt'"

inductive reachable :: "Protocol \<Rightarrow> bool" where
  start: "(\<And>opt. opt \<in> set opts \<Longrightarrow> is_option opt) \<Longrightarrow> reachable (NewProtocol ip basePort opts)"
| step: "reachable rt \<Longrightarrow> client_step a rt rt' \<Longrightarrow> reachable rt'"

definition client_ok :: "Protocol \<Rightarrow> bool" where
  "client_ok rt \<longleftrightarrow> no_leak rt \<and> 4096 \<le> length (rt_buffer rt) \<and>
     (\<not> IsConnected rt \<longrightarrow> Version rt = (0, 0)) \<and> (rt_bigEndian rt \<longleftrightarrow> rt_order rt = BigEndian)"

lemma option_ok: "is_option opt \<Longrightarrow> client_ok rt \<Longrightarrow> client_ok (opt rt)"
  by (induction rule: is_option.induct)
    (simp_all add: client_ok_def no_leak_def IsConnected_def Version_def WithVersion_def
      WithoutVersionNegotiation_def WithBigEndian_def WithReadTimeout_def WithConnectTimeout_def WithMaxPacketSize_def)

lemma options_ok:
  "(\<And>opt. opt \<in> set opts \<Longrightarrow> is_option opt) \<Longrightarrow> client_ok rt \<Longrightarrow> client_ok (foldl (\<lambda>rt opt. opt rt) rt opts)"
  by (induction opts arbitrary: rt) (simp_all add: option_ok)

lemma start_ok: "(\<And>opt. opt \<in> set opts \<Longrightarrow> is_option opt) \<Longrightarrow> client_ok (NewProtocol ip basePort opts)"
  unfolding NewProtocol_def
  by (rule options_ok) (simp_all add: client_ok_def no_leak_def IsConnected_def Version_def)

lemma ok_link:
  assumes "same_link rt rt'" and "rt_conn rt = None \<Longrightarrow> rt' = rt" and "client_ok rt"
  shows "client_ok rt'"
proof (cases "rt_conn rt = None")
  case False
  with assms(1,3) no_leak_link [OF assms(1)] show ?thesis
    by (auto simp: client_ok_def IsConnected_def same_link_def same_config_def)
qed (use assms in simp)

context client_op
begin

lemma keeps_ok: "op rt = Some (r, rt') \<Longrightarrow> client_ok rt \<Longrightarrow> client_ok rt'"
  by (rule ok_link [OF keeps keeps_offline_state])

end

lemma Disconnect_ok: "client_ok rt \<Longrightarrow> client_ok (Disconnect rt)"
  by (auto simp: client_ok_def Disconnect_no_leak IsConnected_def)
    (auto simp: Disconnect_def Let_def Version_def)

lemma Connect_versions:
  assumes "Connect dial rt = Some (e, rt')" and "client_ok rt"
  shows "(\<not> IsConnected rt' \<longrightarrow> Version rt' = (0, 0)) \<and> (rt_bigEndian rt' \<longleftrightarrow> rt_order rt' = BigEndian)"
proof -
  let ?rt0 = "if IsConnected rt then Disconnect rt else rt"
  have rt0: "Version ?rt0 = (0, 0)" "rt_bigEndian ?rt0 \<longleftrightarrow> rt_order ?rt0 = BigEndian"
    using assms(2) by (auto simp: client_ok_def Disconnect_def Let_def IsConnected_def Version_def)
  have disc: "Version (Disconnect rt2) = (0, 0)" if "IsConnected rt2" for rt2
    using that by (auto simp: Disconnect_def Let_def Version_def IsConnected_def)
  obtain d now where dial: "dial (dial_address rt) (rt_connectTimeout rt) (rt_now rt) = (d, now)" by fastforce
  show ?thesis
  proof (cases d)
    case (Inl x)
    with assms(1) Connect_failed_dial [of dial rt x now] dial have "rt' = ?rt0\<lparr>rt_now := now\<rparr>" by auto
    then show ?thesis using rt0 by (simp add: Version_def)
  next
    case (Inr c)
    let ?rt = "dialled c now rt"
    note conn = assms(1) [unfolded Connect_dialled [of dial rt c now, OF dial [unfolded Inr]]]
    then obtain p e1 rt1 where r: "ReceiveTimeout (rt_connectTimeout ?rt) ?rt = Some ((p, e1), rt1)"
      by (auto simp: bind_eq_Some_conv)
    from ReceiveTimeout_config [OF r] have link: "same_link ?rt rt1" by (rule same_config_link)
    have big: "rt_bigEndian ?rt \<longleftrightarrow> rt_order ?rt = BigEndian"
      using assms(2) by (simp add: dialled_def Let_def client_ok_def)
    have keep: "IsConnected rt2 \<and> (rt_bigEndian rt2 \<longleftrightarrow> rt_order rt2 = BigEndian)" if "same_link rt1 rt2" for rt2
      using same_link_trans [OF link that] big by (auto simp: same_link_def same_config_def IsConnected_def)
    have "(\<exists>rt2. same_link rt1 rt2 \<and> (rt' = rt2 \<or> rt' = Disconnect rt2))"
    proof (cases "e1 = None \<and> pk_CommandResponse p = qtmConnectedResponse")
      case True
      with conn r have "try_versions (versionCandidates rt1) None rt1 = Some (e, rt')" by simp
      from try_versions_result [OF this] show ?thesis by auto
    next
      case False
      with conn r have "rt' = Disconnect rt1" by (auto split: option.splits if_splits)
      then show ?thesis using same_link_refl by blast
    qed
    then obtain rt2 where l: "same_link rt1 rt2" and rt': "rt' = rt2 \<or> rt' = Disconnect rt2" by blast
    with keep [OF l] disc show ?thesis by auto
  qed
qed

lemma Connect_ok:
  assumes "Connect dial rt = Some (e, rt')" and "client_ok rt"
  shows "client_ok rt'"
proof -
  from assms(2) have "no_leak rt" and "4096 \<le> length (rt_buffer rt)" by (simp_all add: client_ok_def)
  with Connect_result [OF assms(1)] Connect_versions [OF assms] show ?thesis by (simp add: client_ok_def)
qed

lemma ReceiveUDP_changes:
  assumes "ReceiveUDP rt = Some (r, rt')"
  shows "rt' = rt \<or> (\<exists>u b t. rt_udpConn rt \<noteq> None \<and>
    rt' = rt\<lparr>rt_udpConn := Some u, rt_now := t, rt_udpBuffer := b\<rparr>)"
proof (cases "rt_udpConn rt")
  case None
  with assms show ?thesis by (simp add: ReceiveUDP_def)
next
  case (Some u)
  define u' where "u' = (if rt_readTimeout rt > 0 then u\<lparr>ud_deadline := Some (rt_now rt + rt_readTimeout rt)\<rparr> else u)"
  define buf where "buf = (case rt_udpBuffer rt of None \<Rightarrow> replicate maxUDPDatagramSize 0 | Some buf \<Rightarrow> buf)"
  note def = ReceiveUDP_def [of rt, unfolded Some option.case Let_def, folded u'_def buf_def]
  show ?thesis
  proof (cases "rt_readTimeout rt > 0 \<and> ud_deadline_err u \<noteq> None")
    case True
    with assms show ?thesis by (simp add: def)
  next
    case False
    with assms obtain bs e now q where
      u: "udp_Read (ud_deadline u') (length buf) (rt_now rt) (ud_inbox u') = Some (bs, e, now, q)"
      by (auto simp: def bind_eq_Some_conv)
    define rt1 where "rt1 = rt\<lparr>rt_udpConn := Some (u'\<lparr>ud_inbox := q\<rparr>), rt_now := now,
      rt_udpBuffer := Some (bs @ drop (length bs) buf)\<rparr>"
    from assms False have "rt' = rt1"
      unfolding def u bind.bind_lunit case_prod_conv rt1_def [symmetric]
      by (auto simp: bind_eq_Some_conv split: option.splits if_splits)
    with Some show ?thesis by (auto simp: rt1_def)
  qed
qed

lemma udp_Read_returns: "\<exists>r. udp_Read (Some d) n now q = Some r"
  by (cases q) (auto split: sum.split)

lemma ReceiveUDP_step:
  assumes "rt_udpConn rt = Some u" and "0 < rt_readTimeout rt" and "ud_deadline_err u = None"
  shows "\<exists>bs e now q r. udp_Read (Some (rt_now rt + rt_readTimeout rt))
      (length (case rt_udpBuffer rt of None \<Rightarrow> replicate maxUDPDatagramSize 0 | Some buf \<Rightarrow> buf)) (rt_now rt) (ud_inbox u)
      = Some (bs, e, now, q)
    \<and> ReceiveUDP rt = Some (r, rt\<lparr>rt_udpConn := Some (u\<lparr>ud_deadline := Some (rt_now rt + rt_readTimeout rt), ud_inbox := q\<rparr>),
        rt_now := now, rt_udpBuffer := Some (bs @ drop (length bs)
          (case rt_udpBuffer rt of None \<Rightarrow> replicate maxUDPDatagramSize 0 | Some buf \<Rightarrow> buf))\<rparr>)"
proof -
  define buf where "buf = (case rt_udpBuffer rt of None \<Rightarrow> replicate maxUDPDatagramSize 0 | Some buf \<Rightarrow> buf)"
  let ?dl = "Some (rt_now rt + rt_readTimeout rt)"
  obtain bs e now q where u: "udp_Read ?dl (length buf) (rt_now rt) (ud_inbox u) = Some (bs, e, now, q)"
    using udp_Read_returns [of "rt_now rt + rt_readTimeout rt" "length buf" "rt_now rt" "ud_inbox u"] by (metis prod_cases4)
  define rt1 where "rt1 = rt\<lparr>rt_udpConn := Some (u\<lparr>ud_deadline := ?dl, ud_inbox := q\<rparr>),
        rt_now := now, rt_udpBuffer := Some (bs @ drop (length bs) buf)\<rparr>"
  have sl: "slice (bs @ drop (length bs) buf) 0 (length bs) = Some bs" by (simp add: slice_def)
  have "\<exists>r. ReceiveUDP rt = Some (r, rt1)"
  proof (cases e)
    case None
    obtain e1 p where "Packet_UnmarshalBinary (zero_Packet\<lparr>pk_order := Some (rt_order rt)\<rparr>) bs = Some (e1, p)"
      using Packet_returns by (auto simp: runs_def) blast
    with None u sl assms show ?thesis
      by (cases e1) (auto simp: ReceiveUDP_def Let_def buf_def [symmetric] rt1_def)
  next
    case (Some x)
    with u assms show ?thesis
      by (auto simp: ReceiveUDP_def Let_def buf_def [symmetric] rt1_def)
  qed
  with u show ?thesis unfolding buf_def rt1_def by blast
qed

lemma ReceiveUDP_returns:
  assumes "0 < rt_readTimeout rt"
  shows "\<exists>r. ReceiveUDP rt = Some r"
proof (cases "rt_udpConn rt")
  case (Some u)
  with assms ReceiveUDP_step [of rt u] show ?thesis
    by (cases "ud_deadline_err u") (auto simp: ReceiveUDP_def)
qed (simp add: ReceiveUDP_def)

lemma close_udp_ok: "client_ok rt \<Longrightarrow> rt_udpConn rt \<noteq> None \<Longrightarrow> client_ok (close_udp rt) \<and> rt_udpConn (close_udp rt) = None"
  by (simp add: close_udp_def client_ok_def no_leak_def IsConnected_def Version_def)

lemma open_udp_ok: "client_ok rt \<Longrightarrow> rt_udpConn rt = None \<Longrightarrow>
    client_ok (rt\<lparr>rt_udpConn := Some u, rt_sockets := rt_sockets rt + 1\<rparr>)"
  by (simp add: client_ok_def no_leak_def IsConnected_def Version_def)

lemma EnableUDPStream_ok:
  assumes "EnableUDPStream listenUDP p rt = (r, rt')" and "client_ok rt"
  shows "client_ok rt'"
proof -
  define rt1 where "rt1 = (if rt_udpConn rt \<noteq> None then close_udp rt else rt)"
  have rt1: "client_ok rt1" "rt_udpConn rt1 = None"
    using assms(2) close_udp_ok [of rt] by (simp_all add: rt1_def)
  note def = assms(1) [unfolded EnableUDPStream_def, folded rt1_def, unfolded Let_def]
  show ?thesis
  proof (cases "listenUDP p")
    case (Inl e)
    with def rt1(1) show ?thesis by simp
  next
    case (Inr u)
    note opened = open_udp_ok [OF rt1, of u]
    show ?thesis
    proof (cases "ud_port u")
      case None
      with def Inr close_udp_ok [OF opened] show ?thesis by simp
    next
      case (Some local)
      with def Inr opened show ?thesis by simp
    qed
  qed
qed

lemma receive_config: "ReceiveTimeout d rt = Some (r, rt') \<Longrightarrow> same_config rt rt'"
  by (rule ReceiveTimeout_config)

lemmas capture_config =
  exchange_op.keeps_config [OF connected_exchange.axioms(2) [OF capture_op]]

lemmas exchange_config =
  receive_config sendCommandOp.keeps_config getQTMVersion.keeps_config getByteOrder.keeps_config checkLicense.keeps_config
  getState.keeps_config getParameters.keeps_config setParameters.keeps_config
  calibrate.keeps_config led.keeps_config takeControl.keeps_config releaseControl.keeps_config newConnection.keeps_config
  closeFile.keeps_config startMeasurement.keeps_config stopMeasurement.keeps_config loadFile.keeps_config saveFile.keeps_config
  loadProject.keeps_config trig.keeps_config setQTMEvent.keeps_config reprocess.keeps_config quit.keeps_config
  capture_config
  streamFramesOp.keeps_config [OF arg_cong [where f = Some]] streamFramesUDP.keeps_config [OF arg_cong [where f = Some]]
  streamFramesStop.keeps_config [OF arg_cong [where f = Some]] getCurrentFrame.keeps_config [OF arg_cong [where f = Some]]

text \<open>What an exchange leaves alone: all but the data of the sockets, the buffers and the clock.\<close>

definition same_world :: "Protocol \<Rightarrow> Protocol \<Rightarrow> bool" where
  "same_world rt rt' \<longleftrightarrow> Version rt' = Version rt \<and> rt_sockets rt' = rt_sockets rt
     \<and> versionCandidates rt' = versionCandidates rt \<and> rt_order rt' = rt_order rt \<and> rt_bigEndian rt' = rt_bigEndian rt
     \<and> (rt_conn rt' = None \<longleftrightarrow> rt_conn rt = None) \<and> (rt_udpConn rt' = None \<longleftrightarrow> rt_udpConn rt = None)
     \<and> length (rt_buffer rt) \<le> length (rt_buffer rt')"

lemma same_config_world: "same_config rt rt' \<Longrightarrow> same_world rt rt'"
  by (simp add: same_config_def same_world_def Version_def versionCandidates_def)

lemma exchange_world: "exchange rt rt' \<Longrightarrow> same_world rt rt'"
proof (induction rule: exchange.induct)
  case (receive_udp rt r rt')
  from ReceiveUDP_changes [OF this] show ?case
    by (elim disjE exE conjE) (simp_all add: same_world_def Version_def versionCandidates_def)
qed (erule exchange_config [THEN same_config_world] | simp add: same_world_def Version_def versionCandidates_def)+

lemma exchange_ok: "exchange rt rt' \<Longrightarrow> client_ok rt \<Longrightarrow> client_ok rt'"
  by (drule exchange_world) (auto simp: same_world_def client_ok_def no_leak_def IsConnected_def)

lemmas ReceiveTimeout_ok = exchange_ok [OF exchange.receive]
lemmas ReceiveUDP_ok = exchange_ok [OF exchange.receive_udp]
lemmas StreamFramesStop_ok = exchange_ok [OF exchange.stop_stream]

lemma SetVersion_ok: "SetVersion major minor rt = Some (e, rt') \<Longrightarrow> client_ok rt \<Longrightarrow> client_ok rt'"
  by (rule setVersion.keeps_ok)

lemma client_step_ok: "client_step a rt rt' \<Longrightarrow> client_ok rt \<Longrightarrow> client_ok rt'"
  by (induction rule: client_step.induct)
    (erule (1) Connect_ok SetVersion_ok EnableUDPStream_ok exchange_ok | erule Disconnect_ok)+

subsection \<open>The client\<close>

lemma reachable_ok: "reachable rt \<Longrightarrow> client_ok rt"
  by (induction rule: reachable.induct) (auto intro: start_ok client_step_ok)

text \<open>
  C1: The invariant of a client, in every state it can reach by calls of the interface, in any
  order, with any arguments and results, while anything happens outside: the sockets it has
  open are exactly the ones it still holds, the receive buffer is never too small for a
  header, a disconnected client reports no version, and the byte order is the one that goes
  with the port.
\<close>

theorem client_invariant:
  assumes "reachable rt"
  shows "rt_sockets rt = (if rt_conn rt = None then 0 else 1) + (if rt_udpConn rt = None then 0 else 1)
    \<and> 4096 \<le> length (rt_buffer rt)
    \<and> (if IsConnected rt then True else Version rt = (0, 0))
    \<and> (rt_order rt = BigEndian \<longleftrightarrow> port rt = rt_basePort rt + 2)"
  using reachable_ok [OF assms] by (auto simp: client_ok_def no_leak_def port_def)

theorem client_invariant_witness:
  "\<exists>rt. Connect demo_dial (NewProtocol ''qtm'' 22222 []) = Some (None, rt)
    \<and> rt_sockets (Disconnect rt) = (if rt_conn (Disconnect rt) = None then 0 else 1)
      + (if rt_udpConn (Disconnect rt) = None then 0 else 1)
    \<and> Version (Disconnect rt) = (0, 0)"
proof -
  let ?rt = demo_start
  obtain rt where c: "Connect demo_dial ?rt = Some (None, rt)"
    using Connect_negotiated [where dial = demo_dial and accepts = only_125, OF demo_handshake] demo_found by auto
  have "reachable ?rt" by (rule reachable.start) simp
  from reachable.step [OF reachable.step [OF this client_step.connect [OF c]] client_step.disconnect]
  have "reachable (Disconnect rt)" .
  from client_invariant [OF this] c show ?thesis by (simp add: IsConnected_def)
qed

lemma getCapture_file: "getCapture msg want rt = Some ((f, None), rt') \<Longrightarrow> f \<noteq> None"
  by (auto simp: getCapture_def bind_eq_Some_conv split: option.splits if_splits)

lemma save_capture_returns:
  assumes "get = getCapture msg want" and "bounded_waits rt"
  shows "save_capture get os_WriteFile path w rt \<noteq> None"
proof -
  obtain f e rt' where g: "getCapture msg want rt = Some ((f, e), rt')"
    using client_op.returns [OF connected_op.axioms(1) [OF connected_exchange.axioms(1) [OF capture_op]] assms(2)]
    by (metis prod.exhaust)
  with getCapture_file [of msg want rt f rt'] assms(1) show ?thesis
    by (cases e) (auto simp: save_capture_def)
qed

text \<open>A wait with no limit, on a connection over which nothing comes, does not end.\<close>

lemma ReceiveTimeout_blocks:
  "rt_conn rt = Some c \<Longrightarrow> cn_inbox c = [] \<Longrightarrow> cn_deadline_err c = None \<Longrightarrow> d \<le> 0 \<Longrightarrow> ReceiveTimeout d rt = None"
  by (simp add: ReceiveTimeout_def IsConnected_def setReadDeadline_def conn_SetReadDeadline_def read_buffer_def
      io_ReadFull_def read_loop_net.simps)

text \<open>
  C2: No call hangs and none panics.  In every reachable state, whatever the server sends or does
  not send: with a positive read timeout every operation that receives returns, over TCP and over
  UDP, as does \<open>Connect\<close> when the connect timeout is positive too; \<open>ReceiveTimeout\<close> returns for
  every positive timeout.  The limit is needed, as the documentation says: a \<open>ReceiveTimeout\<close>
  with a non-positive timeout never returns over a connection on which nothing comes.  The
  operations that only send or close (the streaming requests, \<open>StreamFramesStop\<close>,
  \<open>GetCurrentFrame\<close>, \<open>EnableUDPStream\<close>, \<open>Disconnect\<close>) are total functions of the
  model and need no theorem: there a write does not block.
\<close>

theorem operations_return:
  assumes "reachable rt" and "0 < rt_readTimeout rt"
  shows "Receive rt \<noteq> None \<and> SendCommand msg rt \<noteq> None \<and> SetVersion major minor rt \<noteq> None
    \<and> GetQTMVersion rt \<noteq> None \<and> GetByteOrder rt \<noteq> None \<and> CheckLicense licenseCode rt \<noteq> None
    \<and> GetState rt \<noteq> None \<and> TakeControl password rt \<noteq> None \<and> ReleaseControl rt \<noteq> None
    \<and> New rt \<noteq> None \<and> Close rt \<noteq> None \<and> Start rtFromFile rt \<noteq> None \<and> Stop rt \<noteq> None
    \<and> Load filename rt \<noteq> None \<and> Save filename overwrite rt \<noteq> None \<and> LoadProject path rt \<noteq> None
    \<and> Trig rt \<noteq> None \<and> SetQTMEvent label rt \<noteq> None \<and> Reprocess rt \<noteq> None \<and> Quit rt \<noteq> None
    \<and> Led cameraNumber mode color rt \<noteq> None \<and> GetCaptureC3D rt \<noteq> None \<and> GetCaptureQTM rt \<noteq> None
    \<and> Calibrate refine timeout rt \<noteq> None \<and> GetParametersWithOptions opts ps rt \<noteq> None
    \<and> SetParameters fragment rt \<noteq> None \<and> ReceiveUDP rt \<noteq> None
    \<and> SaveCaptureC3D os_WriteFile path w rt \<noteq> None \<and> SaveCaptureQTM os_WriteFile path w rt \<noteq> None
    \<and> (0 < d \<longrightarrow> ReceiveTimeout d rt \<noteq> None) \<and> (0 < rt_connectTimeout rt \<longrightarrow> Connect dial rt \<noteq> None)
    \<and> (\<forall>c. rt_conn rt = Some c \<and> cn_inbox c = [] \<and> cn_deadline_err c = None \<and> d \<le> 0 \<longrightarrow> ReceiveTimeout d rt = None)"
proof -
  have b: "bounded_waits rt"
    using reachable_ok [OF assms(1)] assms(2) by (simp add: client_ok_def bounded_waits_def)
  note returns = receive.returns sendCommandOp.returns setVersion.returns getQTMVersion.returns getByteOrder.returns
    checkLicense.returns getState.returns takeControl.returns releaseControl.returns newConnection.returns
    closeFile.returns startMeasurement.returns stopMeasurement.returns loadFile.returns saveFile.returns
    loadProject.returns trig.returns setQTMEvent.returns reprocess.returns quit.returns led.returns
    getCaptureC3D.returns getCaptureQTM.returns calibrate.returns getParameters.returns setParameters.returns
  have "x \<noteq> None" if "\<exists>r rt'. x = Some (r, rt')" for x :: "('r \<times> Protocol) option" using that by auto
  note some = this
  have saves: "SaveCaptureC3D os_WriteFile path w rt \<noteq> None" "SaveCaptureQTM os_WriteFile path w rt \<noteq> None"
    unfolding SaveCaptureC3D_def SaveCaptureQTM_def
    by (rule save_capture_returns [OF GetCaptureC3D_def b] save_capture_returns [OF GetCaptureQTM_def b])+
  have limits: "0 < d \<longrightarrow> ReceiveTimeout d rt \<noteq> None" "0 < rt_connectTimeout rt \<longrightarrow> Connect dial rt \<noteq> None"
    "ReceiveUDP rt \<noteq> None"
    using ReceiveTimeout_returns [OF b, of d] Connect_returns [OF b, of dial] ReceiveUDP_returns [OF assms(2)] by auto
  have blocks: "\<forall>c. rt_conn rt = Some c \<and> cn_inbox c = [] \<and> cn_deadline_err c = None \<and> d \<le> 0
      \<longrightarrow> ReceiveTimeout d rt = None"
    by (blast intro: ReceiveTimeout_blocks)
  show ?thesis
    by (intro conjI) (rule saves limits blocks | (rule some, rule returns [OF b]))+
qed

theorem operations_return_witness:
  "SendCommand ''Event'' (NewProtocol ''qtm'' 22222 []) \<noteq> None
   \<and> Calibrate True 0 (NewProtocol ''qtm'' 22222 []) \<noteq> None
   \<and> Connect demo_dial (NewProtocol ''qtm'' 22222 []) \<noteq> None"
proof -
  let ?rt = demo_start
  have r: "reachable ?rt" by (rule reachable.start) simp
  have t: "0 < rt_readTimeout ?rt" "0 < rt_connectTimeout ?rt" by (simp_all add: NewProtocol_def)
  note returns = operations_return [OF r t(1), where msg = "''Event''" and major = 1 and minor = 25 and licenseCode = "''''"
      and password = "''''" and rtFromFile = False and filename = "''''" and overwrite = False and path = "''''"
      and label = "''''" and cameraNumber = 1 and mode = 0 and color = 0 and refine = True and timeout = 0
      and opts = "\<lparr>po_SkeletonGlobal = False\<rparr>" and ps = "[]" and fragment = "''''"
      and os_WriteFile = "\<lambda>_ _ _ w. (None, w)" and w = "()" and d = 1 and dial = demo_dial]
  from returns have "SendCommand ''Event'' ?rt \<noteq> None" and "Calibrate True 0 ?rt \<noteq> None"
    and "0 < rt_connectTimeout ?rt \<longrightarrow> Connect demo_dial ?rt \<noteq> None"
    by - (elim conjE, assumption)+
  with t(2) show ?thesis by blast
qed

text \<open>An operation that fails at once for want of a connection and leaves the client as it was.\<close>

definition refuses :: "(Protocol \<Rightarrow> ('r \<times> Protocol) option) \<Rightarrow> ('r \<Rightarrow> err option) \<Rightarrow> Protocol \<Rightarrow> bool" where
  "refuses op failed rt \<longleftrightarrow> (case op rt of None \<Rightarrow> False | Some (r, rt') \<Rightarrow>
     rt' = rt \<and> (case failed r of None \<Rightarrow> False | Some e \<Rightarrow> errors_Is e ErrNotConnected))"

context connected_op
begin

lemma refused: "rt_conn rt = None \<Longrightarrow> refuses op failed rt"
  using offline [of rt] not_connected [of rt] by (fastforce simp: refuses_def split: option.split)

end

text \<open>
  Without a connection every command fails and changes nothing: the error wraps
  \<open>ErrNotConnected\<close>, nothing is waited for and the state of the client is what it was.
\<close>

theorem offline_commands_refused:
  assumes "rt_conn rt = None"
  shows "refuses Receive (\<lambda>(p, e). e) rt \<and> refuses (SendCommand msg) snd rt
    \<and> refuses (SetVersion major minor) (\<lambda>e. e) rt \<and> refuses GetQTMVersion snd rt \<and> refuses GetByteOrder snd rt
    \<and> refuses (CheckLicense licenseCode) (\<lambda>e. e) rt \<and> refuses GetState snd rt
    \<and> refuses (TakeControl password) (\<lambda>e. e) rt \<and> refuses ReleaseControl (\<lambda>e. e) rt \<and> refuses New (\<lambda>e. e) rt
    \<and> refuses Close (\<lambda>e. e) rt \<and> refuses (Start rtFromFile) (\<lambda>e. e) rt \<and> refuses Stop (\<lambda>e. e) rt
    \<and> refuses (Load filename) (\<lambda>e. e) rt \<and> refuses (Save filename overwrite) (\<lambda>e. e) rt
    \<and> refuses (LoadProject path) (\<lambda>e. e) rt \<and> refuses Trig (\<lambda>e. e) rt \<and> refuses (SetQTMEvent label) (\<lambda>e. e) rt
    \<and> refuses Reprocess (\<lambda>e. e) rt \<and> refuses Quit (\<lambda>e. e) rt \<and> refuses GetCaptureC3D snd rt
    \<and> refuses GetCaptureQTM snd rt \<and> refuses (Calibrate refine timeout) snd rt
    \<and> refuses (SetParameters fragment) (\<lambda>e. e) rt"
  by (intro conjI) (rule receive.refused sendCommandOp.refused setVersion.refused getQTMVersion.refused
      getByteOrder.refused checkLicense.refused getState.refused takeControl.refused releaseControl.refused
      newConnection.refused closeFile.refused startMeasurement.refused stopMeasurement.refused loadFile.refused
      saveFile.refused loadProject.refused trig.refused setQTMEvent.refused reprocess.refused quit.refused
      getCaptureC3D.refused getCaptureQTM.refused calibrate.refused setParameters.refused, rule assms)+

theorem offline_commands_refused_witness:
  "refuses (TakeControl ''secret'') (\<lambda>e. e) (NewProtocol ''qtm'' 22222 [])"
proof -
  have "rt_conn (NewProtocol ''qtm'' 22222 []) = None" by (simp add: NewProtocol_def)
  from offline_commands_refused [OF this, where password = "''secret''"] show ?thesis by blast
qed

end
