(* ===== verification/Requests.thy ===== *)
theory Requests
  imports Handshake Parameters
begin

text \<open>
  The requests the client builds (\<open>componentString\<close>, \<open>streamFrames\<close> of \<open>commands.go\<close>): the
  tokens of a component list and the checks before a streaming command is sent.
\<close>

subsection \<open>What a request looks like\<close>

lemma componentName_domain: "componentName c = None \<longleftrightarrow> c < 1 \<or> 19 < c"
proof -
  have "c \<in> {1..19} \<longleftrightarrow> c \<in> set [1..19]" by simp
  then show ?thesis by (auto simp: componentName_def upto.simps)
qed

lemma componentName_plain: "componentName c = Some n \<Longrightarrow> n \<noteq> '''' \<and> CHR '' '' \<notin> set n"
  by (auto simp: componentName_def split: if_splits)

definition tokens :: "ComponentOptions \<Rightarrow> int list \<Rightarrow> string list" where
  "tokens opts cs = map (\<lambda>c. component_part opts c (the (componentName c))) cs"

lemma component_parts_eq:
  "component_parts opts cs = (case List.find (\<lambda>c. c < 1 \<or> 19 < c) cs of
     Some c \<Rightarrow> Inl (Errorf ''unknown component type %d'' [AInt c]) | None \<Rightarrow> Inr (tokens opts cs))"
  by (induction cs) (auto simp: tokens_def componentName_domain [symmetric] split: option.split)

lemma component_part_plain:
  assumes "componentName c = Some n"
  shows "component_part opts c n \<noteq> ''''"
    and "CHR '' '' \<notin> set (co_AnalogChannels opts) \<Longrightarrow> CHR '' '' \<notin> set (component_part opts c n)"
  using componentName_plain [OF assms] by (auto simp: component_part_def)

lemma tokens_plain:
  assumes "\<forall>c \<in> set cs. 1 \<le> c \<and> c \<le> 19"
  shows "'''' \<notin> set (tokens opts cs)"
    and "CHR '' '' \<notin> set (co_AnalogChannels opts) \<Longrightarrow> \<forall>s \<in> set (tokens opts cs). CHR '' '' \<notin> set s"
proof -
  have "\<exists>n. componentName c = Some n" if "c \<in> set cs" for c
    using assms that componentName_domain [of c] by (cases "componentName c") auto
  then have part: "componentName c = Some (the (componentName c))" if "c \<in> set cs" for c
    using that by fastforce
  show "'''' \<notin> set (tokens opts cs)"
    using component_part_plain(1) [OF part] by (auto simp: tokens_def dest: sym)
  show "\<forall>s \<in> set (tokens opts cs). CHR '' '' \<notin> set s" if "CHR '' '' \<notin> set (co_AnalogChannels opts)"
    using component_part_plain(2) [OF part that] by (auto simp: tokens_def)
qed

lemma componentString_eq:
  "componentString opts cs = (case List.find (\<lambda>c. c < 1 \<or> 19 < c) cs of
     Some c \<Rightarrow> Inl (Errorf ''unknown component type %d'' [AInt c])
   | None \<Rightarrow> Inr (Join (tokens opts cs) '' ''))"
  by (simp add: componentString_def component_parts_eq split: option.split)

lemma componentString_empty:
  assumes "\<forall>c \<in> set cs. 1 \<le> c \<and> c \<le> 19"
  shows "Join (tokens opts cs) '' '' = '''' \<longleftrightarrow> cs = []"
  using Join_eq_Nil [OF tokens_plain(1) [OF assms], of _ "'' ''"] by (simp add: tokens_def)

lemma find_bad: "List.find (\<lambda>c. c < 1 \<or> 19 < (c :: int)) cs = None \<longleftrightarrow> (\<forall>c \<in> set cs. 1 \<le> c \<and> c \<le> 19)"
  by (auto simp: find_None_iff not_less)

text \<open>
  The tokens of the protocol, for the component types 1 to 19 in their order: the name, the channel
  selection of the two analog components (3 and 13), and the request for global coordinates of the
  skeleton component (18).
\<close>

definition request_names :: "string list" where
  "request_names = [''3D'', ''3DNoLabels'', ''Analog'', ''Force'', ''6D'', ''6DEuler'', ''2D'', ''2DLin'', ''3DRes'',
     ''3DNoLabelsRes'', ''6DRes'', ''6DEulerRes'', ''AnalogSingle'', ''Image'', ''ForceSingle'', ''GazeVector'',
     ''Timecode'', ''Skeleton'', ''EyeTracker'']"

definition request_token :: "ComponentOptions \<Rightarrow> int \<Rightarrow> string" where
  "request_token opts c = request_names ! nat (c - 1)
     @ (if c \<in> {3, 13} \<and> co_AnalogChannels opts \<noteq> '''' then '':'' @ co_AnalogChannels opts else '''')
     @ (if c = 18 \<and> co_SkeletonGlobal opts then '':global'' else '''')"

lemma component_part_token:
  assumes "1 \<le> c" and "c \<le> 19"
  shows "component_part opts c (the (componentName c)) = request_token opts c"
proof -
  have "list_all (\<lambda>c. component_part opts c (the (componentName c)) = request_token opts c) [1..19]"
    by (simp add: upto.simps component_part_def componentName_def request_token_def request_names_def numeral_eq_Suc)
  with assms show ?thesis by (simp add: list_all_iff)
qed

lemma tokens_request: "\<forall>c \<in> set cs. 1 \<le> c \<and> c \<le> 19 \<Longrightarrow> tokens opts cs = map (request_token opts) cs"
  by (simp add: tokens_def component_part_token)

text \<open>
  C27: A component request is the list of the tokens of the protocol for the components in the order
  asked, separated by single blanks: the name of each component, which differs from all others, with
  the analog channels for the two analog components and \<open>:global\<close> for the skeletons when the options
  ask for it. It fails exactly when some type is unknown, with the first of those. When the channel
  selection has no blank in it, the tokens can be read back from the request.
\<close>

theorem request_tokens:
  "(case componentString opts cs of
      Inr s \<Rightarrow> set cs \<subseteq> {1..19} \<and> s = Join (map (request_token opts) cs) '' ''
        \<and> (cs \<noteq> [] \<and> CHR '' '' \<notin> set (co_AnalogChannels opts) \<longrightarrow> Split s CHR '' '' = map (request_token opts) cs)
    | Inl e \<Rightarrow> (\<exists>pre c post. cs = pre @ c # post \<and> set pre \<subseteq> {1..19} \<and> c \<notin> {1..19}
        \<and> e = Errorf ''unknown component type %d'' [AInt c]))
    \<and> distinct request_names"
proof
  show "case componentString opts cs of
      Inr s \<Rightarrow> set cs \<subseteq> {1..19} \<and> s = Join (map (request_token opts) cs) '' ''
        \<and> (cs \<noteq> [] \<and> CHR '' '' \<notin> set (co_AnalogChannels opts) \<longrightarrow> Split s CHR '' '' = map (request_token opts) cs)
    | Inl e \<Rightarrow> (\<exists>pre c post. cs = pre @ c # post \<and> set pre \<subseteq> {1..19} \<and> c \<notin> {1..19}
        \<and> e = Errorf ''unknown component type %d'' [AInt c])"
  proof (cases "List.find (\<lambda>c. c < 1 \<or> 19 < c) cs")
    case None
    then have ok: "\<forall>c \<in> set cs. 1 \<le> c \<and> c \<le> 19" by (simp add: find_bad)
    moreover have "Split (Join (tokens opts cs) '' '') CHR '' '' = tokens opts cs"
      if "cs \<noteq> []" "CHR '' '' \<notin> set (co_AnalogChannels opts)"
      by (rule Split_Join [OF _ tokens_plain(2) [OF ok that(2)]]) (simp add: tokens_def that(1))
    ultimately show ?thesis by (auto simp: componentString_eq None tokens_request [OF ok])
  next
    case (Some c)
    then obtain i where i: "i < length cs" "cs ! i < 1 \<or> 19 < cs ! i" "c = cs ! i"
      "\<forall>j<i. 1 \<le> cs ! j \<and> cs ! j \<le> 19"
      by (auto simp: find_Some_iff not_less)
    moreover from i have "set (take i cs) \<subseteq> {1..19}" by (auto simp: in_set_conv_nth)
    ultimately show ?thesis
      using id_take_nth_drop [of i cs] by (auto simp: componentString_eq Some)
  qed
  show "distinct request_names" by (simp add: request_names_def)
qed

theorem request_tokens_witness:
  "componentString \<lparr>co_AnalogChannels = ''1-4'', co_SkeletonGlobal = True\<rparr> [3, 18, 10] = Inr ''Analog:1-4 Skeleton:global 3DNoLabelsRes''
   \<and> Split ''Analog:1-4 Skeleton:global 3DNoLabelsRes'' CHR '' '' = [''Analog:1-4'', ''Skeleton:global'', ''3DNoLabelsRes'']"
proof -
  let ?opts = "\<lparr>co_AnalogChannels = ''1-4'', co_SkeletonGlobal = True\<rparr>"
  let ?cs = "[3, 18, 10 :: int]"
  note tokens = request_tokens [of ?cs ?opts]
  have known: "\<not> (?cs = pre @ c # post \<and> set pre \<subseteq> {1..19} \<and> c \<notin> {1..19} \<and> P c)" for pre c post P
  proof
    assume eq: "?cs = pre @ c # post \<and> set pre \<subseteq> {1..19} \<and> c \<notin> {1..19} \<and> P c"
    then have "c \<in> set ?cs" by (metis in_set_conv_decomp)
    then have "1 \<le> c \<and> c \<le> 19" by auto
    with eq show False by simp
  qed
  have names: "map (request_token ?opts) ?cs = [''Analog:1-4'', ''Skeleton:global'', ''3DNoLabelsRes'']"
    by (simp add: request_token_def request_names_def numeral_eq_Suc)
  show ?thesis
  proof (cases "componentString ?opts ?cs")
    case (Inl e)
    with tokens known show ?thesis by auto
  next
    case (Inr s)
    with tokens names show ?thesis by simp
  qed
qed

text \<open>The command is built exactly for a known rate and a non-empty list of known components.\<close>

lemma stream_command_iff:
  "stream_command rate val udpPort udpAddr opts cs =
    Inr (''StreamFrames'' @ the (rate_string rate val) @ udp_string udpPort udpAddr @ '' '' @ Join (tokens opts cs) '' '')
   \<and> rate \<in> {0, 1, 2} \<and> cs \<noteq> [] \<and> set cs \<subseteq> {1..19}
   \<or> (\<exists>x. stream_command rate val udpPort udpAddr opts cs = Inl x) \<and> \<not> (rate \<in> {0, 1, 2} \<and> cs \<noteq> [] \<and> set cs \<subseteq> {1..19})"
proof (cases "rate_string rate val")
  case None
  then show ?thesis by (auto simp: stream_command_def rate_string_def split: if_splits)
next
  case (Some r)
  then have rate: "rate \<in> {0, 1, 2}" by (auto simp: rate_string_def split: if_splits)
  have range: "set cs \<subseteq> {1..19} \<longleftrightarrow> List.find (\<lambda>c. c < 1 \<or> 19 < c) cs = None" by (auto simp: find_bad)
  show ?thesis
  proof (cases "cs \<noteq> [] \<and> set cs \<subseteq> {1..19}")
    case True
    then have "\<forall>c \<in> set cs. 1 \<le> c \<and> c \<le> 19" by auto
    with True show ?thesis
      using rate range by (simp add: stream_command_def componentString_eq componentString_empty Some)
  next
    case False
    then show ?thesis using range by (auto simp: stream_command_def componentString_eq tokens_def Some split: option.splits)
  qed
qed

text \<open>
  C28: A streaming request to a UDP endpoint is checked completely before anything is sent:
  over a connection that takes what is written, it succeeds exactly for a port from 1 to
  65535, an address of at most 64 bytes, one of the three rate types and a non-empty list
  of known components; then exactly one command packet is written, otherwise nothing.
\<close>

theorem stream_request_checked:
  assumes "rt_conn rt = Some c" and "\<And>w. \<exists>evs. cn_peer c w = Inr evs"
    and "StreamFramesUDP rate val udpPort udpAddr opts cs rt = (e, rt')"
  shows "(e = None \<longleftrightarrow> 0 < udpPort \<and> udpPort \<le> 65535 \<and> length udpAddr \<le> 64 \<and> rate \<in> {0, 1, 2}
      \<and> cs \<noteq> [] \<and> set cs \<subseteq> {1..19})
    \<and> (\<exists>c'. rt_conn rt' = Some c' \<and> cn_outbox c' = cn_outbox c @
        (if e = None then [frame_string (rt_order rt) (''StreamFrames'' @ the (rate_string rate val)
            @ udp_string udpPort udpAddr @ '' '' @ Join (tokens opts cs) '' '') PacketTypeCommand]
         else []))"
proof -
  have send: "\<exists>rt2 c'. sendCommand s rt = (None, rt2) \<and> rt_conn rt2 = Some c'
      \<and> cn_outbox c' = cn_outbox c @ [frame_string (rt_order rt) s PacketTypeCommand]" for s
    using assms(1) assms(2) [of "cn_outbox c @ [frame_string (rt_order rt) s PacketTypeCommand]"]
    by (auto simp: sendCommand_def sendString_def conn_Write_def)
  let ?cmd = "''StreamFrames'' @ the (rate_string rate val) @ udp_string udpPort udpAddr @ '' '' @ Join (tokens opts cs) '' ''"
  show ?thesis
  proof (cases "0 < udpPort \<and> udpPort \<le> 65535 \<and> length udpAddr \<le> 64")
    case True
    then have "StreamFramesUDP rate val udpPort udpAddr opts cs rt = streamFrames rate val udpPort udpAddr opts cs rt"
      by (simp add: StreamFramesUDP_def)
    with stream_command_iff [of rate val udpPort udpAddr opts cs] True send [of ?cmd] assms(1,3) show ?thesis
      by (elim disjE conjE exE) (auto simp: streamFrames_def)
  next
    case False
    with assms(1,3) show ?thesis by (auto simp: StreamFramesUDP_def split: if_splits)
  qed
qed

end
