(* ===== verification/Exchanges.thy ===== *)
theory Exchanges
  imports Requests
begin

text \<open>
  Exchanges with the server: the framing of commands and their answers, file transfers, the
  UDP data path and the settings fragment (\<open>commands.go\<close>, \<open>parameters.go\<close>).
\<close>

subsection \<open>Commands and their answers\<close>

lemma frame_string_eq: "frame_string ord s t = enc_packet ord t (to_bytes s @ [0])"
  by (simp add: frame_string_def enc_packet_def Let_def algebra_simps)

lemma packet_result_text:
  assumes "text_string s"
  shows "packet_result ord (PacketTypeCommand, to_bytes s @ [0]) =
    (zero_Packet\<lparr>pk_order := Some ord, pk_Size := uint (of_nat (packetHeaderSize + length s + 1) :: u32),
       pk_Type := PacketTypeCommand, pk_CommandResponse := s\<rparr>, None)"
  using trimStringResponse_text [OF assms, of 1]
  by (simp add: packet_result_def Packet_UnmarshalBinary_enc decoded_payload_def receive_result_def algebra_simps)

lemma fits_limits: "fits rt (t, payload) \<Longrightarrow>
    packetHeaderSize < length (rt_buffer rt) \<and> int packetHeaderSize < rt_maxPacketSize rt"
  by (auto simp: fits_def acceptable_def length_greater_0_conv [symmetric] simp del: length_greater_0_conv)

text \<open>The answer to a command that has been sent, behind any events.\<close>

lemma answer_delivered:
  assumes "send msg rt = (None, rt1)" and "healthy rt1" and "timely T DefaultCommandTimeout rt1"
    and "incoming T rt1 = enc_packets (rt_order rt1) (event_packets evs)
      @ enc_packet (rt_order rt1) PacketTypeCommand (to_bytes s @ [0]) @ rest"
    and "fits rt1 (PacketTypeCommand, to_bytes s @ [0])" and "text_string s"
  shows "\<exists>rt'. sendAndWaitForResponse send msg expected rt = Some (if list_ex (EqualFold s) expected then None
      else Some (Errorf ''unexpected response (%s), wanted one of %v'' [AStr s, AStrs expected]), rt')
    \<and> incoming T rt' = rest \<and> healthy rt' \<and> same_config rt1 rt' \<and> rt_state rt' = last_state (rt_state rt1) evs
    \<and> rt_now rt1 \<le> rt_now rt' \<and> rt_now rt' \<le> T \<and> length (rt_buffer rt') = length (rt_buffer rt1)"
proof -
  have T: "T < rt_now rt1 + DefaultCommandTimeout" using assms(3) by (simp add: timely_def)
  obtain rt' where r: "skip_events DefaultCommandTimeout (rt_now rt1 + DefaultCommandTimeout) rt1
      = Some (packet_result (rt_order rt1) (PacketTypeCommand, to_bytes s @ [0]), rt')"
    and rt': "incoming T rt' = rest" "healthy rt'" "same_config rt1 rt'" "rt_state rt' = last_state (rt_state rt1) evs"
      "rt_now rt1 \<le> rt_now rt'" "rt_now rt' \<le> T" "length (rt_buffer rt') = length (rt_buffer rt1)"
    using skip_events_delivers [OF assms(2) _ T _ assms(4) _ _ assms(5), of DefaultCommandTimeout]
      fits_limits [OF assms(5)] assms(3) by auto
  have "sendAndWaitForResponse send msg expected rt = Some (if list_ex (EqualFold s) expected then None
      else Some (Errorf ''unexpected response (%s), wanted one of %v'' [AStr s, AStrs expected]), rt')"
    using assms(1) r
    by (simp add: sendAndWaitForResponse_def receiveSkippingEvents_def packet_result_text [OF assms(6)]
        response_error_def zero_Packet_def)
  with rt' show ?thesis by blast
qed

text \<open>
  C26: Commands are framed as packets: what is written for a command or an XML fragment is
  one packet whose size field counts header, text and terminator, and the packet decoder
  reads the same text back, in either byte order.
\<close>

theorem command_framing:
  assumes "text_string s" and "packetHeaderSize + length s + 1 < 2 ^ 32"
  shows "Packet_UnmarshalBinary (zero_Packet\<lparr>pk_order := Some ord\<rparr>) (frame_string ord s PacketTypeCommand) =
      Some (None, zero_Packet\<lparr>pk_order := Some ord, pk_Size := int (length (frame_string ord s PacketTypeCommand)),
        pk_Type := PacketTypeCommand, pk_CommandResponse := s\<rparr>)
    \<and> Packet_UnmarshalBinary (zero_Packet\<lparr>pk_order := Some ord\<rparr>) (frame_string ord s PacketTypeXML) =
      Some (None, zero_Packet\<lparr>pk_order := Some ord, pk_Size := int (length (frame_string ord s PacketTypeXML)),
        pk_Type := PacketTypeXML, pk_XMLResponse := s\<rparr>)"
proof -
  let ?n = "packetHeaderSize + length (to_bytes s @ [0])"
  have "unat (of_nat ?n :: u32) = ?n mod 2 ^ LENGTH(32)" by (rule unat_of_nat)
  also have "\<dots> = ?n" using assms(2) by (intro mod_less) simp
  finally have "uint (of_nat ?n :: u32) = int ?n" by (simp only: uint_nat)
  then show ?thesis
    using trimStringResponse_text [OF assms(1), of 1]
    unfolding frame_string_eq Packet_UnmarshalBinary_enc length_enc_packet
    by (simp only: decoded_payload_def) simp
qed

theorem command_framing_witness:
  "Packet_UnmarshalBinary (zero_Packet\<lparr>pk_order := Some BigEndian\<rparr>) (frame_string BigEndian ''GetState'' PacketTypeCommand) =
      Some (None, zero_Packet\<lparr>pk_order := Some BigEndian,
        pk_Size := int (length (frame_string BigEndian ''GetState'' PacketTypeCommand)),
        pk_Type := PacketTypeCommand, pk_CommandResponse := ''GetState''\<rparr>)
    \<and> Packet_UnmarshalBinary (zero_Packet\<lparr>pk_order := Some BigEndian\<rparr>) (frame_string BigEndian ''GetState'' PacketTypeXML) =
      Some (None, zero_Packet\<lparr>pk_order := Some BigEndian,
        pk_Size := int (length (frame_string BigEndian ''GetState'' PacketTypeXML)),
        pk_Type := PacketTypeXML, pk_XMLResponse := ''GetState''\<rparr>)"
  by (rule command_framing) (simp_all add: text_string_def)

text \<open>
  C13: A command succeeds exactly when its answer is one of the expected texts up to case:
  whatever events arrive before the answer, the first command packet decides, the events
  are recorded, and what follows the answer stays for the next call.
\<close>

theorem command_acknowledged:
  assumes "sendCommand msg rt = (None, rt1)" and "healthy rt1" and "timely T DefaultCommandTimeout rt1"
    and "incoming T rt1 = enc_packets (rt_order rt1) (event_packets evs)
      @ enc_packet (rt_order rt1) PacketTypeCommand (to_bytes s @ [0]) @ rest"
    and "fits rt1 (PacketTypeCommand, to_bytes s @ [0])" and "text_string s"
  shows "\<exists>e rt'. sendAndWaitForResponse sendCommand msg expected rt = Some (e, rt')
    \<and> (e = None \<longleftrightarrow> list_ex (EqualFold s) expected) \<and> incoming T rt' = rest
    \<and> rt_state rt' = last_state (rt_state rt1) evs"
  using answer_delivered [where send = sendCommand, OF assms, of expected] by (auto split: if_splits)

text \<open>
  The branch of \<open>sendAndWaitForResponse\<close> for error responses is dead: the packet it looks
  at never carries an error text, since \<open>ReceiveTimeout\<close> has turned every error packet with a
  text into an error before; a response is accepted or reported as unexpected.
\<close>

lemma error_response_branch_dead:
  assumes "receiveSkippingEvents timeout rt = Some ((p, None), rt')"
  shows "response_error expected p = (if list_ex (EqualFold (pk_CommandResponse p)) expected then None
    else Some (Errorf ''unexpected response (%s), wanted one of %v'' [AStr (pk_CommandResponse p), AStrs expected]))"
  using skip_events_no_error_text [OF assms [unfolded receiveSkippingEvents_def]]
  by (simp add: response_error_def)

subsection \<open>File transfers\<close>

lemma packet_result_file:
  assumes "want = PacketTypeC3DFile \<or> want = PacketTypeQTMFile"
  shows "\<exists>p. packet_result ord (want, payload) = (p, None) \<and> pk_Type p = want
    \<and> pk_File p = \<lparr>fp_Size = of_nat (length payload), fp_Type = want, fp_File = payload\<rparr>"
  using assms by (auto simp: packet_result_def Packet_UnmarshalBinary_enc decoded_payload_def receive_result_def)

text \<open>
  A capture download gives the caller the file byte for byte, with its length and type,
  behind any events, when the file packet fits in the receive buffer; the bytes that follow
  it stay in the stream.
\<close>

lemma capture_transfer:
  assumes "want = PacketTypeC3DFile \<or> want = PacketTypeQTMFile"
    and "sendCommand msg rt = (None, rt1)" and "healthy rt1" and "timely T DefaultCommandTimeout rt1"
    and "incoming T rt1 = enc_packets (rt_order rt1) (event_packets evs)
      @ enc_packet (rt_order rt1) PacketTypeCommand (to_bytes ''Sending capture'' @ [0])
      @ enc_packet (rt_order rt1) want payload @ rest"
    and "fits rt1 (PacketTypeCommand, to_bytes ''Sending capture'' @ [0])" and "fits rt1 (want, payload)"
  shows "\<exists>rt'. getCapture msg want rt =
      Some ((Some \<lparr>fp_Size = of_nat (length payload), fp_Type = want, fp_File = payload\<rparr>, None), rt')
    \<and> incoming T rt' = rest"
proof -
  have "text_string ''Sending capture''" by (simp add: text_string_def)
  from answer_delivered [where send = sendCommand, OF assms(2-6) this, of "[''Sending capture'']"] obtain rt2 where
    a: "sendAndWaitForResponse sendCommand msg [''Sending capture''] rt = Some (None, rt2)"
    and rt2: "incoming T rt2 = enc_packet (rt_order rt1) want payload @ rest" "healthy rt2" "same_config rt1 rt2"
      "rt_now rt1 \<le> rt_now rt2" "rt_now rt2 \<le> T"
    by auto
  have ord: "rt_order rt2 = rt_order rt1" using rt2(3) by (simp add: same_config_def)
  have time: "timely T DefaultFileTimeout rt2" "T < rt_now rt2 + DefaultFileTimeout"
    using assms(4) rt2(3-5) by (auto simp: timely_def same_config_def)
  have fit: "fits rt2 (want, payload)" using fits_config [OF rt2(3)] assms(7) .
  obtain p where p: "packet_result (rt_order rt2) (want, payload) = (p, None)" "pk_Type p = want"
    "pk_File p = \<lparr>fp_Size = of_nat (length payload), fp_Type = want, fp_File = payload\<rparr>"
    using packet_result_file [OF assms(1)] by blast
  obtain rt3 where "receiveSkippingEvents DefaultFileTimeout rt2 = Some ((p, None), rt3)" "incoming T rt3 = rest"
    using skip_events_delivers [OF rt2(2) _ time(2) _ _ _ _ fit, of DefaultFileTimeout "[]" rest]
      fits_limits [OF fit] time rt2(1) assms(1) p(1)
    by (auto simp: receiveSkippingEvents_def ord enc_packets_def event_packets_def)
  with a p show ?thesis by (simp add: getCapture_def)
qed

text \<open>A file packet that is larger than the receive buffer: the download fails.\<close>

lemma capture_misread:
  assumes "sendCommand msg rt = (None, rt1)" and "healthy rt1" and "timely T DefaultCommandTimeout rt1"
    and "incoming T rt1 = enc_packets (rt_order rt1) (event_packets evs)
      @ enc_packet (rt_order rt1) PacketTypeCommand (to_bytes ''Sending capture'' @ [0])
      @ enc_packet (rt_order rt1) want payload @ rest"
    and "fits rt1 (PacketTypeCommand, to_bytes ''Sending capture'' @ [0])"
    and "acceptable rt1 payload" and "length (rt_buffer rt1) < packetHeaderSize + length payload"
  shows "\<exists>e rt'. getCapture msg want rt = Some ((None, Some e), rt') \<and> incoming T rt' = rest"
proof -
  have "text_string ''Sending capture''" by (simp add: text_string_def)
  from answer_delivered [where send = sendCommand, OF assms(1-5) this, of "[''Sending capture'']"] obtain rt2 where
    a: "sendAndWaitForResponse sendCommand msg [''Sending capture''] rt = Some (None, rt2)"
    and rt2: "incoming T rt2 = enc_packet (rt_order rt1) want payload @ rest" "healthy rt2" "same_config rt1 rt2"
      "rt_now rt1 \<le> rt_now rt2" "rt_now rt2 \<le> T" "length (rt_buffer rt2) = length (rt_buffer rt1)"
    by auto
  have cfg: "rt_order rt2 = rt_order rt1" "acceptable rt2 payload"
    using rt2(3) assms(6) by (simp_all add: same_config_def acceptable_def)
  have time: "timely T DefaultFileTimeout rt2" using assms(3) rt2(3-5) by (auto simp: timely_def same_config_def)
  from ReceiveTimeout_large [OF rt2(2) time _ cfg(2), of want rest] rt2(1,6) assms(7) cfg(1) obtain p e rt3 where
    "ReceiveTimeout DefaultFileTimeout rt2 = Some ((p, Some e), rt3)" "incoming T rt3 = rest"
    by (auto simp: misread_def)
  then have "receiveSkippingEvents DefaultFileTimeout rt2 = Some ((p, Some e), rt3) \<and> incoming T rt3 = rest"
    by (simp add: receiveSkippingEvents_def skip_events_eq skip_wait_def)
  with a show ?thesis by (simp add: getCapture_def)
qed

lemma save_capture_transfer:
  assumes "want = PacketTypeC3DFile \<or> want = PacketTypeQTMFile"
    and "sendCommand msg rt = (None, rt1)" and "healthy rt1" and "timely T DefaultCommandTimeout rt1"
    and "incoming T rt1 = enc_packets (rt_order rt1) (event_packets evs)
      @ enc_packet (rt_order rt1) PacketTypeCommand (to_bytes ''Sending capture'' @ [0])
      @ enc_packet (rt_order rt1) want payload @ rest"
    and "fits rt1 (PacketTypeCommand, to_bytes ''Sending capture'' @ [0])" and "fits rt1 (want, payload)"
  shows "\<exists>rt'. save_capture (getCapture msg want) os_WriteFile path w rt =
      Some (case os_WriteFile path payload 384 w of
          (None, w) \<Rightarrow> (None, w)
        | (Some e, w) \<Rightarrow> (Some (Errorf ''filepacket: write %s: %w'' [AStr path, AWrap e]), w), rt')
    \<and> incoming T rt' = rest"
proof -
  from capture_transfer [OF assms] obtain rt' where
    g: "getCapture msg want rt = Some ((Some \<lparr>fp_Size = of_nat (length payload), fp_Type = want, fp_File = payload\<rparr>, None), rt')"
    and rest: "incoming T rt' = rest" by blast
  have "payload \<noteq> []" using assms(7) by (simp add: fits_def)
  with g have "save_capture (getCapture msg want) os_WriteFile path w rt =
      Some (case os_WriteFile path payload 384 w of
          (None, w) \<Rightarrow> (None, w)
        | (Some e, w) \<Rightarrow> (Some (Errorf ''filepacket: write %s: %w'' [AStr path, AWrap e]), w), rt')"
    by (simp add: save_capture_def WriteFile_def split: prod.split option.split)
  with rest show ?thesis by blast
qed

lemma save_capture_failed:
  "get rt = Some ((f, Some e), rt') \<Longrightarrow> save_capture get os_WriteFile path w rt = Some ((Some e, w), rt')"
  by (simp add: save_capture_def)

text \<open>
  C22: Saving a capture stores the file QTM sends, C3D or QTM, when its packet fits in the receive
  buffer (4096 bytes, header included, until a larger packet has been received): behind any
  events before the transfer, exactly its bytes are written under the given path, once, with mode
  0600, and an error of the file system is returned.  A larger file, up to the packet limit, is
  misread: the call fails and nothing is written.  Either way what follows stays in the stream.
\<close>

theorem capture_saved:
  assumes "want = PacketTypeC3DFile \<or> want = PacketTypeQTMFile"
    and "sendCommand (if want = PacketTypeC3DFile then ''GetCaptureC3D'' else ''GetCaptureQTM'') rt = (None, rt1)"
    and "healthy rt1" and "timely T DefaultCommandTimeout rt1"
    and "incoming T rt1 = enc_packets (rt_order rt1) (event_packets evs)
      @ enc_packet (rt_order rt1) PacketTypeCommand (to_bytes ''Sending capture'' @ [0])
      @ enc_packet (rt_order rt1) want payload @ rest"
    and "fits rt1 (PacketTypeCommand, to_bytes ''Sending capture'' @ [0])"
    and "payload \<noteq> []" and "acceptable rt1 payload"
  shows "\<exists>e rt'. (if want = PacketTypeC3DFile then SaveCaptureC3D else SaveCaptureQTM) os_WriteFile path w rt
      = Some (if packetHeaderSize + length payload \<le> length (rt_buffer rt1) then
            (case os_WriteFile path payload 384 w of
              (None, w) \<Rightarrow> (None, w)
            | (Some e, w) \<Rightarrow> (Some (Errorf ''filepacket: write %s: %w'' [AStr path, AWrap e]), w))
          else (Some e, w), rt')
    \<and> incoming T rt' = rest"
proof (cases "packetHeaderSize + length payload \<le> length (rt_buffer rt1)")
  case True
  with assms(7,8) have "fits rt1 (want, payload)" by (simp add: fits_def)
  from save_capture_transfer [OF assms(1-6) this, of os_WriteFile path w] assms(1) True show ?thesis
    by (auto simp: SaveCaptureC3D_def SaveCaptureQTM_def GetCaptureC3D_def GetCaptureQTM_def)
next
  case False
  with capture_misread [OF assms(2-6,8)] obtain e rt' where
    "getCapture (if want = PacketTypeC3DFile then ''GetCaptureC3D'' else ''GetCaptureQTM'') want rt = Some ((None, Some e), rt')"
    "incoming T rt' = rest" by (fastforce simp: not_le)
  with save_capture_failed [where f = None and e = e and rt = rt and rt' = rt' and
      get = "getCapture (if want = PacketTypeC3DFile then ''GetCaptureC3D'' else ''GetCaptureQTM'') want"] assms(1) False show ?thesis
    by (intro exI [of _ e] exI [of _ rt'])
      (auto simp: SaveCaptureC3D_def SaveCaptureQTM_def GetCaptureC3D_def GetCaptureQTM_def)
qed

text \<open>A command sent over the demonstration connection.\<close>

definition demo_sent :: "bytes \<Rightarrow> string \<Rightarrow> Protocol" where
  "demo_sent bs msg = snd (sendCommand msg (demo_client bs))"

lemma demo_sent [simp]:
  "sendCommand msg (demo_client bs) = (None, demo_sent bs msg)"
  "healthy (demo_sent bs msg)" "incoming 2 (demo_sent bs msg) = bs" "2 < d \<Longrightarrow> timely 2 d (demo_sent bs msg)"
  "rt_order (demo_sent bs msg) = LittleEndian" "length (rt_buffer (demo_sent bs msg)) = 4096"
  "rt_maxPacketSize (demo_sent bs msg) = DefaultMaxPacketSize" "rt_state (demo_sent bs msg) = EventTypeNone"
  by (simp_all add: demo_sent_def demo_client_def demo_conn_def sendCommand_def sendString_def conn_Write_def
      healthy_def incoming_def timely_def NewProtocol_def)

theorem command_acknowledged_witness:
  "\<exists>e rt'. sendAndWaitForResponse sendCommand ''Trig'' [''Trig ok''] (demo_client
      (enc_packets LittleEndian (event_packets [3, 11]) @ enc_packet LittleEndian PacketTypeCommand (to_bytes ''TRIG OK'' @ [0]) @ [9]))
      = Some (e, rt')
    \<and> (e = None \<longleftrightarrow> list_ex (EqualFold ''TRIG OK'') [''Trig ok'']) \<and> incoming 2 rt' = [9]
    \<and> rt_state rt' = last_state EventTypeNone [3, 11]"
  using command_acknowledged [OF demo_sent(1), where T = 2 and evs = "[3, 11]" and s = "''TRIG OK''" and rest = "[9]"
      and expected = "[''Trig ok'']"]
  by (simp add: text_string_def fits_def acceptable_def)

theorem capture_saved_witness:
  "\<exists>rt'. SaveCaptureC3D (\<lambda>path data mode w. (None, w(path \<mapsto> (data, mode)))) ''a.c3d'' Map.empty
      (demo_client (enc_packets LittleEndian (event_packets [3])
      @ enc_packet LittleEndian PacketTypeCommand (to_bytes ''Sending capture'' @ [0])
      @ enc_packet LittleEndian PacketTypeC3DFile [2, 80, 7] @ [9])) =
      Some ((None, [''a.c3d'' \<mapsto> ([2, 80, 7], 384)]), rt')
    \<and> incoming 2 rt' = [9]"
proof -
  let ?bs = "enc_packets LittleEndian (event_packets [3])
      @ enc_packet LittleEndian PacketTypeCommand (to_bytes ''Sending capture'' @ [0])
      @ enc_packet LittleEndian PacketTypeC3DFile [2, 80, 7] @ [9]"
  have sent: "sendCommand (if PacketTypeC3DFile = PacketTypeC3DFile then ''GetCaptureC3D'' else ''GetCaptureQTM'')
      (demo_client ?bs) = (None, demo_sent ?bs ''GetCaptureC3D'')" by simp
  show ?thesis
    using capture_saved [OF _ sent, of 2 "[3]" "[2, 80, 7]" "[9]" "\<lambda>path data mode w. (None, w(path \<mapsto> (data, mode)))"
        "''a.c3d''" Map.empty]
    by (simp add: fits_def acceptable_def)
qed

subsection \<open>The UDP data path\<close>

text \<open>Waiting on an open UDP socket, with the datagrams \<open>q\<close> to come.\<close>

definition hears :: "Protocol \<Rightarrow> (int \<times> (err + bytes)) list \<Rightarrow> bool" where
  "hears rt q \<longleftrightarrow> 0 < rt_readTimeout rt \<and> (\<exists>u. rt_udpConn rt = Some u \<and> ud_deadline_err u = None \<and> ud_inbox u = q)
     \<and> (case rt_udpBuffer rt of None \<Rightarrow> True | Some buf \<Rightarrow> length buf = maxUDPDatagramSize)"

definition udp_kept :: "Protocol \<Rightarrow> Protocol \<Rightarrow> bool" where
  "udp_kept rt rt' \<longleftrightarrow> rt_order rt' = rt_order rt \<and> rt_readTimeout rt' = rt_readTimeout rt"

text \<open>
  On the UDP path one datagram is one packet: a datagram that arrives within the read
  timeout is decoded as it is, whatever was in the buffer from earlier ones, the next one
  stays for the next call, and the buffer stays large enough for any datagram.
\<close>

lemma udp_datagram_decoded:
  assumes "hears rt ((t, Inr data) # q)" and "t < rt_now rt + rt_readTimeout rt"
    and "packetHeaderSize \<le> length data" and "length data \<le> maxUDPDatagramSize"
    and "Packet_UnmarshalBinary (zero_Packet\<lparr>pk_order := Some (rt_order rt)\<rparr>) data = Some (e, p)"
  shows "\<exists>rt'. ReceiveUDP rt = Some (case e of
        None \<Rightarrow> (p, None)
      | Some e \<Rightarrow> (none_Packet, Some (Errorf ''receiveudp: unmarshal: %w'' [AWrap e])), rt')
    \<and> hears rt' q \<and> rt_now rt' = max (rt_now rt) t \<and> udp_kept rt rt'"
proof -
  from assms(1) obtain u where u: "rt_udpConn rt = Some u" "ud_deadline_err u = None" "ud_inbox u = (t, Inr data) # q"
    and tmo: "0 < rt_readTimeout rt" by (auto simp: hears_def)
  define old where "old = (case rt_udpBuffer rt of None \<Rightarrow> replicate maxUDPDatagramSize 0 | Some buf \<Rightarrow> buf)"
  have old: "length old = maxUDPDatagramSize" using assms(1) by (auto simp: hears_def old_def split: option.splits)
  let ?dl = "Some (rt_now rt + rt_readTimeout rt)"
  let ?now = "max (rt_now rt) t"
  have "\<not> late ?dl ?now" using tmo assms(2) by (simp add: late_def)
  then have rd: "udp_Read ?dl (length old) (rt_now rt) (ud_inbox u) = Some (data, None, ?now, q)"
    using u(3) assms(4) old by simp
  have sl: "slice (data @ drop (length data) old) 0 (length data) = Some data" by (simp add: slice_def)
  define rt' where "rt' = rt\<lparr>rt_udpConn := Some (u\<lparr>ud_deadline := ?dl, ud_inbox := q\<rparr>), rt_now := ?now,
    rt_udpBuffer := Some (data @ drop (length data) old)\<rparr>"
  have "ReceiveUDP rt = Some (case e of
        None \<Rightarrow> (p, None)
      | Some e \<Rightarrow> (none_Packet, Some (Errorf ''receiveudp: unmarshal: %w'' [AWrap e])), rt')"
    using u(1,2) tmo assms(3,5) rd sl
    by (simp add: ReceiveUDP_def Let_def old_def [symmetric] rt'_def split: option.split)
  moreover have "hears rt' q" using u(2) tmo old assms(4) by (simp add: hears_def rt'_def)
  ultimately show ?thesis by (simp add: rt'_def udp_kept_def)
qed

text \<open>When nothing comes for the read timeout, the marker without data is returned.\<close>

lemma udp_quiet:
  assumes "hears rt q" and "case q of [] \<Rightarrow> True | (t, d) # q \<Rightarrow> rt_now rt + rt_readTimeout rt \<le> t"
  shows "\<exists>rt'. ReceiveUDP rt = Some ((zero_Packet\<lparr>pk_Type := PacketTypeNoMoreData\<rparr>, None), rt')
    \<and> hears rt' q \<and> rt_now rt' = rt_now rt + rt_readTimeout rt \<and> udp_kept rt rt'"
proof -
  from assms(1) obtain u where u: "rt_udpConn rt = Some u" "ud_deadline_err u = None" "ud_inbox u = q"
    and tmo: "0 < rt_readTimeout rt" by (auto simp: hears_def)
  define old where "old = (case rt_udpBuffer rt of None \<Rightarrow> replicate maxUDPDatagramSize 0 | Some buf \<Rightarrow> buf)"
  have old: "length old = maxUDPDatagramSize" using assms(1) by (auto simp: hears_def old_def split: option.splits)
  let ?dl = "rt_now rt + rt_readTimeout rt"
  have rd: "udp_Read (Some ?dl) n (rt_now rt) q = Some ([], Some ioTimeout, ?dl, q)" for n
    using assms(2) tmo by (cases q) (auto simp: late_def give_up_def)
  define rt' where "rt' = rt\<lparr>rt_udpConn := Some (u\<lparr>ud_deadline := Some ?dl\<rparr>), rt_now := ?dl, rt_udpBuffer := Some old\<rparr>"
  have "ReceiveUDP rt = Some ((zero_Packet\<lparr>pk_Type := PacketTypeNoMoreData\<rparr>, None), rt')"
    using u tmo rd by (simp add: ReceiveUDP_def Let_def old_def [symmetric] rt'_def ioTimeout_def)
  moreover have "hears rt' q" using u tmo old by (simp add: hears_def rt'_def)
  ultimately show ?thesis by (simp add: rt'_def udp_kept_def)
qed

definition demo_udp :: udp_conn where
  "demo_udp = \<lparr>ud_inbox = [(5, Inr (enc_packet LittleEndian PacketTypeCommand (to_bytes ''hello'' @ [0])))],
     ud_deadline = None, ud_deadline_err = None, ud_port = Some 4000\<rparr>"

subsection \<open>Settings\<close>

lemma Replace1_at:
  assumes "\<forall>i < length pre. take (length old) (drop i (pre @ old @ post)) \<noteq> old" and "old \<noteq> []"
  shows "Replace1 (pre @ old @ post) old new = pre @ new @ post"
  using assms
proof (induction pre)
  case Nil
  then show ?case by (cases "old @ post") (simp_all del: append_eq_Cons_conv, metis append_eq_conv_conj list.size(3) append_Nil)
next
  case (Cons c pre)
  from Cons.prems(1) have "take (length old) (drop (Suc i) ((c # pre) @ old @ post)) \<noteq> old" if "i < length pre" for i
    using that by (metis Suc_less_eq length_Cons)
  then have "\<forall>i < length pre. take (length old) (drop i (pre @ old @ post)) \<noteq> old"
    by (simp del: drop_append take_append)
  moreover from Cons.prems(1) [rule_format, of 0] have "take (length old) (c # pre @ old @ post) \<noteq> old" by simp
  ultimately show ?case using Cons by simp
qed

lemma no_earlier_tag:
  assumes "\<forall>pre post. body \<noteq> pre @ (CHR ''<'' # t) @ post" and "CHR ''<'' \<notin> set t" and "i < length body"
  shows "take (length (CHR ''<'' # t)) (drop i (body @ CHR ''<'' # t)) \<noteq> CHR ''<'' # t"
proof
  let ?tag = "CHR ''<'' # t"
  assume eq: "take (length ?tag) (drop i (body @ ?tag)) = ?tag"
  show False
  proof (cases "i + length ?tag \<le> length body")
    case True
    then have "take (length ?tag) (drop i body) = ?tag" using eq by simp
    then have "body = take i body @ ?tag @ drop (length ?tag) (drop i body)"
      by (metis append_take_drop_id)
    with assms(1) show False by blast
  next
    case False
    define k where "k = length body - i"
    have k: "0 < k" "k < length ?tag" "i + k = length body" using assms(3) False by (auto simp: k_def)
    have "?tag ! k = (body @ ?tag) ! (i + k)"
      using arg_cong [OF eq, of "\<lambda>xs. xs ! k"] k by (simp del: drop_append take_append)
    also have "\<dots> = CHR ''<''" using k(3) by (simp add: nth_append)
    finally have "t ! (k - 1) = CHR ''<''" using k(1) by (cases k) simp_all
    moreover have "k - 1 < length t" using k(1,2) by simp
    ultimately show False using assms(2) nth_mem by metis
  qed
qed

lemma ParametersElementName_plain: "CHR ''<'' \<notin> set (ParametersElementName rt)"
proof -
  have "CHR ''<'' \<notin> set (Itoa i)" for i by (rule Itoa_no_sep) (simp_all add: is_digit_def)
  then show ?thesis by (simp add: ParametersElementName_def)
qed

text \<open>
  Taking the root element off the settings gives back the inner fragment, trimmed, for
  the version that was negotiated, whatever the fragment is, as long as it does not contain
  the closing tag itself.
\<close>

theorem strip_root_element:
  assumes "\<forall>pre post. body \<noteq> pre @ (''</'' @ ParametersElementName rt @ ''>'') @ post"
  shows "StripParametersElement
      (''<'' @ ParametersElementName rt @ ''>'' @ body @ ''</'' @ ParametersElementName rt @ ''>'') rt = TrimSpace body"
proof -
  let ?open = "''<'' @ ParametersElementName rt @ ''>''"
  let ?close = "''</'' @ ParametersElementName rt @ ''>''"
  have "Replace1 ([] @ ?open @ body @ ?close) ?open [] = [] @ [] @ body @ ?close"
    by (rule Replace1_at) simp_all
  moreover have "Replace1 (body @ ?close @ []) ?close [] = body @ [] @ []"
  proof (rule Replace1_at)
    have "CHR ''<'' \<notin> set (CHR ''/'' # ParametersElementName rt @ ''>'')" using ParametersElementName_plain by simp
    from no_earlier_tag [OF _ this, of body] assms
    show "\<forall>i<length body. take (length ?close) (drop i (body @ ?close @ [])) \<noteq> ?close" by simp
  qed simp
  ultimately show ?thesis by (simp add: StripParametersElement_def Let_def)
qed

theorem strip_root_element_witness:
  "StripParametersElement (''<'' @ ParametersElementName (NewProtocol ''qtm'' 22222 []) @ ''>'' @ ''<a/>''
      @ ''</'' @ ParametersElementName (NewProtocol ''qtm'' 22222 []) @ ''>'') (NewProtocol ''qtm'' 22222 []) = TrimSpace ''<a/>''"
proof (rule strip_root_element, intro allI notI)
  fix pre post
  assume "''<a/>'' = pre @ (''</'' @ ParametersElementName (NewProtocol ''qtm'' 22222 []) @ ''>'') @ post"
  then have "length ''<a/>'' = length (pre @ (''</'' @ ParametersElementName (NewProtocol ''qtm'' 22222 []) @ ''>'') @ post)"
    by (rule arg_cong)
  then show False by (simp add: ParametersElementName_def)
qed

theorem stream_request_checked_witness:
  "\<exists>rt' c'. StreamFramesUDP 1 100 4000 ''10.0.0.2'' zero_ComponentOptions [1, 5] (demo_client []) = (None, rt')
    \<and> rt_conn rt' = Some c' \<and> cn_outbox c' = [frame_string LittleEndian (''StreamFrames'' @ the (rate_string 1 100)
        @ udp_string 4000 ''10.0.0.2'' @ '' '' @ Join (tokens zero_ComponentOptions [1, 5]) '' '') PacketTypeCommand]"
proof -
  let ?c = "demo_conn [(1, Chunk (take 3 [])), (2, Chunk (drop 3 []))]"
  have c: "rt_conn (demo_client []) = Some ?c" "\<exists>evs. cn_peer ?c w = Inr evs" "cn_outbox ?c = []" for w
    by (simp_all add: demo_client_def demo_conn_def)
  obtain e rt' where r: "StreamFramesUDP 1 100 4000 ''10.0.0.2'' zero_ComponentOptions [1, 5] (demo_client []) = (e, rt')"
    by fastforce
  note s = stream_request_checked [OF c(1,2) r]
  from s [THEN conjunct1] have e: "e = None" by simp
  from s [THEN conjunct2] show ?thesis unfolding r e c(3) by simp
qed

subsection \<open>Streamed frames\<close>

text \<open>A frame as the server sends it: a data packet with the frame as its payload.\<close>

definition frame_packet :: "byte_order \<Rightarrow> u64 \<times> u32 \<times> (u32 \<times> bytes) list \<Rightarrow> u32 \<times> bytes" where
  "frame_packet ord = (\<lambda>(timestamp, frame, comps). (PacketTypeData, enc_frame ord timestamp frame comps))"

lemma packet_result_frame:
  assumes "list_all2 decodes comps objs" and "length comps < 2 ^ 32"
  shows "\<exists>p. packet_result ord (frame_packet ord (timestamp, frame, comps)) = (p, None) \<and> pk_Type p = PacketTypeData
    \<and> dp_Timestamp (pk_Data p) = timestamp \<and> dp_Frame (pk_Data p) = frame \<and> dp_Components (pk_Data p) = objs"
proof -
  have "pk_Data zero_Packet = zero_DataPacket" by (simp add: zero_Packet_def)
  then show ?thesis
    using DataPacket_frame [OF assms, of "zero_DataPacket\<lparr>dp_order := Some ord\<rparr>" timestamp frame "[]"]
    by (simp add: packet_result_def frame_packet_def Packet_UnmarshalBinary_enc decoded_payload_def receive_result_def)
qed

end
