(* ===== verification/Polling.thy ===== *)
theory Polling
  imports Exchanges
begin

text \<open>
  The commands whose answer may take long: \<open>GetState\<close>, \<open>GetParameters\<close> and \<open>Calibrate\<close> poll the
  connection until a deadline. Here the network delivers one packet per chunk, each at its own
  time, so a wait may span any number of read timeouts (a calibration takes minutes); the
  lemmas say which packet of such a schedule a wait ends with.
\<close>

subsection \<open>One packet, one chunk\<close>

type_synonym schedule = "(int \<times> u32 \<times> bytes) list"

definition deliveries :: "byte_order \<Rightarrow> schedule \<Rightarrow> inbox" where
  "deliveries ord sched = map (\<lambda>(t, ty, payload). (t, Chunk (enc_packet ord ty payload))) sched"

text \<open>The client is connected and the network delivers \<open>sched\<close> to it, then \<open>q\<close>.\<close>

definition awaits :: "Protocol \<Rightarrow> schedule \<Rightarrow> inbox \<Rightarrow> bool" where
  "awaits rt sched q \<longleftrightarrow> 0 < rt_readTimeout rt \<and> packetHeaderSize \<le> length (rt_buffer rt) \<and>
     (case rt_conn rt of None \<Rightarrow> False
      | Some c \<Rightarrow> cn_deadline_err c = None \<and> cn_inbox c = deliveries (rt_order rt) sched @ q)"

lemma awaits_Cons:
  "awaits rt ((t, ty, payload) # sched) q \<longleftrightarrow> 0 < rt_readTimeout rt \<and> packetHeaderSize \<le> length (rt_buffer rt) \<and>
    (\<exists>c. rt_conn rt = Some c \<and> cn_deadline_err c = None \<and>
      cn_inbox c = (t, Chunk (enc_packet (rt_order rt) ty payload)) # deliveries (rt_order rt) sched @ q)"
  by (auto simp: awaits_def deliveries_def split: option.splits)

lemma conn_Read_chunk:
  assumes "\<not> late dl (max now t)" and "bs \<noteq> []"
  shows "conn_Read dl (length bs) now ((t, Chunk bs) # q) = Some (bs, None, max now t, q)"
    and "extra \<noteq> [] \<Longrightarrow> conn_Read dl (length bs) now ((t, Chunk (bs @ extra)) # q)
      = Some (bs, None, max now t, (t, Chunk extra) # q)"
  using assms by auto

lemma read_buffer_chunk:
  assumes "rt_conn rt = Some c" and "\<not> late (cn_deadline c) (max (rt_now rt) t)" and "bs \<noteq> []"
    and "b = a + length bs" and "b \<le> length (rt_buffer rt)"
    and "cn_inbox c = (t, Chunk (bs @ extra)) # q"
  shows "read_buffer a b rt = Some (None, rt\<lparr>rt_conn := Some (c\<lparr>cn_inbox := (if extra = [] then q else (t, Chunk extra) # q)\<rparr>),
    rt_now := max (rt_now rt) t, rt_buffer := take a (rt_buffer rt) @ bs @ drop b (rt_buffer rt)\<rparr>)"
proof -
  have "conn_Read (cn_deadline c) (length bs) (rt_now rt) (cn_inbox c)
      = Some (bs, None, max (rt_now rt) t, if extra = [] then q else (t, Chunk extra) # q)"
    using conn_Read_chunk [OF assms(2,3)] assms(6) by (cases "extra = []") simp_all
  then have "io_ReadFull (cn_deadline c) (length bs) (rt_now rt) (cn_inbox c)
      = Some (bs, None, max (rt_now rt) t, if extra = [] then q else (t, Chunk extra) # q)"
    using assms(3) by (simp add: io_ReadFull_def read_loop_net.simps)
  then show ?thesis using assms(1,4,5) by (simp add: read_buffer_def)
qed

lemma note_event_fields [simp]:
  "rt_conn (note_event p rt) = rt_conn rt" "rt_now (note_event p rt) = rt_now rt"
  "rt_order (note_event p rt) = rt_order rt" "rt_buffer (note_event p rt) = rt_buffer rt"
  "rt_readTimeout (note_event p rt) = rt_readTimeout rt"
  by (simp_all add: note_event_def Let_def)

text \<open>A packet in one chunk: the header is taken from it, the body stays for the second read.\<close>

lemma header_received:
  assumes "rt_conn rt = Some c" and "cn_deadline_err c = None" and "cn_inbox c = (t, Chunk (enc_packet (rt_order rt) ty payload)) # q"
    and "packetHeaderSize \<le> length (rt_buffer rt)" and "0 < d" and "t < rt_now rt + d"
    and "acceptable rt payload" and "payload \<noteq> []"
  shows "\<exists>hdr. ReceiveTimeout d rt = receive_body (packetHeaderSize + length payload)
      (rt\<lparr>rt_conn := Some (c\<lparr>cn_deadline := Some (rt_now rt + d), cn_inbox := (t, Chunk payload) # q\<rparr>),
        rt_now := max (rt_now rt) t, rt_buffer := hdr @ drop packetHeaderSize (rt_buffer rt)\<rparr>)
    \<and> length hdr = packetHeaderSize \<and> enc_packet (rt_order rt) ty payload = hdr @ payload"
proof -
  let ?ord = "rt_order rt"
  note fit = assms(7,8)
  define hdr where "hdr = take packetHeaderSize (enc_packet ?ord ty payload)"
  have hdr: "length hdr = packetHeaderSize" "enc_packet ?ord ty payload = hdr @ payload"
    by (simp_all add: hdr_def enc_packet_def)
  then have ne: "hdr \<noteq> []" by auto
  define rt1 where "rt1 = rt\<lparr>rt_conn := Some (c\<lparr>cn_deadline := Some (rt_now rt + d)\<rparr>)\<rparr>"
  have d: "setReadDeadline d rt = Some (None, rt1)"
    using setReadDeadline_ok [OF assms(1,2), of d] assms(5) by (simp add: rt1_def)
  define rt2 where "rt2 = rt\<lparr>rt_conn := Some (c\<lparr>cn_deadline := Some (rt_now rt + d), cn_inbox := (t, Chunk payload) # q\<rparr>),
    rt_now := max (rt_now rt) t, rt_buffer := hdr @ drop packetHeaderSize (rt_buffer rt)\<rparr>"
  have r: "read_buffer 0 packetHeaderSize rt1 = Some (None, rt2)"
    using read_buffer_chunk [of rt1 "c\<lparr>cn_deadline := Some (rt_now rt + d)\<rparr>" t hdr packetHeaderSize 0 payload q]
      assms(3-6) hdr ne fit(2)
    by (simp add: rt1_def rt2_def late_def)
  have "ReceiveTimeout d rt = receive_body (packetHeaderSize + length payload) rt2"
    by (rule header_read [where t = ty and buf = "drop packetHeaderSize (rt_buffer rt)", OF _ d r _ _ _ fit]) (simp_all add: rt2_def hdr_def IsConnected_def assms(1))
  with hdr show ?thesis by (auto simp: rt2_def)
qed

lemma body_received:
  assumes "rt_conn rt = Some c" and "cn_deadline_err c = None" and "cn_inbox c = (t, Chunk payload) # q" and "t \<le> rt_now rt"
    and "0 < rt_readTimeout rt" and "payload \<noteq> []" and "rt_buffer rt = hdr @ buf" and "length hdr = packetHeaderSize"
    and "enc_packet (rt_order rt) ty payload = hdr @ payload" and "length payload \<le> length buf"
  shows "receive_body (packetHeaderSize + length payload) rt = Some (packet_result (rt_order rt) (ty, payload),
    note_event (fst (packet_result (rt_order rt) (ty, payload)))
      (rt\<lparr>rt_conn := Some (c\<lparr>cn_deadline := Some (rt_now rt + rt_readTimeout rt), cn_inbox := q\<rparr>),
        rt_buffer := hdr @ payload @ drop (length payload) buf\<rparr>))"
proof -
  let ?n = "packetHeaderSize + length payload"
  let ?ord = "rt_order rt"
  define rt3 where "rt3 = rt\<lparr>rt_conn := Some (c\<lparr>cn_deadline := Some (rt_now rt + rt_readTimeout rt)\<rparr>)\<rparr>"
  have d3: "setReadDeadline (rt_readTimeout rt) rt = Some (None, rt3)"
    using setReadDeadline_ok [OF assms(1,2)] assms(5) by (simp add: rt3_def)
  define rt4 where "rt4 = rt\<lparr>rt_conn := Some (c\<lparr>cn_deadline := Some (rt_now rt + rt_readTimeout rt), cn_inbox := q\<rparr>),
    rt_buffer := hdr @ payload @ drop (length payload) buf\<rparr>"
  have r4: "read_buffer packetHeaderSize ?n rt3 = Some (None, rt4)"
    using read_buffer_chunk [of rt3 "c\<lparr>cn_deadline := Some (rt_now rt + rt_readTimeout rt)\<rparr>" t payload ?n packetHeaderSize "[]" q]
      assms(3-8,10)
    by (simp add: rt3_def rt4_def late_def max_absorb1)
  have grow: "(if length (rt_buffer rt) < ?n then rt\<lparr>rt_buffer := replicate ?n 0\<rparr> else rt) = rt"
    using assms(7,8,10) by simp
  have data: "slice (rt_buffer rt4) 0 ?n = Some (enc_packet ?ord ty payload)"
    using assms(8-10) by (simp add: rt4_def slice_def)
  have ord: "rt_order rt4 = ?ord" by (simp add: rt4_def)
  from body_read [OF grow d3 r4 ord data] obtain e p where
    u: "Packet_UnmarshalBinary (zero_Packet\<lparr>pk_order := Some ?ord\<rparr>) (enc_packet ?ord ty payload) = Some (e, p)"
    and body: "receive_body ?n rt = Some (receive_result (e, p), event_noted (e, p) rt4)" by auto
  have "packet_result ?ord (ty, payload) = receive_result (e, p)" using u by (simp add: packet_result_def)
  moreover have "event_noted (e, p) = note_event (fst (receive_result (e, p)))"
    by (cases e; cases "pk_Type p = PacketTypeError") (simp_all add: event_noted_def receive_result_def note_event_def fun_eq_iff)
  ultimately show ?thesis using body by (simp add: rt4_def)
qed

text \<open>The first packet of the schedule is received when it comes, and only that one.\<close>

lemma ReceiveTimeout_chunk:
  assumes "awaits rt ((t, ty, payload) # sched) q" and "0 < d" and "t < rt_now rt + d" and "fits rt (ty, payload)"
  shows "\<exists>rt'. ReceiveTimeout d rt = Some (packet_result (rt_order rt) (ty, payload), rt')
    \<and> awaits rt' sched q \<and> rt_now rt' = max (rt_now rt) t \<and> same_config rt rt'
    \<and> rt_state rt' = rt_state (note_event (fst (packet_result (rt_order rt) (ty, payload))) rt)
    \<and> length (rt_buffer rt') = length (rt_buffer rt)"
proof -
  let ?ord = "rt_order rt"
  let ?now = "max (rt_now rt) t"
  let ?q = "deliveries ?ord sched @ q"
  let ?p = "fst (packet_result ?ord (ty, payload))"
  from assms(1) obtain c where c: "rt_conn rt = Some c" "cn_deadline_err c = None"
    "cn_inbox c = (t, Chunk (enc_packet ?ord ty payload)) # ?q"
    and buf: "packetHeaderSize \<le> length (rt_buffer rt)" and tmo: "0 < rt_readTimeout rt"
    by (auto simp: awaits_Cons)
  from assms(4) have fit: "payload \<noteq> []" "packetHeaderSize + length payload \<le> length (rt_buffer rt)" "acceptable rt payload"
    by (simp_all add: fits_def)
  define c2 where "c2 = c\<lparr>cn_deadline := Some (rt_now rt + d), cn_inbox := (t, Chunk payload) # ?q\<rparr>"
  from header_received [OF c buf assms(2,3) fit(3,1)] obtain hdr where
    step: "ReceiveTimeout d rt = receive_body (packetHeaderSize + length payload)
      (rt\<lparr>rt_conn := Some c2, rt_now := ?now, rt_buffer := hdr @ drop packetHeaderSize (rt_buffer rt)\<rparr>)"
    and hdr: "length hdr = packetHeaderSize" "enc_packet ?ord ty payload = hdr @ payload"
    unfolding c2_def by blast
  define rt2 where "rt2 = rt\<lparr>rt_conn := Some c2, rt_now := ?now, rt_buffer := hdr @ drop packetHeaderSize (rt_buffer rt)\<rparr>"
  define rt4 where "rt4 = rt2\<lparr>rt_conn := Some (c2\<lparr>cn_deadline := Some (?now + rt_readTimeout rt), cn_inbox := ?q\<rparr>),
    rt_buffer := hdr @ payload @ drop (length payload) (drop packetHeaderSize (rt_buffer rt))\<rparr>"
  have "ReceiveTimeout d rt = Some (packet_result ?ord (ty, payload), note_event ?p rt4)"
    using body_received [of rt2 c2 t payload ?q hdr "drop packetHeaderSize (rt_buffer rt)" ty] c(2) tmo fit hdr
    by (simp add: step rt4_def rt2_def c2_def)
  moreover have "awaits rt4 sched q" using tmo c buf fit hdr(1) by (simp add: awaits_def rt4_def rt2_def c2_def)
  then have "awaits (note_event ?p rt4) sched q" by (auto simp: awaits_def split: option.splits)
  moreover have "same_config rt rt4" using c buf fit hdr(1) by (simp add: same_config_def rt4_def rt2_def c2_def)
  then have "same_config rt (note_event ?p rt4)" using same_config_trans same_config_note_event by blast
  moreover have "rt_state (note_event ?p rt4) = rt_state (note_event ?p rt)" "rt_now (note_event ?p rt4) = ?now"
    "length (rt_buffer (note_event ?p rt4)) = length (rt_buffer rt)"
    using fit hdr(1) buf by (simp_all add: note_event_def Let_def rt4_def rt2_def)
  ultimately show ?thesis by blast
qed

text \<open>
  A packet larger than the buffer: the header is lost with the buffer that is replaced, and what
  is received is the error packet that \<open>misread\<close> describes.
\<close>

lemma body_misread:
  assumes "rt_conn rt = Some c" and "cn_deadline_err c = None" and "cn_inbox c = (t, Chunk payload) # q" and "t \<le> rt_now rt"
    and "0 < rt_readTimeout rt" and "payload \<noteq> []" and "length (rt_buffer rt) < packetHeaderSize + length payload"
  shows "receive_body (packetHeaderSize + length payload) rt = Some (misread (rt_order rt) payload,
    rt\<lparr>rt_conn := Some (c\<lparr>cn_deadline := Some (rt_now rt + rt_readTimeout rt), cn_inbox := q\<rparr>),
      rt_buffer := replicate packetHeaderSize 0 @ payload\<rparr>)"
proof -
  let ?n = "packetHeaderSize + length payload"
  define rt0 where "rt0 = rt\<lparr>rt_buffer := replicate ?n 0\<rparr>"
  define c3 where "c3 = c\<lparr>cn_deadline := Some (rt_now rt + rt_readTimeout rt)\<rparr>"
  have grow: "(if length (rt_buffer rt) < ?n then rt\<lparr>rt_buffer := replicate ?n 0\<rparr> else rt) = rt0"
    using assms(7) by (simp add: rt0_def)
  have d: "setReadDeadline (rt_readTimeout rt0) rt0 = Some (None, rt0\<lparr>rt_conn := Some c3\<rparr>)"
    using setReadDeadline_ok [of rt0 c "rt_readTimeout rt"] assms(1,2,5) by (simp add: rt0_def c3_def)
  define rt4 where "rt4 = rt\<lparr>rt_conn := Some (c3\<lparr>cn_inbox := q\<rparr>), rt_buffer := replicate packetHeaderSize 0 @ payload\<rparr>"
  have r: "read_buffer packetHeaderSize ?n (rt0\<lparr>rt_conn := Some c3\<rparr>) = Some (None, rt4)"
    using read_buffer_chunk [of "rt0\<lparr>rt_conn := Some c3\<rparr>" c3 t payload ?n packetHeaderSize "[]" q] assms(3-6)
    by (simp add: rt0_def rt4_def c3_def late_def max_absorb1)
  have data: "slice (rt_buffer rt4) 0 ?n = Some (replicate packetHeaderSize 0 @ payload)"
    by (simp add: rt4_def slice_def)
  from body_read [OF grow d r _ data] zeros_decoded [of payload "rt_order rt"] assms(6)
  show ?thesis
    by (simp add: rt4_def c3_def receive_result_def event_noted_def note_event_def misread_def zero_Packet_def)
qed

lemma ReceiveTimeout_misread:
  assumes "awaits rt ((t, ty, payload) # sched) q" and "0 < d" and "t < rt_now rt + d" and "acceptable rt payload"
    and "length (rt_buffer rt) < packetHeaderSize + length payload"
  shows "\<exists>rt'. ReceiveTimeout d rt = Some (misread (rt_order rt) payload, rt')
    \<and> awaits rt' sched q \<and> rt_now rt' = max (rt_now rt) t \<and> same_config rt rt'
    \<and> length (rt_buffer rt') = packetHeaderSize + length payload"
proof -
  let ?ord = "rt_order rt"
  let ?now = "max (rt_now rt) t"
  let ?q = "deliveries ?ord sched @ q"
  from assms(1) obtain c where c: "rt_conn rt = Some c" "cn_deadline_err c = None"
    "cn_inbox c = (t, Chunk (enc_packet ?ord ty payload)) # ?q"
    and buf: "packetHeaderSize \<le> length (rt_buffer rt)" and tmo: "0 < rt_readTimeout rt"
    by (auto simp: awaits_Cons)
  have ne: "payload \<noteq> []" using assms(5) buf by auto
  define c2 where "c2 = c\<lparr>cn_deadline := Some (rt_now rt + d), cn_inbox := (t, Chunk payload) # ?q\<rparr>"
  from header_received [OF c buf assms(2,3,4) ne] obtain hdr where
    step: "ReceiveTimeout d rt = receive_body (packetHeaderSize + length payload)
      (rt\<lparr>rt_conn := Some c2, rt_now := ?now, rt_buffer := hdr @ drop packetHeaderSize (rt_buffer rt)\<rparr>)"
    and hdr: "length hdr = packetHeaderSize" unfolding c2_def by blast
  define rt2 where "rt2 = rt\<lparr>rt_conn := Some c2, rt_now := ?now, rt_buffer := hdr @ drop packetHeaderSize (rt_buffer rt)\<rparr>"
  define rt4 where "rt4 = rt2\<lparr>rt_conn := Some (c2\<lparr>cn_deadline := Some (?now + rt_readTimeout rt), cn_inbox := ?q\<rparr>),
    rt_buffer := replicate packetHeaderSize 0 @ payload\<rparr>"
  have "ReceiveTimeout d rt = Some (misread ?ord payload, rt4)"
    using body_misread [of rt2 c2 t payload ?q] c(2) tmo ne hdr buf assms(5)
    by (simp add: step rt4_def rt2_def c2_def)
  moreover have "awaits rt4 sched q" using tmo c by (simp add: awaits_def rt4_def rt2_def c2_def)
  moreover have "same_config rt rt4" using c assms(5) by (simp add: same_config_def rt4_def rt2_def c2_def)
  ultimately show ?thesis by (simp add: rt4_def rt2_def)
qed

subsection \<open>What a wait ends with\<close>

text \<open>A packet a polling command goes on after, and one it ends with.\<close>

definition passed_over :: "(Packet \<Rightarrow> 'r option) \<Rightarrow> byte_order \<Rightarrow> u32 \<times> bytes \<Rightarrow> bool" where
  "passed_over pick ord pkt \<longleftrightarrow> (case packet_result ord pkt of (p, e) \<Rightarrow> e = None \<and> pick p = None)"

definition decisive :: "(Packet \<Rightarrow> 'r option) \<Rightarrow> byte_order \<Rightarrow> u32 \<times> bytes \<Rightarrow> 'r option \<times> err option \<Rightarrow> bool" where
  "decisive pick ord pkt r \<longleftrightarrow> (case packet_result ord pkt of
     (p, None) \<Rightarrow> pick p \<noteq> None \<and> r = (pick p, None)
   | (p, Some e) \<Rightarrow> r = (None, Some e))"

text \<open>Everything is there before the deadline, and fits in the buffer.\<close>

definition in_time :: "int \<Rightarrow> Protocol \<Rightarrow> schedule \<Rightarrow> bool" where
  "in_time deadline rt sched \<longleftrightarrow> rt_now rt < deadline \<and> list_all (\<lambda>(t, pkt). t < deadline \<and> fits rt pkt) sched"

lemma in_time_after:
  "in_time deadline rt ((t, pkt) # sched) \<Longrightarrow> same_config rt rt' \<Longrightarrow> rt_now rt' = max (rt_now rt) t \<Longrightarrow>
    in_time deadline rt' sched"
  by (auto simp: in_time_def list_all_iff intro: fits_config)

lemma ReceiveTimeout_scheduled:
  assumes "awaits rt ((t, pkt) # sched @ tail) q" and "in_time deadline rt ((t, pkt) # sched)"
  shows "\<exists>p e rt'. packet_result (rt_order rt) pkt = (p, e) \<and> ReceiveTimeout (deadline - rt_now rt) rt = Some ((p, e), rt')
    \<and> awaits rt' (sched @ tail) q \<and> in_time deadline rt' sched \<and> same_config rt rt' \<and> rt_order rt' = rt_order rt
    \<and> rt_now rt \<le> rt_now rt' \<and> rt_state rt' = rt_state (note_event p rt)
    \<and> length (rt_buffer rt') = length (rt_buffer rt)"
proof -
  obtain ty payload where pkt: "pkt = (ty, payload)" by (cases pkt)
  obtain p e where r: "packet_result (rt_order rt) pkt = (p, e)" by (cases "packet_result (rt_order rt) pkt")
  from assms ReceiveTimeout_chunk [of rt t ty payload "sched @ tail" q "deadline - rt_now rt"] obtain rt' where
    "ReceiveTimeout (deadline - rt_now rt) rt = Some ((p, e), rt')" "awaits rt' (sched @ tail) q"
    "rt_now rt' = max (rt_now rt) t" "same_config rt rt'" "rt_state rt' = rt_state (note_event p rt)"
    "length (rt_buffer rt') = length (rt_buffer rt)"
    by (auto simp: pkt in_time_def r [unfolded pkt])
  with r in_time_after [OF assms(2)] show ?thesis by (auto simp: same_config_def)
qed

lemma note_event_keeps_event:
  "pk_Type p = PacketTypeEvent \<Longrightarrow> pk_Event p \<noteq> EventTypeCameraSettingsChanged \<Longrightarrow> rt_state (note_event p rt) = pk_Event p"
  by (simp add: note_event_def)

text \<open>Polling goes past the packets that do not decide.\<close>

lemma poll_passes:
  assumes "awaits rt (others @ sched) q" and "in_time deadline rt others"
    and "list_all (\<lambda>(t, pkt). passed_over pick (rt_order rt) pkt) others"
  shows "\<exists>rt'. poll deadline pick rt = poll deadline pick rt' \<and> awaits rt' sched q \<and> same_config rt rt'
    \<and> rt_now rt \<le> rt_now rt' \<and> rt_now rt' < deadline \<and> length (rt_buffer rt') = length (rt_buffer rt)"
  using assms
proof (induction others arbitrary: rt)
  case Nil
  then show ?case by (intro exI [of _ rt]) (simp add: in_time_def same_config_def)
next
  case (Cons x others)
  obtain t0 pkt0 where x: "x = (t0, pkt0)" by (cases x)
  have now: "rt_now rt < deadline" using Cons.prems(2) by (simp add: in_time_def)
  from ReceiveTimeout_scheduled [of rt t0 pkt0 others sched q deadline] Cons.prems obtain p rt1 where
    r: "ReceiveTimeout (deadline - rt_now rt) rt = Some ((p, None), rt1)" "pick p = None"
    and rt1: "awaits rt1 (others @ sched) q" "in_time deadline rt1 others"
      "same_config rt rt1" "rt_order rt1 = rt_order rt" "rt_now rt \<le> rt_now rt1"
      "length (rt_buffer rt1) = length (rt_buffer rt)"
    by (auto simp: x passed_over_def)
  from Cons.IH [OF rt1(1,2)] Cons.prems(3) rt1(4) obtain rt' where
    "poll deadline pick rt1 = poll deadline pick rt'" "awaits rt' sched q" "same_config rt1 rt'" "rt_now rt1 \<le> rt_now rt'"
    "rt_now rt' < deadline" "length (rt_buffer rt') = length (rt_buffer rt1)"
    by auto
  with r rt1 now show ?case
    by (intro exI [of _ rt']) (auto simp: poll.simps [of deadline pick rt] intro: same_config_trans)
qed

lemma poll_scheduled:
  assumes "awaits rt (others @ (t, pkt) # tail) q" and "in_time deadline rt (others @ [(t, pkt)])"
    and "list_all (\<lambda>(t, pkt). passed_over pick (rt_order rt) pkt) others"
    and "decisive pick (rt_order rt) pkt r"
  shows "\<exists>rt'. poll deadline pick rt = Some (r, rt') \<and> awaits rt' tail q \<and> same_config rt rt'
    \<and> rt_now rt \<le> rt_now rt' \<and> rt_now rt' < deadline
    \<and> (\<exists>rt0. rt_state rt' = rt_state (note_event (fst (packet_result (rt_order rt) pkt)) rt0))"
proof -
  have "in_time deadline rt others" using assms(2) by (simp add: in_time_def)
  from poll_passes [OF assms(1) this assms(3)] obtain rt1 where
    rt1: "poll deadline pick rt = poll deadline pick rt1" "awaits rt1 ((t, pkt) # tail) q" "same_config rt rt1"
      "rt_now rt \<le> rt_now rt1" "rt_now rt1 < deadline" by auto
  have ord: "rt_order rt1 = rt_order rt" using rt1(3) by (simp add: same_config_def)
  have "in_time deadline rt1 [(t, pkt)]"
    using assms(2) rt1(5) fits_config [OF rt1(3)] by (cases pkt) (simp add: in_time_def)
  with ReceiveTimeout_scheduled [of rt1 t pkt "[]" tail q deadline] rt1(2) obtain p e rt' where
    "packet_result (rt_order rt) pkt = (p, e)" "ReceiveTimeout (deadline - rt_now rt1) rt1 = Some ((p, e), rt')"
    "awaits rt' tail q" "rt_now rt' < deadline" "same_config rt1 rt'" "rt_now rt1 \<le> rt_now rt'"
    "rt_state rt' = rt_state (note_event p rt1)" by (auto simp: in_time_def ord)
  with assms(4) rt1 show ?thesis
    by (intro exI [of _ rt'])
      (auto simp: poll.simps [of deadline pick rt1] decisive_def split: option.splits intro: same_config_trans)
qed

text \<open>An answer larger than the receive buffer ends the polling with an error.\<close>

lemma poll_misread:
  assumes "awaits rt (others @ (t, ty, payload) # tail) q" and "in_time deadline rt others" and "t < deadline"
    and "list_all (\<lambda>(t, pkt). passed_over pick (rt_order rt) pkt) others"
    and "acceptable rt payload" and "length (rt_buffer rt) < packetHeaderSize + length payload"
  shows "\<exists>e rt'. poll deadline pick rt = Some ((None, Some e), rt') \<and> awaits rt' tail q"
proof -
  from poll_passes [OF assms(1,2,4)] obtain rt1 where
    rt1: "poll deadline pick rt = poll deadline pick rt1" "awaits rt1 ((t, ty, payload) # tail) q" "same_config rt rt1"
      "rt_now rt1 < deadline" "length (rt_buffer rt1) = length (rt_buffer rt)" by auto
  have "acceptable rt1 payload" using assms(5) rt1(3) by (simp add: acceptable_def same_config_def)
  with ReceiveTimeout_misread [OF rt1(2), of "deadline - rt_now rt1"] assms(3,6) rt1(4,5) obtain rt' where
    "ReceiveTimeout (deadline - rt_now rt1) rt1 = Some (misread (rt_order rt1) payload, rt')" "awaits rt' tail q" by auto
  with rt1(1,4) show ?thesis by (auto simp: poll.simps [of deadline pick rt1] misread_def)
qed

text \<open>What \<open>receiveSkippingEvents\<close> takes for the response.\<close>

definition response_of :: "Packet \<Rightarrow> Packet option" where
  "response_of p = (if pk_Type p = PacketTypeEvent \<or> pk_Type p = PacketTypeNoMoreData then None else Some p)"

lemma skip_events_scheduled:
  assumes "awaits rt (others @ (t, pkt) # tail) q" and "in_time deadline rt (others @ [(t, pkt)])" and "0 < timeout"
    and "list_all (\<lambda>(t, pkt). passed_over response_of (rt_order rt) pkt) others"
    and "decisive response_of (rt_order rt) pkt r"
  shows "\<exists>rt'. skip_events timeout deadline rt = Some (packet_result (rt_order rt) pkt, rt') \<and> awaits rt' tail q
    \<and> same_config rt rt' \<and> rt_now rt \<le> rt_now rt' \<and> rt_now rt' < deadline
    \<and> length (rt_buffer rt') = length (rt_buffer rt)"
  using assms
proof (induction others arbitrary: rt)
  case Nil
  have now: "rt_now rt < deadline" using Nil.prems(2) by (simp add: in_time_def)
  from ReceiveTimeout_scheduled [of rt t pkt "[]" tail q deadline] Nil.prems(1,2) obtain p e rt' where
    "packet_result (rt_order rt) pkt = (p, e)" "ReceiveTimeout (deadline - rt_now rt) rt = Some ((p, e), rt')"
    "awaits rt' tail q" "rt_now rt' < deadline" "same_config rt rt'" "rt_now rt \<le> rt_now rt'"
    "length (rt_buffer rt') = length (rt_buffer rt)" by (auto simp: in_time_def)
  with Nil.prems(3,5) now show ?case
    by (intro exI [of _ rt'])
      (auto simp: skip_events_eq [of timeout deadline rt] skip_wait_def decisive_def response_of_def split: option.splits if_splits)
next
  case (Cons x others)
  obtain t0 pkt0 where x: "x = (t0, pkt0)" by (cases x)
  have now: "rt_now rt < deadline" using Cons.prems(2) by (simp add: in_time_def)
  from ReceiveTimeout_scheduled [of rt t0 pkt0 "others @ [(t, pkt)]" tail q deadline] Cons.prems(1,2,4) obtain p rt1 where
    r: "ReceiveTimeout (deadline - rt_now rt) rt = Some ((p, None), rt1)" "response_of p = None"
    and rt1: "awaits rt1 (others @ (t, pkt) # tail) q" "in_time deadline rt1 (others @ [(t, pkt)])"
      "same_config rt rt1" "rt_order rt1 = rt_order rt" "rt_now rt \<le> rt_now rt1"
      "length (rt_buffer rt1) = length (rt_buffer rt)"
    by (auto simp: x passed_over_def)
  from Cons.IH [OF rt1(1,2)] Cons.prems(3-5) rt1(4) obtain rt' where
    "skip_events timeout deadline rt1 = Some (packet_result (rt_order rt) pkt, rt')" "awaits rt' tail q"
    "same_config rt1 rt'" "rt_now rt1 \<le> rt_now rt'" "rt_now rt' < deadline"
    "length (rt_buffer rt') = length (rt_buffer rt1)"
    by auto
  moreover have "rt_now rt1 < deadline" using rt1(2) by (simp add: in_time_def)
  then have "skip_events timeout deadline rt = skip_events timeout deadline rt1"
    using r now Cons.prems(3)
    by (auto simp: skip_events_eq [of timeout deadline rt] skip_wait_def response_of_def split: if_splits)
  ultimately show ?case
    using rt1 by (intro exI [of _ rt']) (auto intro: same_config_trans)
qed

lemma in_time_later:
  "in_time d rt sched \<Longrightarrow> same_config rt rt' \<Longrightarrow> rt_now rt' < d' \<Longrightarrow> d \<le> d' \<Longrightarrow> in_time d' rt' sched"
  by (auto simp: in_time_def list_all_iff intro: fits_config)

text \<open>A command whose acknowledgement comes behind any events; \<open>tail\<close> may come much later.\<close>

lemma command_accepted:
  assumes "sendCommand msg rt = (None, rt1)" and "awaits rt1 (others @ (t, PacketTypeCommand, to_bytes s @ [0]) # tail) q"
    and "in_time (rt_now rt1 + DefaultCommandTimeout) rt1 (others @ [(t, PacketTypeCommand, to_bytes s @ [0])])"
    and "list_all (\<lambda>(t, pkt). passed_over response_of (rt_order rt1) pkt) others"
    and "text_string s" and "list_ex (EqualFold s) expected"
  shows "\<exists>rt'. sendAndWaitForResponse sendCommand msg expected rt = Some (None, rt') \<and> awaits rt' tail q
    \<and> same_config rt1 rt' \<and> rt_now rt1 \<le> rt_now rt' \<and> length (rt_buffer rt') = length (rt_buffer rt1)"
proof -
  note acked = packet_result_text [OF assms(5)]
  have "decisive response_of (rt_order rt1) (PacketTypeCommand, to_bytes s @ [0])
      (Some (fst (packet_result (rt_order rt1) (PacketTypeCommand, to_bytes s @ [0]))), None)"
    by (simp add: decisive_def acked response_of_def)
  from skip_events_scheduled [OF assms(2,3) _ assms(4) this, of DefaultCommandTimeout] assms(1,6) show ?thesis
    by (auto simp: sendAndWaitForResponse_def receiveSkippingEvents_def acked response_error_def)
qed


subsection \<open>A server that answers too late\<close>

text \<open>Nothing comes within the wait: the no-data marker, after exactly that time.\<close>

lemma awaits_head:
  "awaits rt ((t, ty, payload) # sched) q \<longleftrightarrow>
    awaits rt [] ((t, Chunk (enc_packet (rt_order rt) ty payload)) # deliveries (rt_order rt) sched @ q)"
  by (cases "rt_conn rt") (simp_all add: awaits_def deliveries_def)

lemma ReceiveTimeout_quiet_event:
  assumes "awaits rt [] ((t, ev) # q)" and "0 < d" and "rt_now rt + d \<le> t"
  shows "\<exists>rt'. ReceiveTimeout d rt = Some ((zero_Packet\<lparr>pk_Type := PacketTypeNoMoreData\<rparr>, None), rt')
    \<and> awaits rt' [] ((t, ev) # q) \<and> rt_now rt' = rt_now rt + d \<and> same_config rt rt'
    \<and> length (rt_buffer rt') = length (rt_buffer rt)"
proof -
  let ?dl = "Some (rt_now rt + d)"
  from assms(1) obtain c where c: "rt_conn rt = Some c" "cn_deadline_err c = None" "cn_inbox c = (t, ev) # q"
    and buf: "packetHeaderSize \<le> length (rt_buffer rt)" and tmo: "0 < rt_readTimeout rt"
    by (auto simp: awaits_def deliveries_def split: option.splits)
  have "conn_Read ?dl packetHeaderSize (rt_now rt) ((t, ev) # q) = Some ([], Some ioTimeout, rt_now rt + d, (t, ev) # q)"
    using assms(2,3) by (simp add: late_def give_up_def)
  then have "io_ReadFull ?dl packetHeaderSize (rt_now rt) ((t, ev) # q)
      = Some ([], Some ioTimeout, rt_now rt + d, (t, ev) # q)"
    by (simp add: io_ReadFull_def read_loop_net.simps)
  with c buf assms(2) have "ReceiveTimeout d rt = Some ((zero_Packet\<lparr>pk_Type := PacketTypeNoMoreData\<rparr>, None),
      rt\<lparr>rt_conn := Some (c\<lparr>cn_deadline := ?dl\<rparr>), rt_now := rt_now rt + d\<rparr>)"
    by (simp add: ReceiveTimeout_def IsConnected_def setReadDeadline_def conn_SetReadDeadline_def
        read_buffer_def ioTimeout_def)
  with c buf tmo show ?thesis by (auto simp: awaits_def deliveries_def same_config_def)
qed

lemma ReceiveTimeout_quiet:
  assumes "awaits rt ((t, pkt) # sched) q" and "0 < d" and "rt_now rt + d \<le> t"
  shows "\<exists>rt'. ReceiveTimeout d rt = Some ((zero_Packet\<lparr>pk_Type := PacketTypeNoMoreData\<rparr>, None), rt')
    \<and> awaits rt' ((t, pkt) # sched) q \<and> rt_now rt' = rt_now rt + d \<and> same_config rt rt'"
proof -
  obtain ty payload where pkt: "pkt = (ty, payload)" by (cases pkt)
  show ?thesis
    using ReceiveTimeout_quiet_event [OF assms(1) [unfolded pkt awaits_head] assms(2,3)]
    unfolding pkt awaits_head by (auto simp: same_config_def)
qed

text \<open>A wait whose packets are all passed over and whose next one comes after the deadline.\<close>

lemma skip_events_late:
  assumes "awaits rt (others @ (t, pkt) # tail) q" and "in_time deadline rt others" and "0 < timeout"
    and "list_all (\<lambda>(t, pkt). passed_over response_of (rt_order rt) pkt) others" and "deadline \<le> t"
  shows "\<exists>p rt'. skip_events timeout deadline rt = Some ((p, Some ErrTimeout), rt') \<and> awaits rt' ((t, pkt) # tail) q
    \<and> same_config rt rt' \<and> rt_now rt' = deadline"
  using assms
proof (induction others arbitrary: rt)
  case Nil
  have now: "rt_now rt < deadline" using Nil.prems(2) by (simp add: in_time_def)
  with ReceiveTimeout_quiet [of rt t pkt tail q "deadline - rt_now rt"] Nil.prems(1,5) obtain rt' where
    "ReceiveTimeout (deadline - rt_now rt) rt = Some ((zero_Packet\<lparr>pk_Type := PacketTypeNoMoreData\<rparr>, None), rt')"
    "awaits rt' ((t, pkt) # tail) q" "rt_now rt' = deadline" "same_config rt rt'" by auto
  with now Nil.prems(3) show ?case by (auto simp: skip_events_eq [of timeout deadline rt] skip_wait_def)
next
  case (Cons x others)
  obtain t0 pkt0 where x: "x = (t0, pkt0)" by (cases x)
  have now: "rt_now rt < deadline" using Cons.prems(2) by (simp add: in_time_def)
  from ReceiveTimeout_scheduled [of rt t0 pkt0 others "(t, pkt) # tail" q deadline] Cons.prems(1,2,4) obtain p rt1 where
    r: "ReceiveTimeout (deadline - rt_now rt) rt = Some ((p, None), rt1)" "response_of p = None"
    and rt1: "awaits rt1 (others @ (t, pkt) # tail) q" "in_time deadline rt1 others"
      "same_config rt rt1" "rt_order rt1 = rt_order rt"
    by (auto simp: x passed_over_def)
  from Cons.IH [OF rt1(1,2)] Cons.prems(3-5) rt1(4) obtain p' rt' where
    "skip_events timeout deadline rt1 = Some ((p', Some ErrTimeout), rt')" "awaits rt' ((t, pkt) # tail) q"
    "same_config rt1 rt'" "rt_now rt' = deadline"
    by auto
  moreover have "rt_now rt1 < deadline" using rt1(2) by (simp add: in_time_def)
  then have "skip_events timeout deadline rt = skip_events timeout deadline rt1"
    using r now Cons.prems(3)
    by (auto simp: skip_events_eq [of timeout deadline rt] skip_wait_def response_of_def split: if_splits)
  ultimately show ?case
    using rt1 by (intro exI [of _ p'] exI [of _ rt']) (auto intro: same_config_trans)
qed

text \<open>A command that is written is answered behind what is still to come.\<close>

lemma sendCommand_awaits:
  assumes "sendCommand msg rt = (None, rt')" and "awaits rt sched q"
  shows "\<exists>q'. awaits rt' sched (q @ q') \<and> same_config rt rt' \<and> rt_now rt' = rt_now rt"
proof -
  from assms(2) obtain c where c: "rt_conn rt = Some c" by (auto simp: awaits_def split: option.splits)
  with assms(1) obtain c' where w: "conn_Write (frame_string (rt_order rt) msg PacketTypeCommand) (rt_now rt) c = (None, c')"
    and rt': "rt' = rt\<lparr>rt_conn := Some c'\<rparr>"
    by (auto simp: sendCommand_def sendString_def wrap_err_def split: prod.splits option.splits)
  from w obtain evs where "c' = c\<lparr>cn_outbox := cn_outbox c @ [frame_string (rt_order rt) msg PacketTypeCommand],
      cn_inbox := cn_inbox c @ map (\<lambda>(dt, ev). (rt_now rt + dt, ev)) evs\<rparr>"
    by (auto simp: conn_Write_def split: sum.splits)
  with c rt' assms(2) show ?thesis
    by (intro exI [of _ "map (\<lambda>(dt, ev). (rt_now rt + dt, ev)) evs"]) (simp add: awaits_def same_config_def)
qed

text \<open>
  C15: Answers are not told apart. When the answer to a command comes after its deadline, the
  command fails with \<open>ErrTimeout\<close>, exactly at the deadline, and the connection stays open; the
  answer is still in the stream, and the next command takes it for its own: whether that
  command succeeds depends on the answer to the one before.
\<close>

theorem late_answer_misattributed:
  assumes "sendCommand msg rt = (None, rt1)" and "awaits rt1 (others @ [(t, PacketTypeCommand, to_bytes s @ [0])]) q"
    and "in_time (rt_now rt1 + DefaultCommandTimeout) rt1 others"
    and "list_all (\<lambda>(t, pkt). passed_over response_of (rt_order rt1) pkt) others"
    and "rt_now rt1 + DefaultCommandTimeout \<le> t" and "t < rt_now rt1 + 2 * DefaultCommandTimeout"
    and "fits rt1 (PacketTypeCommand, to_bytes s @ [0])" and "text_string s"
  shows "\<exists>rt'. sendAndWaitForResponse sendCommand msg expected rt = Some (Some ErrTimeout, rt')
    \<and> IsConnected rt' \<and> rt_now rt' = rt_now rt1 + DefaultCommandTimeout
    \<and> (\<forall>msg' expected' rt2. sendCommand msg' rt' = (None, rt2) \<longrightarrow>
        (\<exists>e rt3. sendAndWaitForResponse sendCommand msg' expected' rt' = Some (e, rt3)
          \<and> (e = None \<longleftrightarrow> list_ex (EqualFold s) expected')))"
proof -
  let ?pkt = "(PacketTypeCommand, to_bytes s @ [0])"
  let ?deadline = "rt_now rt1 + DefaultCommandTimeout"
  obtain p rt' where skip: "skip_events DefaultCommandTimeout ?deadline rt1 = Some ((p, Some ErrTimeout), rt')"
    and rt': "awaits rt' [(t, ?pkt)] q" "same_config rt1 rt'" "rt_now rt' = ?deadline"
    using skip_events_late [of rt1 others t ?pkt "[]" q ?deadline DefaultCommandTimeout] assms(2-5) by auto
  have "sendAndWaitForResponse sendCommand msg expected rt = Some (Some ErrTimeout, rt')"
    using assms(1) skip by (simp add: sendAndWaitForResponse_def receiveSkippingEvents_def)
  moreover have "IsConnected rt'" using rt'(1) by (auto simp: awaits_def IsConnected_def split: option.splits)
  moreover have "\<exists>e rt3. sendAndWaitForResponse sendCommand msg' expected' rt' = Some (e, rt3)
      \<and> (e = None \<longleftrightarrow> list_ex (EqualFold s) expected')" if sent: "sendCommand msg' rt' = (None, rt2)" for msg' expected' rt2
  proof -
    from sendCommand_awaits [OF sent rt'(1)] obtain q' where
      rt2: "awaits rt2 [(t, ?pkt)] (q @ q')" "same_config rt' rt2" "rt_now rt2 = ?deadline" using rt'(3) by auto
    from fits_config [OF rt2(2)] fits_config [OF rt'(2)] assms(7) have fit: "fits rt2 ?pkt" by blast
    note acked = packet_result_text [OF assms(8)]
    have "decisive response_of (rt_order rt2) ?pkt (Some (fst (packet_result (rt_order rt2) ?pkt)), None)"
      by (simp add: decisive_def acked response_of_def)
    moreover have "in_time (rt_now rt2 + DefaultCommandTimeout) rt2 [(t, ?pkt)]"
      using rt2(3) fit assms(6) by (simp add: in_time_def)
    ultimately obtain rt3 where "skip_events DefaultCommandTimeout (rt_now rt2 + DefaultCommandTimeout) rt2
        = Some (packet_result (rt_order rt2) ?pkt, rt3)"
      using skip_events_scheduled [of rt2 "[]" t ?pkt "[]" "q @ q'" "rt_now rt2 + DefaultCommandTimeout"
          DefaultCommandTimeout] rt2(1) by auto
    with sent show ?thesis
      by (auto simp: sendAndWaitForResponse_def receiveSkippingEvents_def acked response_error_def)
  qed
  ultimately show ?thesis using rt'(3) by blast
qed

subsection \<open>Properties\<close>

text \<open>
  \<open>GetState\<close> reports the first event that comes after the request, behind anything else that
  comes before it (frames of a running stream, say), and \<open>State\<close> gives the same event from
  then on, unless it is the notification of changed camera settings, which is no state.
\<close>

lemma state_reported:
  assumes "sendCommand (if rt_majorVersion rt = 1 \<and> rt_minorVersion rt \<le> 9 then ''GetLastEvent'' else ''GetState'') rt = (None, rt1)"
    and "awaits rt1 (others @ (t, PacketTypeEvent, [ev]) # tail) q"
    and "in_time (rt_now rt1 + DefaultCommandTimeout) rt1 (others @ [(t, PacketTypeEvent, [ev])])"
    and "list_all (\<lambda>(t, pkt). passed_over (\<lambda>p. if pk_Type p = PacketTypeEvent then Some (pk_Event p) else None)
      (rt_order rt1) pkt) others"
  shows "\<exists>rt'. GetState rt = Some ((ev, None), rt') \<and> awaits rt' tail q
    \<and> (ev = EventTypeCameraSettingsChanged \<or> State rt' = ev)"
proof -
  let ?pick = "\<lambda>p. if pk_Type p = PacketTypeEvent then Some (pk_Event p) else None"
  obtain p where p: "packet_result (rt_order rt1) (PacketTypeEvent, [ev]) = (p, None)" "pk_Type p = PacketTypeEvent" "pk_Event p = ev"
    by (simp add: packet_result_def event_decoded receive_result_def)
  then have "decisive ?pick (rt_order rt1) (PacketTypeEvent, [ev]) (Some ev, None)" by (simp add: decisive_def)
  from poll_scheduled [OF assms(2-4) this] obtain rt' rt0 where
    poll: "poll (rt_now rt1 + DefaultCommandTimeout) ?pick rt1 = Some ((Some ev, None), rt')"
    and rt': "awaits rt' tail q" "rt_state rt' = rt_state (note_event p rt0)"
    by (auto simp: p(1))
  have "GetState rt = Some ((ev, None), rt')" using assms(1) poll by (simp add: GetState_def)
  with rt' note_event_keeps_event [OF p(2)] p(3) show ?thesis by (auto simp: State_def)
qed


text \<open>
  C23: A calibration returns its result: after the acknowledgement \<open>Calibrate\<close> waits up to its
  timeout, however much longer than the read timeout that is, passes over events and other
  packets, and returns the calibration XML, or reports a connection that was closed; the
  first packet that is one or the other decides.  That holds when the deciding packet fits in the
  receive buffer (4096 bytes, header included, until a larger packet has been received); a
  larger calibration XML, up to the packet limit, is misread and the call returns an error.
\<close>

theorem calibration_result:
  assumes "sendCommand (if refine then ''Calibrate Refine'' else ''Calibrate'') rt = (None, rt1)"
    and "awaits rt1 (evs @ (t, PacketTypeCommand, to_bytes ''Starting calibration'' @ [0])
      # others @ (t', ty, payload) # tail) q"
    and "in_time (rt_now rt1 + DefaultCommandTimeout) rt1
      (evs @ [(t, PacketTypeCommand, to_bytes ''Starting calibration'' @ [0])])"
    and "in_time (rt_now rt1 + (if timeout \<le> 0 then DefaultCalibrationTimeout else timeout)) rt1 others"
    and "t' < rt_now rt1 + (if timeout \<le> 0 then DefaultCalibrationTimeout else timeout)"
    and "list_all (\<lambda>(t, pkt). passed_over response_of (rt_order rt1) pkt) evs"
    and "list_all (\<lambda>(t, pkt). passed_over calibration_answer (rt_order rt1) pkt) others"
    and "decisive calibration_answer (rt_order rt1) (ty, payload) (Some answer, None)"
    and "payload \<noteq> []" and "acceptable rt1 payload"
  shows "\<exists>e rt'. Calibrate refine timeout rt =
      Some (if packetHeaderSize + length payload \<le> length (rt_buffer rt1) then
          (case answer of
            Inl xml \<Rightarrow> (xml, None)
          | Inr _ \<Rightarrow> ('''', Some (Errorf ''calibrate: connection closed during calibration'' [])))
        else ('''', Some e), rt')
    \<and> awaits rt' tail q"
proof -
  define timeout' where "timeout' = (if timeout \<le> 0 then DefaultCalibrationTimeout else timeout)"
  have "text_string ''Starting calibration''" by (simp add: text_string_def)
  from command_accepted [OF assms(1-3,6) this, of "[''Starting calibration'']"] obtain rt2 where
    a: "sendAndWaitForResponse sendCommand (if refine then ''Calibrate Refine'' else ''Calibrate'') [''Starting calibration''] rt
      = Some (None, rt2)"
    and rt2: "awaits rt2 (others @ (t', ty, payload) # tail) q" "same_config rt1 rt2" "rt_now rt1 \<le> rt_now rt2"
      "length (rt_buffer rt2) = length (rt_buffer rt1)"
    by auto
  have ord: "rt_order rt2 = rt_order rt1" and acc: "acceptable rt2 payload"
    using rt2(2) assms(10) by (simp_all add: same_config_def acceptable_def)
  have before: "in_time (rt_now rt2 + timeout') rt2 others" "t' < rt_now rt2 + timeout'"
    using in_time_later [OF assms(4) rt2(2)] assms(4,5) rt2(3) by (auto simp: timeout'_def in_time_def)
  show ?thesis
  proof (cases "packetHeaderSize + length payload \<le> length (rt_buffer rt1)")
    case True
    with before acc assms(9) rt2(4) have "in_time (rt_now rt2 + timeout') rt2 (others @ [(t', ty, payload)])"
      by (simp add: in_time_def fits_def)
    from poll_scheduled [OF rt2(1) this, of calibration_answer "(Some answer, None)"] assms(7,8) obtain rt' where
      "poll (rt_now rt2 + timeout') calibration_answer rt2 = Some ((Some answer, None), rt')" "awaits rt' tail q"
      by (auto simp: ord)
    with a True show ?thesis
      by (intro exI [of _ undefined] exI [of _ rt']) (cases answer; simp add: Calibrate_def Let_def timeout'_def)
  next
    case False
    with poll_misread [OF rt2(1) before, of calibration_answer] acc assms(7) rt2(4) obtain e rt' where
      "poll (rt_now rt2 + timeout') calibration_answer rt2 = Some ((None, Some e), rt')" "awaits rt' tail q"
      by (auto simp: ord)
    with a False show ?thesis by (auto simp: Calibrate_def Let_def timeout'_def)
  qed
qed

subsection \<open>The two data paths\<close>


subsection \<open>Concrete schedules\<close>

definition demo_waiting :: "schedule \<Rightarrow> Protocol" where
  "demo_waiting sched = (NewProtocol ''qtm'' 22222 [])\<lparr>rt_conn := Some (demo_conn (deliveries LittleEndian sched)),
     rt_sockets := 1\<rparr>"

definition demo_asked :: "schedule \<Rightarrow> string \<Rightarrow> Protocol" where
  "demo_asked sched msg = snd (sendCommand msg (demo_waiting sched))"

lemma demo_asked [simp]:
  "sendCommand msg (demo_waiting sched) = (None, demo_asked sched msg)"
  "awaits (demo_asked sched msg) sched q \<longleftrightarrow> q = []"
  "rt_order (demo_asked sched msg) = LittleEndian" "rt_now (demo_asked sched msg) = 0"
  "fits (demo_asked sched msg) (ty, payload) \<longleftrightarrow> payload \<noteq> [] \<and> packetHeaderSize + length payload \<le> 4096"
  "length (rt_buffer (demo_asked sched msg)) = 4096"
  "acceptable (demo_asked sched msg) payload \<longleftrightarrow> int (packetHeaderSize + length payload) \<le> DefaultMaxPacketSize"
  by (auto simp: demo_asked_def demo_waiting_def demo_conn_def sendCommand_def sendString_def conn_Write_def
      awaits_def NewProtocol_def fits_def acceptable_def)

lemma demo_version [simp]: "rt_majorVersion (demo_waiting sched) = 0"
  by (simp add: demo_waiting_def NewProtocol_def)


theorem calibration_result_witness:
  "\<exists>rt'. Calibrate True 0 (demo_waiting ([(1, PacketTypeEvent, [6])]
      @ (2, PacketTypeCommand, to_bytes ''Starting calibration'' @ [0]) # [(100 * Second, PacketTypeEvent, [7])]
      @ (300 * Second, PacketTypeXML, to_bytes ''<c/>'' @ [0]) # [])) = Some ((''<c/>'', None), rt') \<and> awaits rt' [] []"
proof -
  let ?sched = "[(1, PacketTypeEvent, [6])]
      @ (2, PacketTypeCommand, to_bytes ''Starting calibration'' @ [0]) # [(100 * Second, PacketTypeEvent, [7])]
      @ (300 * Second, PacketTypeXML, to_bytes ''<c/>'' @ [0]) # []"
  let ?rt = "demo_asked ?sched ''Calibrate Refine''"
  have "text_string ''<c/>''" by (simp add: text_string_def)
  note xml = trimStringResponse_text [OF this, of 1]
  have sent: "sendCommand (if True then ''Calibrate Refine'' else ''Calibrate'') (demo_waiting ?sched) = (None, ?rt)" by simp
  have "awaits ?rt ?sched []" by simp
  moreover have "in_time (rt_now ?rt + DefaultCommandTimeout) ?rt ([(1, PacketTypeEvent, [6])]
      @ [(2, PacketTypeCommand, to_bytes ''Starting calibration'' @ [0])])"
    "in_time (rt_now ?rt + (if (0::int) \<le> 0 then DefaultCalibrationTimeout else 0)) ?rt [(100 * Second, PacketTypeEvent, [7])]"
    "300 * Second < rt_now ?rt + (if (0::int) \<le> 0 then DefaultCalibrationTimeout else 0)"
    by (simp_all add: in_time_def)
  moreover have "list_all (\<lambda>(t, pkt). passed_over response_of (rt_order ?rt) pkt) [(1, PacketTypeEvent, [6])]"
    "list_all (\<lambda>(t, pkt). passed_over calibration_answer (rt_order ?rt) pkt) [(100 * Second, PacketTypeEvent, [7])]"
    "decisive calibration_answer (rt_order ?rt) (PacketTypeXML, to_bytes ''<c/>'' @ [0]) (Some (Inl ''<c/>''), None)"
    using xml by (simp_all add: passed_over_def decisive_def packet_result_def event_decoded receive_result_def
        response_of_def calibration_answer_def Packet_UnmarshalBinary_enc decoded_payload_def)
  moreover have "to_bytes ''<c/>'' @ [0] \<noteq> []" "acceptable ?rt (to_bytes ''<c/>'' @ [0])" by simp_all
  ultimately have "\<exists>e rt'. Calibrate True 0 (demo_waiting ?sched) =
      Some (if packetHeaderSize + length (to_bytes ''<c/>'' @ [0]) \<le> length (rt_buffer ?rt) then
          (case Inl ''<c/>'' :: string + unit of
            Inl xml \<Rightarrow> (xml, None)
          | Inr _ \<Rightarrow> ('''', Some (Errorf ''calibrate: connection closed during calibration'' [])))
        else ('''', Some e), rt')
    \<and> awaits rt' [] []" by (rule calibration_result [OF sent])
  then show ?thesis by simp
qed

text \<open>A trigger that is acknowledged after six seconds.\<close>

theorem late_answer_misattributed_witness:
  "\<exists>rt'. sendAndWaitForResponse sendCommand ''Trig'' [''Trig ok'']
      (demo_waiting ([(1, PacketTypeEvent, [3])] @ [(6 * Second, PacketTypeCommand, to_bytes ''Trig ok'' @ [0])]))
      = Some (Some ErrTimeout, rt')
    \<and> IsConnected rt' \<and> rt_now rt' = 0 + DefaultCommandTimeout
    \<and> (\<forall>msg' expected' rt2. sendCommand msg' rt' = (None, rt2) \<longrightarrow>
        (\<exists>e rt3. sendAndWaitForResponse sendCommand msg' expected' rt' = Some (e, rt3)
          \<and> (e = None \<longleftrightarrow> list_ex (EqualFold ''Trig ok'') expected')))"
  using late_answer_misattributed [OF demo_asked(1) iffD2 [OF demo_asked(2)], where others = "[(1, PacketTypeEvent, [3])]"
      and t = "6 * Second" and s = "''Trig ok''" and expected = "[''Trig ok'']"]
  by (simp add: in_time_def passed_over_def packet_result_def event_decoded receive_result_def response_of_def
      text_string_def)



end
