(* ===== verification/Discover.thy ===== *)
theory Discover
  imports Go_Errors Go_Strings
begin

text \<open>
  Finding QTM on the network (\<open>pkg/discover/discover.go\<close>): the broadcast addresses of the
  local interfaces, the reply format, and the discovery itself.

  What the operating system contributes is an argument: the list of interfaces, and the
  UDP socket as the errors of its operations and the script of datagrams that arrive (time,
  and an error or the sender and the bytes). An IP address or mask is its byte slice; the
  empty list is also Go's nil.
\<close>

subsection \<open>Broadcast addresses\<close>

definition To4 :: "bytes \<Rightarrow> bytes option" where
  "To4 ip = (if length ip = 4 then Some ip
     else if length ip = 16 \<and> take 12 ip = replicate 10 0 @ [0xFF, 0xFF] then Some (drop 12 ip)
     else None)"

definition IsLoopback :: "bytes \<Rightarrow> bool" where
  "IsLoopback ip = (case To4 ip of
     Some ip4 \<Rightarrow> hd ip4 = 127
   | None \<Rightarrow> ip = replicate 15 0 @ [1])"

text \<open>\<open>binary.BigEndian.Uint32\<close> of a nil mask panics.\<close>

definition combineIPAndMask :: "bytes \<Rightarrow> bytes \<Rightarrow> (err + bytes) option" where
  "combineIPAndMask IP Mask = (case To4 IP of
     None \<Rightarrow> Some (Inl (Errorf ''no support for IPv6 addresses'' []))
   | Some ip4 \<Rightarrow> do {
       a \<leftarrow> Uint32 BigEndian ip4;
       m \<leftarrow> (case To4 Mask of None \<Rightarrow> None | Some m4 \<Rightarrow> Uint32 BigEndian m4);
       Some (Inr (PutUint32 BigEndian (a OR NOT m)))
     })"

definition IP_String :: "bytes \<Rightarrow> string" where
  "IP_String ip4 = Join (map (\<lambda>b. Itoa (uint b)) ip4) ''.''"

datatype net_addr = IPNet bytes bytes | IPAddr bytes | OtherAddr

record net_interface =
  if_Flags :: u32
  if_Addrs :: "err + net_addr list"

abbreviation FlagUp :: u32 where "FlagUp \<equiv> 1"
abbreviation FlagLoopback :: u32 where "FlagLoopback \<equiv> 4"

definition addr_ip :: "net_addr \<Rightarrow> bytes" where
  "addr_ip addr = (case addr of IPNet ip m \<Rightarrow> ip | IPAddr ip \<Rightarrow> ip | OtherAddr \<Rightarrow> [])"

text \<open>The loop over the addresses of one interface; the type assertion panics for an \<open>IPAddr\<close>.\<close>

fun broadcast_addrs :: "net_addr list \<Rightarrow> string list option" where
  "broadcast_addrs [] = Some []"
| "broadcast_addrs (addr # addrs) =
     (let ip = addr_ip addr in
      if ip = [] \<or> IsLoopback ip then broadcast_addrs addrs
      else if To4 ip = None then broadcast_addrs addrs
      else do {
        r \<leftarrow> (case addr of IPNet ip m \<Rightarrow> combineIPAndMask ip m | _ \<Rightarrow> None);
        rest \<leftarrow> broadcast_addrs addrs;
        Some (case r of Inl e \<Rightarrow> rest | Inr ipb \<Rightarrow> IP_String ipb # rest)
      })"

fun broadcast_interfaces :: "net_interface list \<Rightarrow> (string list \<times> err option) option" where
  "broadcast_interfaces [] = Some ([], None)"
| "broadcast_interfaces (intf # intfs) =
     (if if_Flags intf AND FlagUp = 0 then broadcast_interfaces intfs
      else if if_Flags intf AND FlagLoopback \<noteq> 0 then broadcast_interfaces intfs
      else case if_Addrs intf of
        Inl e \<Rightarrow> Some ([], Some e)
      | Inr addrs \<Rightarrow> do {
          ips \<leftarrow> broadcast_addrs addrs;
          (rest, e) \<leftarrow> broadcast_interfaces intfs;
          Some (ips @ rest, e)
        })"

definition getBroadcastAddresses :: "err + net_interface list \<Rightarrow> (string list \<times> err option) option" where
  "getBroadcastAddresses interfaces = (case interfaces of
     Inl e \<Rightarrow> Some ([], Some e) | Inr intfs \<Rightarrow> broadcast_interfaces intfs)"

subsection \<open>Replies\<close>

record Response =
  rs_Address :: string
  rs_Hostname :: string
  rs_QtmVersion :: string
  rs_Cameras :: int
  rs_BasePort :: int

definition Response_String :: "Response \<Rightarrow> string" where
  "Response_String dr = rs_Hostname dr @ '' ('' @ rs_QtmVersion dr @ '') at '' @ rs_Address dr @ '':''
     @ Itoa (rs_BasePort dr) @ '' with '' @ Itoa (rs_Cameras dr) @ '' cameras''"

definition splitAndTrimStrings :: "string \<Rightarrow> char \<Rightarrow> string list" where
  "splitAndTrimStrings s sep = map TrimSpace (Split s sep)"

definition Response_UnmarshalBinary :: "Response \<Rightarrow> bytes \<Rightarrow> (err option \<times> Response) option" where
  "Response_UnmarshalBinary dr data =
     (let size = length data in
      if size < 16 then Some (Some (Errorf ''too little data to UnmarshalBinary from'' []), dr)
      else do {
        b \<leftarrow> slice data 8 (size - 2);
        case splitAndTrimStrings (to_string b) CHR '','' of
          [host, ver, cams] \<Rightarrow> do {
            b \<leftarrow> slice data (size - 2) size;
            p \<leftarrow> Uint16 BigEndian b;
            let dr = dr\<lparr>rs_Hostname := host, rs_QtmVersion := ver\<rparr>;
            let dr = (case Atoi (hd (Split cams CHR '' '')) of Some n \<Rightarrow> dr\<lparr>rs_Cameras := n\<rparr> | None \<Rightarrow> dr);
            Some (None, dr\<lparr>rs_BasePort := uint p\<rparr>)
          }
        | _ \<Rightarrow> Some (Some (Errorf ''information part doesn't contain correct data'' []), dr)
      })"

subsection \<open>Discovery\<close>

text \<open>\<open>net.SplitHostPort\<close>: the host, \<open>None\<close> when there is no well-formed port.\<close>

fun index_of :: "char \<Rightarrow> string \<Rightarrow> nat option" where
  "index_of c [] = None"
| "index_of c (x # s) = (if x = c then Some 0 else map_option Suc (index_of c s))"

definition last_index_of :: "char \<Rightarrow> string \<Rightarrow> nat option" where
  "last_index_of c s = map_option (\<lambda>i. length s - 1 - i) (index_of c (rev s))"

definition SplitHost :: "string \<Rightarrow> string option" where
  "SplitHost s = (case last_index_of CHR '':'' s of
     None \<Rightarrow> None
   | Some i \<Rightarrow>
       if hd s = CHR ''['' then
         (case index_of CHR '']'' s of
           None \<Rightarrow> None
         | Some e \<Rightarrow>
             if e + 1 \<noteq> i then None
             else if CHR ''['' \<in> set (drop 1 s) \<or> CHR '']'' \<in> set (drop (e + 1) s) then None
             else Some (take (e - 1) (drop 1 s)))
       else
         let host = take i s in
         if CHR '':'' \<in> set host then None
         else if CHR ''['' \<in> set s \<or> CHR '']'' \<in> set s then None
         else Some host)"

type_synonym datagram = "int \<times> (err + string \<times> bytes)"

text \<open>
  The receive loop. \<open>malformed\<close> is the list of calls of \<open>OnMalformedResponse\<close>; the read
  buffer has 1024 bytes. When nothing arrives any more the deadline ends the loop.
\<close>

record discovery_result =
  dc_Responses :: "Response list"
  dc_Error :: "err option"
  dc_Malformed :: "(string \<times> err) list"

definition sender_host :: "string \<Rightarrow> string" where
  "sender_host from_addr = (case SplitHost from_addr of None \<Rightarrow> from_addr | Some host \<Rightarrow> host)"

definition zero_Response :: "string \<Rightarrow> Response" where
  "zero_Response host = \<lparr>rs_Address = host, rs_Hostname = '''', rs_QtmVersion = '''', rs_Cameras = 0, rs_BasePort = 0\<rparr>"

fun discover_loop :: "int \<Rightarrow> int \<Rightarrow> datagram list \<Rightarrow> Response list \<Rightarrow> (string \<times> err) list \<Rightarrow>
    discovery_result option" where
  "discover_loop deadline now [] responses malformed =
     Some \<lparr>dc_Responses = responses, dc_Error = None, dc_Malformed = malformed\<rparr>"
| "discover_loop deadline now ((t, ev) # q) responses malformed =
     (if deadline \<le> max now t then
        Some \<lparr>dc_Responses = responses, dc_Error = None, dc_Malformed = malformed\<rparr>
      else case ev of
        Inl e \<Rightarrow>
          if errors_Is e IoEOF \<or> isTimeout e then
            Some \<lparr>dc_Responses = responses, dc_Error = None, dc_Malformed = malformed\<rparr>
          else Some \<lparr>dc_Responses = [], dc_Error = Some (Errorf ''discover: readfrom: %w'' [AWrap e]),
            dc_Malformed = malformed\<rparr>
      | Inr (from_addr, bs) \<Rightarrow> do {
          let host = sender_host from_addr;
          (e, dr) \<leftarrow> Response_UnmarshalBinary (zero_Response host) (take 1024 bs);
          case e of
            Some e \<Rightarrow> discover_loop deadline (max now t) q responses (malformed @ [(host, e)])
          | None \<Rightarrow> discover_loop deadline (max now t) q
              (if dr \<in> set responses then responses else responses @ [dr]) malformed
        })"

record udp_socket =
  us_ListenError :: "err option"
  us_ResolveError :: "string \<Rightarrow> err option"
  us_WriteError :: "string \<Rightarrow> bytes \<Rightarrow> err option"
  us_DeadlineError :: "err option"
  us_Datagrams :: "datagram list"

definition discover_request :: "u16 \<Rightarrow> bytes" where
  "discover_request receivePort =
     PutUint32 LittleEndian 10 @ PutUint32 LittleEndian 7 @ PutUint16 BigEndian receivePort"

fun send_requests :: "udp_socket \<Rightarrow> bytes \<Rightarrow> string list \<Rightarrow> err option" where
  "send_requests sock data [] = None"
| "send_requests sock data (ip # ips) =
     (let ipp = JoinHostPort ip ''22226'' in
      case us_ResolveError sock ipp of
        Some e \<Rightarrow> Some (Errorf ''discover resolve udp address: %w'' [AWrap e])
      | None \<Rightarrow> (case us_WriteError sock ipp data of
          Some e \<Rightarrow> Some (Errorf ''discover write to connection: %w'' [AWrap e])
        | None \<Rightarrow> send_requests sock data ips))"

text \<open>
  A whole discovery. The socket is local to the call; that it is closed at the end, on every path
  (the deferred \<open>conn.Close()\<close>), is not modelled.
\<close>

definition Discover :: "u16 \<Rightarrow> int \<Rightarrow> err + net_interface list \<Rightarrow> udp_socket \<Rightarrow> int \<Rightarrow> discovery_result option" where
  "Discover receivePort timeout interfaces sock now = do {
     let failed = (\<lambda>e. \<lparr>dc_Responses = [], dc_Error = Some e, dc_Malformed = []\<rparr>);
     (ips, e) \<leftarrow> getBroadcastAddresses interfaces;
     case e of
       Some e \<Rightarrow> Some (failed e)
     | None \<Rightarrow> (case us_ListenError sock of
         Some e \<Rightarrow> Some (failed e)
       | None \<Rightarrow> (case send_requests sock (discover_request receivePort) ips of
           Some e \<Rightarrow> Some (failed e)
         | None \<Rightarrow> (case us_DeadlineError sock of
             Some e \<Rightarrow> Some (failed (Errorf ''discover: setreaddeadline: %w'' [AWrap e]))
           | None \<Rightarrow> discover_loop (now + timeout) now (us_Datagrams sock) [] [])))
   }"

subsection \<open>Lemmas\<close>

lemma Response_UnmarshalBinary_returns: "\<exists>e dr'. Response_UnmarshalBinary dr data = Some (e, dr')"
proof (cases "length data < 16")
  case False
  then have "slice data 8 (length data - 2) = Some (take (length data - 10) (drop 8 data))"
    "slice data (length data - 2) (length data) = Some (drop (length data - 2) data)"
    by (simp_all add: slice_def)
  moreover obtain p where "Uint16 BigEndian (drop (length data - 2) data) = Some p"
    using False by (auto simp: get_word_def)
  ultimately show ?thesis
    using False by (auto simp: Response_UnmarshalBinary_def Let_def split: list.split)
qed (simp add: Response_UnmarshalBinary_def)

text \<open>The octets of a big-endian word.\<close>

lemma octet_of_word:
  assumes "i < 4" and "n < 8"
  shows "bit (PutUint32 BigEndian v ! i) n = bit v (8 * (3 - i) + n)"
proof -
  have "3 - i < 4" and "[0..<4] ! (3 - i) = 3 - i" using nth_upt [of 0 "3 - i" 4] by simp_all
  with assms show ?thesis by (simp add: put_word_def arrange_def rev_nth le_bytes_def bit_simps)
qed

lemma octet_in_word:
  assumes "length bs = 4" and "i < 4" and "n < 8"
  shows "bit (le_word (rev bs) :: u32) (8 * (3 - i) + n) = bit (bs ! i) n"
proof -
  have "(8 * (3 - i) + n) div 8 = 3 - i" "(8 * (3 - i) + n) mod 8 = n" "8 * (3 - i) + n < 32" "3 - i < 4"
    using assms(3) by (simp, simp, linarith, simp)
  then show ?thesis using assms by (simp add: bit_le_word rev_nth)
qed

lemma Response_UnmarshalBinary_info:
  assumes "length header = 8" and "6 \<le> length b" and "length p = 2"
  shows "Response_UnmarshalBinary dr (header @ b @ p) =
    (case splitAndTrimStrings (to_string b) CHR '','' of
       [host, ver, cams] \<Rightarrow>
         let dr = dr\<lparr>rs_Hostname := host, rs_QtmVersion := ver\<rparr>;
             dr = (case Atoi (hd (Split cams CHR '' '')) of Some n \<Rightarrow> dr\<lparr>rs_Cameras := n\<rparr> | None \<Rightarrow> dr)
         in map_option (\<lambda>p. (None, dr\<lparr>rs_BasePort := uint p\<rparr>)) (Uint16 BigEndian p)
     | _ \<Rightarrow> Some (Some (Errorf ''information part doesn't contain correct data'' []), dr))"
proof -
  have "slice (header @ b @ p) 8 (length (header @ b @ p) - 2) = Some b"
    "slice (header @ b @ p) (length (header @ b @ p) - 2) (length (header @ b @ p)) = Some p"
    and "\<not> length (header @ b @ p) < 16"
    using assms by (simp_all add: slice_def)
  then show ?thesis
    by (auto simp: Response_UnmarshalBinary_def Let_def map_option_case simp del: length_append
        split: list.split option.splits bind_splits)
qed

text \<open>What one datagram stands for.\<close>

definition reply :: "string \<times> bytes \<Rightarrow> err option \<times> Response" where
  "reply = (\<lambda>(from_addr, bs). the (Response_UnmarshalBinary (zero_Response (sender_host from_addr)) (take 1024 bs)))"

lemma reply_eq:
  "Response_UnmarshalBinary (zero_Response (sender_host from_addr)) (take 1024 bs) = Some (reply (from_addr, bs))"
  using Response_UnmarshalBinary_returns by (fastforce simp: reply_def)

lemma discover_loop_reply:
  assumes "max now t < deadline"
  shows "discover_loop deadline now ((t, Inr (from_addr, bs)) # q) rs mal =
    (case reply (from_addr, bs) of
       (Some e, dr) \<Rightarrow> discover_loop deadline (max now t) q rs (mal @ [(sender_host from_addr, e)])
     | (None, dr) \<Rightarrow> discover_loop deadline (max now t) q (if dr \<in> set rs then rs else rs @ [dr]) mal)"
proof -
  have "\<not> deadline \<le> max now t" using assms by linarith
  then show ?thesis by (auto simp: reply_eq Let_def simp del: max.bounded_iff split: prod.split option.split)
qed

definition answers :: "(int \<times> string \<times> bytes) list \<Rightarrow> Response list" where
  "answers ds = [snd (reply d). (t, d) \<leftarrow> ds, fst (reply d) = None]"

definition malformed_replies :: "(int \<times> string \<times> bytes) list \<Rightarrow> (string \<times> err) list" where
  "malformed_replies ds = [(sender_host (fst d), e). (t, d) \<leftarrow> ds, Some e \<leftarrow> [fst (reply d)]]"

lemma answers_simps [simp]:
  "answers [] = []"
  "reply d = (None, dr) \<Longrightarrow> answers ((t, d) # ds) = dr # answers ds"
  "reply d = (Some e, dr) \<Longrightarrow> answers ((t, d) # ds) = answers ds"
  by (simp_all add: answers_def)

lemma malformed_simps [simp]:
  "malformed_replies [] = []"
  "reply d = (None, dr) \<Longrightarrow> malformed_replies ((t, d) # ds) = malformed_replies ds"
  "reply d = (Some e, dr) \<Longrightarrow> malformed_replies ((t, d) # ds) = (sender_host (fst d), e) # malformed_replies ds"
  by (simp_all add: malformed_replies_def)

definition arrivals :: "(int \<times> string \<times> bytes) list \<Rightarrow> datagram list" where
  "arrivals ds = map (\<lambda>(t, d). (t, Inr d)) ds"

lemma discover_loop_collects:
  assumes "\<forall>(t, d) \<in> set ds. t < deadline" and "now < deadline" and "distinct rs"
  shows "\<exists>rs'. discover_loop deadline now (arrivals ds) rs mal = Some
      \<lparr>dc_Responses = rs', dc_Error = None, dc_Malformed = mal @ malformed_replies ds\<rparr>
    \<and> distinct rs' \<and> set rs' = set rs \<union> set (answers ds)"
  using assms
proof (induction ds arbitrary: now rs mal)
  case Nil
  then show ?case by (simp add: arrivals_def)
next
  case (Cons x ds)
  obtain t from_addr bs where x: "x = (t, from_addr, bs)" by (cases x)
  obtain e dr where r: "reply (from_addr, bs) = (e, dr)" by fastforce
  have now: "max now t < deadline" and ds: "\<forall>(t, d) \<in> set ds. t < deadline"
    using Cons.prems(1,2) by (auto simp: x)
  show ?case
  proof (cases e)
    case None
    let ?rs = "if dr \<in> set rs then rs else rs @ [dr]"
    have "distinct ?rs" and set: "set ?rs = insert dr (set rs)" using Cons.prems(3) by auto
    from Cons.IH [OF ds now this(1), of mal] show ?thesis
      using now r by (simp add: discover_loop_reply x arrivals_def set None del: discover_loop.simps)
  next
    case (Some y)
    from Cons.IH [OF ds now Cons.prems(3), of "mal @ [(sender_host from_addr, y)]"] show ?thesis
      using now r by (simp add: discover_loop_reply x arrivals_def Some del: discover_loop.simps)
  qed
qed

subsection \<open>Properties of discovery\<close>

text \<open>
  C31: Discovery over a working socket returns without an error exactly the distinct servers
  that answered well before the deadline: each one once, whatever else arrived; a reply that
  cannot be decoded is reported with its sender and hides nobody.
\<close>

theorem discovery_collects:
  assumes "getBroadcastAddresses interfaces = Some (ips, None)"
    and "us_ListenError sock = None" and "send_requests sock (discover_request receivePort) ips = None"
    and "us_DeadlineError sock = None"
    and "us_Datagrams sock = arrivals ds" and "\<forall>(t, d) \<in> set ds. t < now + timeout" and "0 < timeout"
  shows "\<exists>rs. Discover receivePort timeout interfaces sock now = Some
      \<lparr>dc_Responses = rs, dc_Error = None, dc_Malformed = malformed_replies ds\<rparr>
    \<and> distinct rs \<and> set rs = set (answers ds)"
  using discover_loop_collects [of ds "now + timeout" now "[]" "[]"] assms
  by (simp add: Discover_def)

definition demo_reply :: bytes where
  "demo_reply = [36, 0, 0, 0, 1, 0, 0, 0] @ to_bytes ''lab, QTM 2023.1, 12 cameras'' @ [0x56, 0xce]"

definition demo_datagrams :: "(int \<times> string \<times> bytes) list" where
  "demo_datagrams = [(3, ''10.0.0.9:22226'', demo_reply), (4, ''10.0.0.7:22226'', [1, 2]),
       (5, ''10.0.0.9:22226'', demo_reply)]"

definition demo_socket :: udp_socket where
  "demo_socket = \<lparr>us_ListenError = None, us_ResolveError = (\<lambda>a. None), us_WriteError = (\<lambda>a d. None),
     us_DeadlineError = None, us_Datagrams = arrivals demo_datagrams\<rparr>"

definition demo_interfaces :: "err + net_interface list" where
  "demo_interfaces = Inr [\<lparr>if_Flags = FlagUp, if_Addrs = Inr [IPNet [10, 0, 0, 5] [255, 255, 255, 0]]\<rparr>]"

theorem discovery_collects_witness:
  "\<exists>rs. Discover 4545 100 demo_interfaces demo_socket 0 = Some
      \<lparr>dc_Responses = rs, dc_Error = None,
       dc_Malformed = [(''10.0.0.7'', Errorf ''too little data to UnmarshalBinary from'' [])]\<rparr>
    \<and> distinct rs \<and> set rs = set [\<lparr>rs_Address = ''10.0.0.9'', rs_Hostname = ''lab'', rs_QtmVersion = ''QTM 2023.1'',
        rs_Cameras = 12, rs_BasePort = 22222\<rparr>]"
proof -
  have b: "getBroadcastAddresses demo_interfaces = Some ([''10.0.0.255''], None)" by code_simp
  have s: "send_requests demo_socket (discover_request 4545) [''10.0.0.255''] = None"
    by (simp add: demo_socket_def)
  have r1: "reply (''10.0.0.9:22226'', demo_reply) = (None, \<lparr>rs_Address = ''10.0.0.9'', rs_Hostname = ''lab'',
      rs_QtmVersion = ''QTM 2023.1'', rs_Cameras = 12, rs_BasePort = 22222\<rparr>)"
    by code_simp
  have r2: "reply (''10.0.0.7:22226'', [1, 2]) =
      (Some (Errorf ''too little data to UnmarshalBinary from'' []), zero_Response ''10.0.0.7'')"
    by code_simp
  have h: "sender_host ''10.0.0.7:22226'' = ''10.0.0.7''" by code_simp
  note m = demo_datagrams_def r1 r2 h
  have t: "\<forall>(t, d) \<in> set demo_datagrams. t < 0 + 100" by (simp add: demo_datagrams_def)
  show ?thesis
    using discovery_collects [OF b _ s _ _ t] by (simp add: demo_socket_def m)
qed

text \<open>
  C32: The reply format round trips: the host name, the QTM version, the camera count and the
  base port a server announces are the ones the client reads, whatever the first eight bytes.
\<close>

theorem reply_roundtrip:
  assumes "trimmed host" and "CHR '','' \<notin> set host" and "trimmed ver" and "CHR '','' \<notin> set ver"
    and "- (2 ^ 63) \<le> n" and "n < 2 ^ 63" and "length header = 8"
  shows "Response_UnmarshalBinary dr
      (header @ to_bytes (host @ '', '' @ ver @ '', '' @ Itoa n @ '' cameras'') @ PutUint16 BigEndian port) =
    Some (None, dr\<lparr>rs_Hostname := host, rs_QtmVersion := ver, rs_Cameras := n, rs_BasePort := uint port\<rparr>)"
proof -
  let ?info = "host @ '', '' @ ver @ '', '' @ Itoa n @ '' cameras''"
  let ?data = "header @ to_bytes ?info @ PutUint16 BigEndian port"
  have no: "CHR '','' \<notin> set (Itoa n)" "CHR '' '' \<notin> set (Itoa n)"
    by (intro Itoa_no_sep; simp add: is_digit_def)+
  have split: "Split ?info CHR '','' = [host, CHR '' '' # ver, CHR '' '' # Itoa n @ '' cameras'']"
    using Split_append [of "CHR '',''" host] Split_append [of "CHR '',''" "CHR '' '' # ver"]
      Split_single [of "CHR '',''" "CHR '' '' # Itoa n @ '' cameras''"] assms(2,4) no(1) by simp
  have "trimmed (Itoa n @ '' '' @ ''cameras'')"
    by (intro trimmed_append Itoa_trimmed) (simp_all add: trimmed_def visible_def)
  then have trim: "splitAndTrimStrings ?info CHR '','' = [host, ver, Itoa n @ '' cameras'']"
    using assms(1,3) unfolding splitAndTrimStrings_def split by (simp add: TrimSpace_trimmed TrimSpace_blank)
  have cams: "Atoi (hd (Split (Itoa n @ '' cameras'') CHR '' '')) = Some n"
    using Split_append [OF no(2), of "''cameras''"] assms(5,6) by (simp add: Atoi_Itoa)
  have len: "6 \<le> length (to_bytes ?info)" "length (PutUint16 BigEndian port) = 2" by simp_all
  show ?thesis
    unfolding Response_UnmarshalBinary_info [OF assms(7) len] to_string_to_bytes trim
    by (simp add: cams)
qed

theorem reply_roundtrip_witness:
  "Response_UnmarshalBinary (zero_Response ''10.0.0.9'')
      ([36, 0, 0, 0, 1, 0, 0, 0] @ to_bytes (''lab'' @ '', '' @ ''QTM 2023.1'' @ '', '' @ Itoa 12 @ '' cameras'')
        @ PutUint16 BigEndian 22222) =
    Some (None, (zero_Response ''10.0.0.9'')\<lparr>rs_Hostname := ''lab'', rs_QtmVersion := ''QTM 2023.1'',
      rs_Cameras := 12, rs_BasePort := uint (22222 :: u16)\<rparr>)"
  by (rule reply_roundtrip) (simp_all add: trimmed_def visible_def)

text \<open>
  C33: The broadcast address of an IPv4 subnet: every bit of the network part is the bit of the
  interface's address and every bit of the host part is one, octet by octet, whether the address
  has four bytes or, as \<open>net.Interfaces\<close> gives it, the sixteen bytes of an IPv4-mapped one (the mask
  has four); and an interface that is up, with that address, gives its text as the one address to
  send to, unless the address is a loopback one, which gives none.
\<close>

theorem broadcast_address:
  assumes "length ip4 = 4" and "length m = 4" and "ip \<in> {ip4, replicate 10 0 @ [255, 255] @ ip4}"
  shows "\<exists>b. combineIPAndMask ip m = Some (Inr b) \<and> length b = 4 \<and>
    (\<forall>i < 4. b ! i AND m ! i = ip4 ! i AND m ! i \<and> b ! i OR m ! i = - 1) \<and>
    getBroadcastAddresses (Inr [\<lparr>if_Flags = FlagUp, if_Addrs = Inr [IPNet ip m]\<rparr>])
      = Some (if ip4 ! 0 = 127 then [] else [IP_String b], None)"
proof -
  have to4: "To4 ip = Some ip4" "To4 m = Some m" using assms by (auto simp: To4_def)
  have hd: "hd ip4 = ip4 ! 0" using assms(1) by (cases ip4) simp_all
  define b :: u32 where "b = le_word (rev ip4) OR NOT (le_word (rev m))"
  have c: "combineIPAndMask ip m = Some (Inr (PutUint32 BigEndian b))"
    using assms to4 by (simp add: combineIPAndMask_def get_word_def arrange_def b_def)
  moreover have "getBroadcastAddresses (Inr [\<lparr>if_Flags = FlagUp, if_Addrs = Inr [IPNet ip m]\<rparr>])
      = Some (if ip4 ! 0 = 127 then [] else [IP_String (PutUint32 BigEndian b)], None)"
    using c to4 hd assms(1,3) by (auto simp: getBroadcastAddresses_def addr_ip_def IsLoopback_def Let_def)
  moreover have "PutUint32 BigEndian b ! i = ip4 ! i OR NOT (m ! i)" if "i < 4" for i
  proof (rule bit_word_eqI)
    fix n assume "n < LENGTH(8)"
    then have "8 * (3 - i) + n < 32" by simp
    with that \<open>n < LENGTH(8)\<close> assms show "bit (PutUint32 BigEndian b ! i) n = bit (ip4 ! i OR NOT (m ! i)) n"
      by (simp add: octet_of_word b_def bit_simps octet_in_word)
  qed
  moreover have "(x OR NOT y) AND y = x AND y" "(x OR NOT y) OR y = - 1" for x y :: u8
    by (rule bit_word_eqI; auto simp: bit_simps)+
  ultimately show ?thesis by simp
qed

theorem broadcast_address_witness:
  "\<exists>b. combineIPAndMask [0, 0, 0, 0, 0, 0, 0, 0, 0, 0, 255, 255, 192, 168, 1, 20] [255, 255, 255, 0] = Some (Inr b) \<and> length b = 4 \<and>
    (\<forall>i < 4. b ! i AND [255, 255, 255, 0] ! i = [192, 168, 1, 20] ! i AND [255, 255, 255, 0] ! i
       \<and> b ! i OR [255, 255, 255, 0] ! i = - 1) \<and>
    getBroadcastAddresses (Inr [\<lparr>if_Flags = FlagUp, if_Addrs =
        Inr [IPNet [0, 0, 0, 0, 0, 0, 0, 0, 0, 0, 255, 255, 192, 168, 1, 20] [255, 255, 255, 0]]\<rparr>])
      = Some (if [192, 168, 1, 20 :: u8] ! 0 = 127 then [] else [IP_String b], None)"
  by (rule broadcast_address) (simp_all add: numeral_eq_Suc)

text \<open>
  An interface address that is not a subnet (\<open>*net.IPAddr\<close>) is accepted by the type switch
  and then crashes the process: the assertion \<open>addr.(*net.IPNet)\<close> is unchecked. A subnet with
  an IPv4 mask never does.
\<close>

theorem address_without_mask_panics:
  "getBroadcastAddresses (Inr [\<lparr>if_Flags = FlagUp, if_Addrs = Inr [a]\<rparr>]) = None \<longleftrightarrow>
    \<not> IsLoopback (addr_ip a) \<and> To4 (addr_ip a) \<noteq> None \<and>
    (case a of IPNet ip m \<Rightarrow> To4 m = None | _ \<Rightarrow> True)"
proof -
  have len: "length x = 4" if "To4 ip = Some x" for ip x
    using that by (auto simp: To4_def split: if_splits)
  have none: "addr_ip a \<noteq> []" if "To4 (addr_ip a) \<noteq> None"
    using that by (auto simp: To4_def)
  show ?thesis
  proof (cases "a")
    case (IPNet ip m)
    then show ?thesis
      using none len by (auto simp: getBroadcastAddresses_def addr_ip_def combineIPAndMask_def Let_def get_word_def
          split: option.splits bind_splits sum.splits)
  next
    case (IPAddr ip)
    then show ?thesis using none by (auto simp: getBroadcastAddresses_def addr_ip_def Let_def)
  next
    case OtherAddr
    then show ?thesis by (auto simp: getBroadcastAddresses_def addr_ip_def To4_def Let_def)
  qed
qed

end
