(* ===== verification/Printing.thy ===== *)
theory Printing
  imports Data_Packet Stringer
begin

text \<open>
  The \<open>String\<close> methods of the packet structs, which is what the programs print of a frame. They
  are calls of \<open>fmt.Sprintf\<close> with the verbs \<open>%v\<close>, \<open>%d\<close>, \<open>%x\<close>, \<open>%s\<close> and \<open>%f\<close> and the flags \<open>#\<close>, zero
  and width; \<open>Sprintf\<close> interprets the code's format strings. \<open>%v\<close> calls the \<open>String\<close> method of an
  operand that has one, so such operands are already strings here, and prints a slice in
  brackets, its elements separated by blanks. The decimal text of a float32 is that of package
  \<open>strconv\<close> and is a parameter: \<open>float_text verb bits\<close>.
\<close>

subsection \<open>fmt.Sprintf\<close>

type_synonym float_text = "string \<Rightarrow> f32 \<Rightarrow> string"

datatype operand = N int | S string | F f32

abbreviation U :: "'a::len word \<Rightarrow> operand" where "U w \<equiv> N (uint w)"

definition hex_digit :: "nat \<Rightarrow> char" where
  "hex_digit n = ''0123456789abcdef'' ! n"

fun hex_digits :: "nat \<Rightarrow> string" where
  "hex_digits n = (if n < 16 then [hex_digit n] else hex_digits (n div 16) @ [hex_digit (n mod 16)])"

declare hex_digits.simps [simp del]

text \<open>\<open>fmtInteger\<close>: the zero flag fills up to the width after the sign and before the \<open>0x\<close>.\<close>

definition fmtInteger :: "string \<Rightarrow> char \<Rightarrow> int \<Rightarrow> string" where
  "fmtInteger spec verb i =
     (let sharp = (CHR ''#'' \<in> set spec);
          flags = filter (\<lambda>c. c \<noteq> CHR ''#'') spec;
          width = parse_digits flags;
          zero = (flags \<noteq> [] \<and> hd flags = CHR ''0'');
          body = (if verb = CHR ''x'' then hex_digits (nat \<bar>i\<bar>) else digits (nat \<bar>i\<bar>));
          body = (if zero then replicate (width - (if i < 0 then 1 else 0) - length body) CHR ''0'' @ body else body);
          text = (if i < 0 then ''-'' else '''') @ (if sharp \<and> verb = CHR ''x'' then ''0x'' else '''') @ body
      in if zero then text else replicate (width - length text) CHR '' '' @ text)"

fun format_operand :: "float_text \<Rightarrow> string \<Rightarrow> char \<Rightarrow> operand \<Rightarrow> string" where
  "format_operand float spec verb (N i) = fmtInteger spec verb i"
| "format_operand float spec verb (S s) = s"
| "format_operand float spec verb (F x) = float (spec @ [verb]) x"

definition is_verb :: "char \<Rightarrow> bool" where
  "is_verb c \<longleftrightarrow> c \<in> set ''vdsxf''"

function Sprintf :: "float_text \<Rightarrow> string \<Rightarrow> operand list \<Rightarrow> string" where
  "Sprintf float [] args = []"
| "Sprintf float (c # s) args =
     (if c \<noteq> CHR ''%'' then c # Sprintf float s args
      else case dropWhile (\<lambda>c. \<not> is_verb c) s of
        [] \<Rightarrow> []
      | verb # s' \<Rightarrow> (case args of
          [] \<Rightarrow> []
        | a # args' \<Rightarrow> format_operand float (takeWhile (\<lambda>c. \<not> is_verb c) s) verb a @ Sprintf float s' args'))"
  by pat_completeness auto
termination
proof (relation "measure (\<lambda>(float, s, args). length s)", goal_cases)
  case (3 float c s args verb s' a args')
  show ?case using length_dropWhile_le [of "\<lambda>c. \<not> is_verb c" s] unfolding 3(2) by simp
qed simp_all

text \<open>\<open>%v\<close> of a slice.\<close>

definition slice_text :: "string list \<Rightarrow> string" where
  "slice_text ss = ''['' @ Join ss '' '' @ '']''"

subsection \<open>Markers and bodies\<close>

definition Point_String :: "float_text \<Rightarrow> Point \<Rightarrow> string" where
  "Point_String float p = Sprintf float ''(%.3f, %.3f, %.3f)'' [F (pt_X p), F (pt_Y p), F (pt_Z p)]"

definition Marker_String :: "float_text \<Rightarrow> Marker \<Rightarrow> string" where
  "Marker_String float m = Sprintf float ''[id: %v x:%v y:%v z:%v r:%v]''
     [U (m_ID m), F (pt_X (m_Point m)), F (pt_Y (m_Point m)), F (pt_Z (m_Point m)), F (m_Residual m)]"

definition Component3D_String :: "float_text \<Rightarrow> Component3D \<Rightarrow> string" where
  "Component3D_String float c = Sprintf float ''Droprate: %v OutOfSyncRate: %v Markers: %v''
     [U (c3_Droprate c), U (c3_OutOfSyncRate c), S (slice_text (map (Marker_String float) (c3_Markers c)))]"

definition Marker2D_String :: "float_text \<Rightarrow> Marker2D \<Rightarrow> string" where
  "Marker2D_String float m = Sprintf float ''[x:%v y:%v dx:%v dy:%v]''
     [U (m2_X m), U (m2_Y m), U (m2_DiameterX m), U (m2_DiameterY m)]"

definition Camera_String :: "float_text \<Rightarrow> Camera \<Rightarrow> string" where
  "Camera_String float c = Sprintf float ''Status: %v Markers2D: %v''
     [U (cam_Status c), S (slice_text (map (Marker2D_String float) (cam_Markers c)))]"

definition Component2D_String :: "float_text \<Rightarrow> Component2D \<Rightarrow> string" where
  "Component2D_String float c = Sprintf float ''Droprate: %v OutOfSyncRate: %v Cameras: %v''
     [U (c2_Droprate c), U (c2_OutOfSyncRate c), S (slice_text (map (Camera_String float) (c2_Cameras c)))]"

definition BodyMatrix_String :: "float_text \<Rightarrow> BodyMatrix \<Rightarrow> string" where
  "BodyMatrix_String float b = Sprintf float ''x:%v y:%v z:%v r:%v [[%v %v %v][%v %v %v][%v %v %v]]''
     ([F (pt_X (bm_Point b)), F (pt_Y (bm_Point b)), F (pt_Z (bm_Point b)), F (bm_Residual b)]
      @ map (\<lambda>i. F (bm_Rotation b ! i)) [0, 1, 2, 3, 4, 5, 6, 7, 8])"

definition Component6D_String :: "float_text \<Rightarrow> Component6D \<Rightarrow> string" where
  "Component6D_String float c = Sprintf float (''Droprate: %v OutOfSyncRate: %v Bodies: %v'' @ [CHR 0x0A])
     [U (c6_Droprate c), U (c6_OutOfSyncRate c), S (slice_text (map (BodyMatrix_String float) (c6_Bodies c)))]"

definition BodyEuler_String :: "float_text \<Rightarrow> BodyEuler \<Rightarrow> string" where
  "BodyEuler_String float b = Sprintf float ''x:%v y:%v z:%v r:%v [%v %v %v]''
     ([F (pt_X (be_Point b)), F (pt_Y (be_Point b)), F (pt_Z (be_Point b)), F (be_Residual b)]
      @ map (\<lambda>i. F (be_Angles b ! i)) [0, 1, 2])"

definition Component6DEuler_String :: "float_text \<Rightarrow> Component6DEuler \<Rightarrow> string" where
  "Component6DEuler_String float c = Sprintf float (''Droprate: %v OutOfSyncRate: %v Bodies: %v'' @ [CHR 0x0A])
     [U (ce_Droprate c), U (ce_OutOfSyncRate c), S (slice_text (map (BodyEuler_String float) (ce_Bodies c)))]"

subsection \<open>Force plates, analog devices, gaze vectors, eye trackers, skeletons, images\<close>

definition ForceSample_String :: "float_text \<Rightarrow> ForceSample \<Rightarrow> string" where
  "ForceSample_String float f = Sprintf float
     (''[Force X: %v Y: %v Z: %v][Moment X: %v Y: %v Z: %v][CoP X: %v Y: %v Z: %v]'' @ [CHR 0x0A])
     [F (pt_X (fs_Force f)), F (pt_Y (fs_Force f)), F (pt_Z (fs_Force f)),
      F (pt_X (fs_Moment f)), F (pt_Y (fs_Moment f)), F (pt_Z (fs_Moment f)),
      F (pt_X (fs_CenterOfPressure f)), F (pt_Y (fs_CenterOfPressure f)), F (pt_Z (fs_CenterOfPressure f))]"

definition ForcePlate_String :: "float_text \<Rightarrow> ForcePlate \<Rightarrow> string" where
  "ForcePlate_String float f = Sprintf float (''[id: %v nr: %v samples: %v]'' @ [CHR 0x0A])
     [U (fp_ID f), U (fp_Number f), S (slice_text (map (ForceSample_String float) (fp_Samples f)))]"

definition ComponentForce_String :: "float_text \<Rightarrow> ComponentForce \<Rightarrow> string" where
  "ComponentForce_String float c = concat (map (ForcePlate_String float) (cf_ForcePlates c))"

definition AnalogSample_String :: "float_text \<Rightarrow> AnalogSample \<Rightarrow> string" where
  "AnalogSample_String float s = Sprintf float ''[%v]'' [F (as_Value s)]"

definition AnalogChannel_String :: "float_text \<Rightarrow> AnalogChannel \<Rightarrow> string" where
  "AnalogChannel_String float c = Sprintf float ''[Ch: %v]''
     [S (slice_text (map (AnalogSample_String float) (ac_Samples c)))]"

definition AnalogDevice_String :: "float_text \<Rightarrow> AnalogDevice \<Rightarrow> string" where
  "AnalogDevice_String float d = Sprintf float (''[id: %v samplenumber: %v channels: %v]'' @ [CHR 0x0A])
     [U (ad_ID d), U (ad_SampleNumber d), S (slice_text (map (AnalogChannel_String float) (ad_Channels d)))]"

definition ComponentAnalog_String :: "float_text \<Rightarrow> ComponentAnalog \<Rightarrow> string" where
  "ComponentAnalog_String float c = concat (map (AnalogDevice_String float) (ca_AnalogDevices c))"

definition GazeVectorSample_String :: "float_text \<Rightarrow> GazeVectorSample \<Rightarrow> string" where
  "GazeVectorSample_String float m = Sprintf float ''[x:%v y:%v z:%v px:%v py:%v pz:%v]''
     [F (gs_X m), F (gs_Y m), F (gs_Z m), F (gs_PositionX m), F (gs_PositionY m), F (gs_PositionZ m)]"

definition GazeVector_String :: "float_text \<Rightarrow> GazeVector \<Rightarrow> string" where
  "GazeVector_String float g = Sprintf float ''[samplenumber: %v samples: %v]''
     [U (gv_SampleNumber g), S (slice_text (map (GazeVectorSample_String float) (gv_Samples g)))]"

definition ComponentGazeVector_String :: "float_text \<Rightarrow> ComponentGazeVector \<Rightarrow> string" where
  "ComponentGazeVector_String float c = Sprintf float ''GazeVectors: %v''
     [S (slice_text (map (GazeVector_String float) (cg_GazeVectors c)))]"

definition EyeTrackerSample_String :: "float_text \<Rightarrow> EyeTrackerSample \<Rightarrow> string" where
  "EyeTrackerSample_String float m = Sprintf float ''[left:%v right:%v]''
     [F (es_LeftPupilDiameter m), F (es_RightPupilDiameter m)]"

definition EyeTracker_String :: "float_text \<Rightarrow> EyeTracker \<Rightarrow> string" where
  "EyeTracker_String float e = Sprintf float ''[samplenumber: %v samples: %v]''
     [U (et_SampleNumber e), S (slice_text (map (EyeTrackerSample_String float) (et_Samples e)))]"

definition ComponentEyeTracker_String :: "float_text \<Rightarrow> ComponentEyeTracker \<Rightarrow> string" where
  "ComponentEyeTracker_String float c = Sprintf float ''Eyetrackers: %v''
     [S (slice_text (map (EyeTracker_String float) (ct_EyeTrackers c)))]"

definition Segment_String :: "float_text \<Rightarrow> Segment \<Rightarrow> string" where
  "Segment_String float s = Sprintf float ''[id: %v x: %v y: %v z: %v rx:%v ry:%v rz:%v rw:%v]''
     [U (sg_ID s), F (pt_X (sg_Position s)), F (pt_Y (sg_Position s)), F (pt_Z (sg_Position s)),
      F (rot_X (sg_Rotation s)), F (rot_Y (sg_Rotation s)), F (rot_Z (sg_Rotation s)), F (rot_W (sg_Rotation s))]"

definition Skeleton_String :: "float_text \<Rightarrow> Skeleton \<Rightarrow> string" where
  "Skeleton_String float s = slice_text (map (Segment_String float) (sk_Segments s))"

definition ComponentSkeleton_String :: "float_text \<Rightarrow> ComponentSkeleton \<Rightarrow> string" where
  "ComponentSkeleton_String float c = Sprintf float ''Skeletons: %v''
     [S (slice_text (map (Skeleton_String float) (cs_Skeletons c)))]"

text \<open>The name of an image format is looked up in its table, out of range of which is a panic.\<close>

definition Image_String :: "float_text \<Rightarrow> Image \<Rightarrow> string option" where
  "Image_String float c = do {
     format \<leftarrow> ImageFormatType_String (im_Format c);
     Some (Sprintf float
       ''[id: %v format: %v width: %v height: %v left: %v top: %v right: %v bottom: %v size: %v data: %d bytes]''
       [U (im_ID c), S format, U (im_Width c), U (im_Height c), F (im_LeftCrop c), F (im_TopCrop c),
        F (im_RightCrop c), F (im_BottomCrop c), U (im_Size c), N (int (length (im_Data c)))])
   }"

definition ComponentImage_String :: "float_text \<Rightarrow> ComponentImage \<Rightarrow> string option" where
  "ComponentImage_String float c = map_option slice_text (those (map (Image_String float) (ci_Images c)))"

subsection \<open>Time codes\<close>

definition IrigTime_String :: "float_text \<Rightarrow> IrigTime \<Rightarrow> string" where
  "IrigTime_String float i = Sprintf float ''%02d:%03d:%02d:%02d:%02d.%d''
     [U (irig_Year i), U (irig_Day i), U (irig_Hour i), U (irig_Minute i), U (irig_Second i), U (irig_Tenth i)]"

definition SmpteTime_String :: "float_text \<Rightarrow> SmpteTime \<Rightarrow> string" where
  "SmpteTime_String float i = Sprintf float ''%02d:%02d:%02d:%02d''
     [U (smpte_Hour i), U (smpte_Minute i), U (smpte_Second i), U (smpte_Frame i)]"

abbreviation ticksPerSecond :: CameraTime where "ticksPerSecond \<equiv> 10000000"

definition CameraTime_String :: "float_text \<Rightarrow> CameraTime \<Rightarrow> string" where
  "CameraTime_String float i =
     (let seconds = i div ticksPerSecond;
          nanoseconds = (i mod ticksPerSecond) * (1000000000 div ticksPerSecond)
      in Sprintf float ''%v.%09v'' [U seconds, U nanoseconds])"

definition Timecode_String :: "float_text \<Rightarrow> Timecode \<Rightarrow> string" where
  "Timecode_String float c =
     (if tc_Type c = 1 then IrigTime_String float (tc_Irig c)
      else if tc_Type c = 0 then SmpteTime_String float (tc_Smpte c)
      else if tc_Type c = 2 then CameraTime_String float (tc_CameraTime c)
      else Sprintf float ''unknown timecode type %d (%#08x %#08x)'' [U (tc_Type c), U (tc_High c), U (tc_Low c)])"

definition ComponentTimecode_String :: "float_text \<Rightarrow> ComponentTimecode \<Rightarrow> string" where
  "ComponentTimecode_String float c = Sprintf float ''Timecodes: %v''
     [S (slice_text (map (Timecode_String float) (ctc_Timecodes c)))]"

text \<open>
  \<open>NormalizedSubFrame\<close>: the numbers it divides as \<open>float64\<close>, \<open>None\<close> for the early return of 0.
  The integer division before it would panic on a zero frequency.
\<close>

definition NormalizedSubFrame :: "SmpteTime \<Rightarrow> u32 \<Rightarrow> u32 \<Rightarrow> (u32 \<times> u32) option" where
  "NormalizedSubFrame i captureFrequency timestampFrequency =
     (if captureFrequency = 0 \<or> timestampFrequency = 0 \<or> captureFrequency < timestampFrequency then None
      else Some (smpte_SubFrame i, captureFrequency div timestampFrequency))"

subsection \<open>Components\<close>

definition UnknownComponent_String :: "float_text \<Rightarrow> int \<Rightarrow> bytes \<Rightarrow> string" where
  "UnknownComponent_String float t data = Sprintf float ''UnknownComponent{type: %d, %d bytes}''
     [N t, N (int (length data))]"

fun IDataObject_String :: "float_text \<Rightarrow> IDataObject \<Rightarrow> string option" where
  "IDataObject_String float (Obj3D c) = Some (Component3D_String float c)"
| "IDataObject_String float (Obj3DResidual c) = Some (Component3D_String float c)"
| "IDataObject_String float (Obj3DNoLabels c) = Some (Component3D_String float c)"
| "IDataObject_String float (Obj3DNoLabelsResidual c) = Some (Component3D_String float c)"
| "IDataObject_String float (Obj6D c) = Some (Component6D_String float c)"
| "IDataObject_String float (Obj6DEuler c) = Some (Component6DEuler_String float c)"
| "IDataObject_String float (Obj6DResidual c) = Some (Component6D_String float c)"
| "IDataObject_String float (Obj6DEulerResidual c) = Some (Component6DEuler_String float c)"
| "IDataObject_String float (Obj2D c) = Some (Component2D_String float c)"
| "IDataObject_String float (Obj2DLinearized c) = Some (Component2D_String float c)"
| "IDataObject_String float (ObjAnalog c) = Some (ComponentAnalog_String float c)"
| "IDataObject_String float (ObjAnalogSingle c) = Some (ComponentAnalog_String float c)"
| "IDataObject_String float (ObjForce c) = Some (ComponentForce_String float c)"
| "IDataObject_String float (ObjForceSingle c) = Some (ComponentForce_String float c)"
| "IDataObject_String float (ObjImage c) = ComponentImage_String float c"
| "IDataObject_String float (ObjGazeVector c) = Some (ComponentGazeVector_String float c)"
| "IDataObject_String float (ObjTimecode c) = Some (ComponentTimecode_String float c)"
| "IDataObject_String float (ObjSkeleton c) = Some (ComponentSkeleton_String float c)"
| "IDataObject_String float (ObjEyeTracker c) = Some (ComponentEyeTracker_String float c)"
| "IDataObject_String float (ObjUnknown t data) = Some (UnknownComponent_String float t data)"

subsection \<open>What is printed of a time\<close>

lemma parse_digits_zeros: "parse_digits (replicate k CHR ''0'' @ s) = parse_digits s"
  by (induction k) (simp_all add: parse_digits_def digit_val_def)

lemma zero_digit: "is_digit CHR ''0''"
  by (simp add: is_digit_def)

text \<open>A number printed with \<open>%v\<close>, \<open>%d\<close> or with the zero flag: its digits behind zeros.\<close>

lemma fmtInteger_number:
  assumes "spec = '''' \<or> (hd spec = CHR ''0'' \<and> list_all is_digit spec)" and "verb \<noteq> CHR ''x''"
  shows "fmtInteger spec verb (uint w) = replicate (parse_digits spec - length (digits (unat w))) CHR ''0'' @ digits (unat w)"
proof -
  have spec: "filter (\<lambda>c. c \<noteq> CHR ''#'') spec = spec" "CHR ''#'' \<notin> set spec"
    using assms(1) by (auto simp: filter_id_conv list_all_iff is_digit_def)
  have w: "nat \<bar>uint w\<bar> = unat w" "\<not> uint w < 0" by simp_all
  note def = fmtInteger_def [of spec verb "uint w", unfolded Let_def spec w if_not_P [OF assms(2)]]
  show ?thesis
  proof (cases "spec = ''''")
    case True
    then show ?thesis using w assms(2) by (simp add: fmtInteger_def parse_digits_def)
  next
    case False
    with assms(1) have "hd spec = CHR ''0''" by simp
    with False w spec assms(2) show ?thesis by (simp add: def)
  qed
qed

lemma fmtInteger_digits:
  assumes "spec = '''' \<or> (hd spec = CHR ''0'' \<and> list_all is_digit spec)" and "verb \<noteq> CHR ''x''"
  shows "parse_digits (fmtInteger spec verb (uint w)) = unat w"
    and "list_all is_digit (fmtInteger spec verb (uint w))"
    and "parse_digits spec \<le> length (fmtInteger spec verb (uint w))"
proof -
  show "list_all is_digit (fmtInteger spec verb (uint w))"
    unfolding fmtInteger_number [OF assms] using digits_all zero_digit by (auto simp: list_all_iff)
qed (simp_all add: fmtInteger_number [OF assms] parse_digits_zeros)

lemma not_in_digits: "list_all is_digit s \<Longrightarrow> \<not> is_digit c \<Longrightarrow> c \<notin> set s"
  by (auto simp: list_all_iff)

text \<open>The numbers of a text that are separated by colons and points.\<close>

definition numbers_in :: "string \<Rightarrow> nat list" where
  "numbers_in s = map parse_digits (concat (map (\<lambda>p. Split p CHR ''.'') (Split s CHR '':'')))"

abbreviation dec :: "string \<Rightarrow> 'a::len word \<Rightarrow> string" where
  "dec spec w \<equiv> fmtInteger spec CHR ''d'' (uint w)"

lemma dec_spec:
  "list_all is_digit (dec ''02'' w)" "list_all is_digit (dec ''03'' w)" "list_all is_digit (dec '''' w)"
  "parse_digits (dec ''02'' w) = unat w" "parse_digits (dec ''03'' w) = unat w" "parse_digits (dec '''' w) = unat w"
  by (rule fmtInteger_digits; simp add: is_digit_def)+

lemma dec_no_sep:
  "CHR '':'' \<notin> set (dec ''02'' w)" "CHR ''.'' \<notin> set (dec ''02'' w)"
  "CHR '':'' \<notin> set (dec ''03'' w)" "CHR ''.'' \<notin> set (dec ''03'' w)"
  "CHR '':'' \<notin> set (dec '''' w)" "CHR ''.'' \<notin> set (dec '''' w)"
  by (rule not_in_digits, rule dec_spec, simp add: is_digit_def)+

lemma SmpteTime_text: "SmpteTime_String float i = dec ''02'' (smpte_Hour i) @ '':'' @ dec ''02'' (smpte_Minute i)
    @ '':'' @ dec ''02'' (smpte_Second i) @ '':'' @ dec ''02'' (smpte_Frame i)"
  by (simp add: SmpteTime_String_def is_verb_def)

lemma IrigTime_text: "IrigTime_String float i = dec ''02'' (irig_Year i) @ '':'' @ dec ''03'' (irig_Day i)
    @ '':'' @ dec ''02'' (irig_Hour i) @ '':'' @ dec ''02'' (irig_Minute i) @ '':'' @ dec ''02'' (irig_Second i)
    @ ''.'' @ dec '''' (irig_Tenth i)"
  by (simp add: IrigTime_String_def is_verb_def)

lemma SmpteTime_numbers:
  "numbers_in (SmpteTime_String float i)
    = map unat [smpte_Hour i, smpte_Minute i, smpte_Second i, smpte_Frame i]"
  by (simp add: numbers_in_def SmpteTime_text Split_append Split_single dec_no_sep dec_spec)

lemma IrigTime_numbers:
  "numbers_in (IrigTime_String float i)
    = map unat [irig_Year i, irig_Day i, irig_Hour i, irig_Minute i, irig_Second i, irig_Tenth i]"
  by (simp add: numbers_in_def IrigTime_text Split_append Split_single dec_no_sep dec_spec)

text \<open>The ticks of a camera time, as seconds and nanoseconds.\<close>

lemma CameraTime_parts:
  "unat (i div ticksPerSecond :: CameraTime) = unat i div 10000000"
  "unat ((i mod ticksPerSecond) * (1000000000 div ticksPerSecond) :: CameraTime) = unat i mod 10000000 * 100"
proof -
  show "unat (i div ticksPerSecond) = unat i div 10000000" by (simp add: unat_div)
  have "(1000000000 div ticksPerSecond :: CameraTime) = 100" by (simp add: word_arith_nat_div)
  moreover have m: "unat (i mod ticksPerSecond) = unat i mod 10000000" by (simp add: unat_mod)
  moreover have "unat i mod 10000000 * 100 < 2 ^ LENGTH(64)"
  proof -
    have "unat i mod 10000000 < 10000000" by simp
    then show ?thesis by simp
  qed
  ultimately show "unat ((i mod ticksPerSecond) * (1000000000 div ticksPerSecond)) = unat i mod 10000000 * 100"
    by (simp add: unat_mult_lem [THEN iffD1])
qed

lemma digits_length: "n < 10 ^ k \<Longrightarrow> 0 < k \<Longrightarrow> length (digits n) \<le> k"
proof (induction k arbitrary: n)
  case (Suc k)
  show ?case
  proof (cases "n < 10")
    case False
    with Suc.prems have "n div 10 < 10 ^ k" "0 < k" by (auto intro!: gr0I)
    with Suc.IH [of "n div 10"] False show ?thesis by (subst digits.simps) simp
  qed (subst digits.simps, simp)
qed simp

lemma CameraTime_text:
  "CameraTime_String float i = digits (unat i div 10000000) @ ''.''
     @ replicate (9 - length (digits (unat i mod 10000000 * 100))) CHR ''0'' @ digits (unat i mod 10000000 * 100)"
  unfolding CameraTime_String_def Let_def CameraTime_parts [symmetric]
  by (simp add: is_verb_def fmtInteger_number is_digit_def parse_digits_def digit_val_def)

text \<open>
  C36: What is printed of a time code. From the text of an SMPTE time the hour, minute, second and
  frame can be read back, and its sub-frame is not printed: the text is the same for all of them.
  From the text of an IRIG time all its fields can be read back, and the text of a camera time is
  its exact number of seconds with nine decimals, for all of the \<open>2 ^ 64\<close> tick counts.
\<close>

theorem time_text_exact:
  "numbers_in (SmpteTime_String float smpte)
      = map unat [smpte_Hour smpte, smpte_Minute smpte, smpte_Second smpte, smpte_Frame smpte]
   \<and> SmpteTime_String float (smpte\<lparr>smpte_SubFrame := sub\<rparr>) = SmpteTime_String float smpte
   \<and> numbers_in (IrigTime_String float irig)
      = map unat [irig_Year irig, irig_Day irig, irig_Hour irig, irig_Minute irig, irig_Second irig, irig_Tenth irig]
   \<and> (\<exists>seconds fraction. CameraTime_String float ticks = seconds @ ''.'' @ fraction
        \<and> list_all is_digit (seconds @ fraction) \<and> length fraction = 9
        \<and> parse_digits seconds * 10 ^ 9 + parse_digits fraction = 100 * unat ticks)"
proof (intro conjI)
  define f where "f = unat ticks mod 10000000 * 100"
  define fraction where "fraction = replicate (9 - length (digits f)) CHR ''0'' @ digits f"
  have "unat ticks mod 10000000 < 10000000" by simp
  then have "f < 10 ^ 9" by (simp add: f_def)
  from digits_length [OF this] have "length fraction = 9" by (simp add: fraction_def)
  moreover have "list_all is_digit (digits (unat ticks div 10000000) @ fraction)"
    using digits_all zero_digit by (auto simp: fraction_def list_all_iff)
  moreover have "parse_digits (digits (unat ticks div 10000000)) * 10 ^ 9 + parse_digits fraction = 100 * unat ticks"
  proof -
    define q r where "q = unat ticks div 10000000" and "r = unat ticks mod 10000000"
    have "unat ticks = q * 10000000 + r" unfolding q_def r_def by simp
    moreover have "parse_digits fraction = r * 100" by (simp add: fraction_def parse_digits_zeros f_def r_def)
    ultimately show ?thesis unfolding q_def [symmetric] by simp
  qed
  ultimately show "\<exists>seconds fraction. CameraTime_String float ticks = seconds @ ''.'' @ fraction
        \<and> list_all is_digit (seconds @ fraction) \<and> length fraction = 9
        \<and> parse_digits seconds * 10 ^ 9 + parse_digits fraction = 100 * unat ticks"
    unfolding CameraTime_text f_def [symmetric] fraction_def [symmetric] by blast
qed (rule SmpteTime_numbers IrigTime_numbers | simp add: SmpteTime_text; fail)+

text \<open>The division of \<open>NormalizedSubFrame\<close> is by a positive number.\<close>

lemma NormalizedSubFrame_divisor:
  assumes "NormalizedSubFrame i capture timestamp = Some (n, d)"
  shows "0 < unat d \<and> unat d * unat timestamp \<le> unat capture"
proof -
  from assms have d: "d = capture div timestamp" and t: "timestamp \<noteq> 0" "timestamp \<le> capture"
    by (auto simp: NormalizedSubFrame_def split: if_splits)
  then have "0 < unat timestamp" "unat timestamp \<le> unat capture"
    by (simp_all add: word_le_nat_alt unat_gt_0)
  then show ?thesis by (simp add: d unat_div div_greater_zero_iff)
qed

subsection \<open>No print panics\<close>

lemma good_image_table: "good_table ''RawGreyscaleRawBGRJPGPNG'' [0, 12, 18, 21, 24]"
  by (simp add: good_table_def)

lemma Image_text_total: "\<exists>s. Image_String float c = Some s"
proof -
  obtain s where "ImageFormatType_String (im_Format c) = Some s"
    using stringer_total [OF good_image_table] unfolding ImageFormatType_String_def by blast
  then show ?thesis by (simp add: Image_String_def)
qed

lemma those_total: "(\<And>x. x \<in> set xs \<Longrightarrow> \<exists>y. x = Some y) \<Longrightarrow> \<exists>ys. those xs = Some ys"
  by (induction xs) fastforce+

lemma object_text_total: "\<exists>s. IDataObject_String float obj = Some s"
proof (cases obj)
  case (ObjImage c)
  have "\<exists>ys. those (map (Image_String float) (ci_Images c)) = Some ys"
    by (rule those_total) (use Image_text_total in auto)
  with ObjImage show ?thesis by (auto simp: ComponentImage_String_def)
qed simp_all

text \<open>Some texts.\<close>

lemma printing_samples:
  "Camera_String float \<lparr>cam_Markers = [\<lparr>m2_X = 1, m2_Y = 2, m2_DiameterX = 3, m2_DiameterY = 4\<rparr>], cam_Status = 7\<rparr>
    = ''Status: 7 Markers2D: [[x:1 y:2 dx:3 dy:4]]''"
  "Sprintf float ''unknown timecode type %d (%#08x %#08x)'' [N 9, N 0xAB, N 0x1C]
    = ''unknown timecode type 9 (0x000000ab 0x0000001c)''"
  "CameraTime_String float 12345678901 = ''1234.567890100''"
proof -
  show "Camera_String float \<lparr>cam_Markers = [\<lparr>m2_X = 1, m2_Y = 2, m2_DiameterX = 3, m2_DiameterY = 4\<rparr>], cam_Status = 7\<rparr>
    = ''Status: 7 Markers2D: [[x:1 y:2 dx:3 dy:4]]''"
    by (simp add: Camera_String_def Marker2D_String_def slice_text_def is_verb_def fmtInteger_def digits.simps
        parse_digits_def) code_simp
  show "Sprintf float ''unknown timecode type %d (%#08x %#08x)'' [N 9, N 0xAB, N 0x1C]
    = ''unknown timecode type 9 (0x000000ab 0x0000001c)''"
    by (simp add: is_verb_def fmtInteger_def digits.simps hex_digits.simps hex_digit_def parse_digits_def
        digit_val_def) code_simp
  show "CameraTime_String float 12345678901 = ''1234.567890100''"
    by (simp add: CameraTime_text digits.simps) code_simp
qed

end
