(* ===== verification/Programs.thy ===== *)
theory Programs
  imports Client Polling Discover Printing
begin

text \<open>
  The programs under \<open>cmd/\<close>, which put the library together: \<open>cmd/discover\<close> lists the servers,
  \<open>cmd/streaming\<close> connects to one and prints its frames over TCP or UDP until it is
  interrupted, \<open>cmd/settings\<close> switches the image streams on and prints them. What they print is a
  list of lines; the messages about their own progress are left out. The receive loops run for
  ever when nothing ends them, so they are partial functions: \<open>None\<close> is a program that does not
  end.
\<close>

subsection \<open>Output\<close>

datatype log_line =
    LogEvent u8
  | LogComponent u32 IDataObject
  | LogUnknown u32 int
  | LogIgnored string err
  | LogNobody
  | LogResponse Response

text \<open>
  What the log shows for a line, without the time stamp of package \<open>log\<close>: the names of events
  and the \<open>String\<close> methods of the components (\<open>None\<close> would be a panic in one of them). The text
  of an error is a parameter.
\<close>

definition log_text :: "float_text \<Rightarrow> (err \<Rightarrow> string) \<Rightarrow> log_line \<Rightarrow> string option" where
  "log_text float error_text line = (case line of
       LogEvent e \<Rightarrow> map_option (\<lambda>s. ''Event: '' @ s) (EventType_String e)
     | LogComponent frame c \<Rightarrow> map_option (\<lambda>s. Sprintf float ''Frame %d: %v'' [U frame, S s]) (IDataObject_String float c)
     | LogUnknown frame t \<Rightarrow> Some (Sprintf float ''Frame %d: undecodable component type %d'' [U frame, N t])
     | LogIgnored addr e \<Rightarrow> Some (Sprintf float ''ignoring response from %s: %v'' [S addr, S (error_text e)])
     | LogNobody \<Rightarrow> Some ''No QTM instances responded''
     | LogResponse response \<Rightarrow> Some (Response_String response))"

lemma good_event_table:
  "good_table ''ConnectedConnectionClosedCaptureStartedCaptureStoppedCaptureFetchingFinishedCalibrationStartedCalibrationStoppedRtFromFileStartedRtFromFileStoppedWaitingForTriggerCameraSettingsChangedQTMShuttingDownCaptureSavedReprocessingStartedReprocessingStoppedTriggerNone''
     EventType_index"
  by (simp add: good_table_def EventType_index_def)

text \<open>No line makes a program panic while it is printed.\<close>

lemma log_text_total: "\<exists>s. log_text float error_text line = Some s"
proof (cases line)
  case (LogEvent e)
  obtain s where "EventType_String e = Some s"
    using stringer_total [OF good_event_table] unfolding EventType_String_def by blast
  with LogEvent show ?thesis by (simp add: log_text_def)
next
  case (LogComponent frame c)
  obtain s where "IDataObject_String float c = Some s" using object_text_total by blast
  with LogComponent show ?thesis by (simp add: log_text_def)
qed (simp_all add: log_text_def)

definition frame_lines :: "DataPacket \<Rightarrow> log_line list" where
  "frame_lines d = map (LogComponent (dp_Frame d)) (dp_Components d)
     @ map (LogUnknown (dp_Frame d)) (UnknownComponentTypes d)"

definition handlePacket :: "Packet \<Rightarrow> log_line list \<Rightarrow> bool \<times> log_line list" where
  "handlePacket p out =
     (if pk_Type p = PacketTypeEvent then
        (pk_Event p \<noteq> EventTypeQTMShuttingDown, out @ [LogEvent (pk_Event p)])
      else if pk_Type p = PacketTypeData then (True, out @ frame_lines (pk_Data p))
      else (True, out))"

subsection \<open>Finding a server\<close>

definition findQTM :: "err + net_interface list \<Rightarrow> udp_socket \<Rightarrow> (string \<times> int) option" where
  "findQTM interfaces sock = do {
     r \<leftarrow> Discover 4545 Second interfaces sock 0;
     Some (if dc_Error r \<noteq> None then (''127.0.0.1'', DefaultBasePort)
       else case dc_Responses r of
         [] \<Rightarrow> (''127.0.0.1'', DefaultBasePort)
       | response # _ \<Rightarrow> (rs_Address response, rs_BasePort response))
   }"

definition server_address :: "string \<Rightarrow> int \<Rightarrow> err + net_interface list \<Rightarrow> udp_socket \<Rightarrow> (string \<times> int) option" where
  "server_address addr basePort interfaces sock =
     (if addr = '''' then findQTM interfaces sock else Some (addr, basePort))"

definition discover_main :: "int \<Rightarrow> int \<Rightarrow> err + net_interface list \<Rightarrow> udp_socket \<Rightarrow> (log_line list \<times> err option) option" where
  "discover_main portFlag timeout interfaces sock = do {
     r \<leftarrow> Discover (word_of_int portFlag) timeout interfaces sock 0;
     let ignored = map (\<lambda>(addr, e). LogIgnored addr e) (dc_Malformed r);
     Some (case dc_Error r of
       Some e \<Rightarrow> (ignored, Some e)
     | None \<Rightarrow> (ignored @ (if dc_Responses r = [] then [LogNobody] else map LogResponse (dc_Responses r)), None))
   }"

subsection \<open>Streaming\<close>

type_synonym receiver = "Protocol \<Rightarrow> ((Packet \<times> err option) \<times> Protocol) option"

text \<open>The receive loop; the context is done from the time \<open>interrupt\<close> on.\<close>

partial_function (option) session_loop :: "receiver \<Rightarrow> int option \<Rightarrow> log_line list \<Rightarrow> Protocol \<Rightarrow>
    ((err option \<times> log_line list) \<times> Protocol) option" where
  "session_loop receive interrupt out rt =
     (if late interrupt (rt_now rt) then Some ((None, out), snd (StreamFramesStop rt))
      else Option.bind (receive rt) (\<lambda>((p, e), rt). case e of
          Some e \<Rightarrow> Some ((if errors_Is e ErrTruncated then None else Some e, out), rt)
        | None \<Rightarrow>
            if EndOfData p then session_loop receive interrupt out rt
            else case handlePacket p out of (goes_on, out) \<Rightarrow>
              if goes_on then session_loop receive interrupt out rt else Some ((None, out), rt)))"

record streaming_flags =
  sf_addr :: string
  sf_port :: int
  sf_udp :: bool
  sf_channels :: string

text \<open>Asking for the frames, over UDP or over the connection: the receiver to use, or the error.\<close>

definition start_streaming :: "(int \<Rightarrow> err + udp_conn) \<Rightarrow> streaming_flags \<Rightarrow> Protocol \<Rightarrow> (err + receiver) \<times> Protocol" where
  "start_streaming listenUDP flags rt =
     (let opts = zero_ComponentOptions\<lparr>co_AnalogChannels := sf_channels flags\<rparr>;
          components = [ComponentType6DEulerResidual]
      in if sf_udp flags then
           case EnableUDPStream listenUDP 0 rt of
             ((udpPort, Some e), rt) \<Rightarrow> (Inl e, rt)
           | ((udpPort, None), rt) \<Rightarrow> (case StreamFramesUDP StreamRateTypeAllFrames 0 udpPort '''' opts components rt of
               (Some e, rt) \<Rightarrow> (Inl e, rt)
             | (None, rt) \<Rightarrow> (Inr ReceiveUDP, rt))
         else case StreamFramesWithOptions StreamRateTypeAllFrames 0 opts components rt of
             (Some e, rt) \<Rightarrow> (Inl e, rt)
           | (None, rt) \<Rightarrow> (Inr Receive, rt))"

text \<open>\<open>run\<close> from a connected client on, without the deferred \<open>Disconnect\<close>.\<close>

definition streaming_session :: "(int \<Rightarrow> err + udp_conn) \<Rightarrow> int option \<Rightarrow> streaming_flags \<Rightarrow> Protocol \<Rightarrow>
    ((err option \<times> log_line list) \<times> Protocol) option" where
  "streaming_session listenUDP interrupt flags rt = do {
     (_, rt) \<leftarrow> GetQTMVersion rt;
     case start_streaming listenUDP flags rt of
       (Inl e, rt) \<Rightarrow> Some ((Some e, []), rt)
     | (Inr receive, rt) \<Rightarrow> session_loop receive interrupt [] rt
   }"

definition streaming_run :: "err + net_interface list \<Rightarrow> udp_socket \<Rightarrow> dialer \<Rightarrow> (int \<Rightarrow> err + udp_conn) \<Rightarrow> int option \<Rightarrow>
    streaming_flags \<Rightarrow> ((err option \<times> log_line list) \<times> Protocol) option" where
  "streaming_run interfaces sock dial listenUDP interrupt flags = do {
     (ip, basePort) \<leftarrow> server_address (sf_addr flags) (sf_port flags) interfaces sock;
     (e, rt) \<leftarrow> Connect dial (NewProtocol ip basePort []);
     (r, rt) \<leftarrow> (case e of
         Some e \<Rightarrow> Some ((Some e, []), rt)
       | None \<Rightarrow> streaming_session listenUDP interrupt flags rt);
     Some (r, Disconnect rt)
   }"

subsection \<open>Switching the images on\<close>

text \<open>\<open>strings.ReplaceAll\<close> on ASCII text.\<close>

function ReplaceAll :: "string \<Rightarrow> string \<Rightarrow> string \<Rightarrow> string" where
  "ReplaceAll s old new =
     (if old = '''' then new @ concat (map (\<lambda>c. c # new) s)
      else if s = '''' then ''''
      else if take (length old) s = old then new @ ReplaceAll (drop (length old) s) old new
      else hd s # ReplaceAll (tl s) old new)"
  by pat_completeness auto
termination
  by (relation "measure (\<lambda>(s, old, new). length s)") (auto simp: diff_less)

declare ReplaceAll.simps [simp del]

partial_function (option) image_loop :: "log_line list \<Rightarrow> Protocol \<Rightarrow> ((err \<times> log_line list) \<times> Protocol) option" where
  "image_loop out rt = Option.bind (Receive rt) (\<lambda>((p, e), rt). case e of
       Some e \<Rightarrow> Some ((e, out), rt)
     | None \<Rightarrow>
         if EndOfData p then image_loop out rt
         else image_loop (out @ map (LogComponent (dp_Frame (pk_Data p))) (dp_Components (pk_Data p))) rt)"

text \<open>The part of \<open>run\<close> that holds the control of QTM.\<close>

definition enable_images :: "string \<Rightarrow> Protocol \<Rightarrow> ((err \<times> log_line list) \<times> Protocol) option" where
  "enable_images xml rt = do {
     let inner = ReplaceAll (StripParametersElement xml rt) ''<Enabled>false</Enabled>'' ''<Enabled>true</Enabled>'';
     (e, rt) \<leftarrow> SetParameters inner rt;
     case e of
       Some e \<Rightarrow> Some ((e, []), rt)
     | None \<Rightarrow> (case StreamFramesAll [ComponentTypeImage] rt of
         (Some e, rt) \<Rightarrow> Some ((e, []), rt)
       | (None, rt) \<Rightarrow> image_loop [] rt)
   }"

definition settings_session :: "string \<Rightarrow> Protocol \<Rightarrow> ((err \<times> log_line list) \<times> Protocol) option" where
  "settings_session password rt = do {
     ((xml, e), rt) \<leftarrow> GetParameters [ParameterTypeImage] rt;
     case e of
       Some e \<Rightarrow> Some ((e, []), rt)
     | None \<Rightarrow> do {
         (e, rt) \<leftarrow> TakeControl password rt;
         case e of
           Some e \<Rightarrow> Some ((e, []), rt)
         | None \<Rightarrow> do {
             (r, rt) \<leftarrow> enable_images xml rt;
             (_, rt) \<leftarrow> ReleaseControl rt;
             Some (r, rt)
           }
       }
   }"

definition settings_run :: "err + net_interface list \<Rightarrow> udp_socket \<Rightarrow> dialer \<Rightarrow> string \<Rightarrow> int \<Rightarrow> string \<Rightarrow>
    ((err \<times> log_line list) \<times> Protocol) option" where
  "settings_run interfaces sock dial addr portFlag password = do {
     (ip, basePort) \<leftarrow> server_address addr portFlag interfaces sock;
     (e, rt) \<leftarrow> Connect dial (NewProtocol ip basePort []);
     (r, rt) \<leftarrow> (case e of
         Some e \<Rightarrow> Some ((e, []), rt)
       | None \<Rightarrow> settings_session password rt);
     Some (r, Disconnect rt)
   }"

subsection \<open>Nothing stays open\<close>

text \<open>
  What the programs receive from: \<open>left\<close> counts what the network still holds for the receiver,
  and each round takes something of it or lets time pass.
\<close>

locale packet_source =
  fixes receive :: receiver and left :: "Protocol \<Rightarrow> nat"
  assumes returns: "bounded_waits rt \<Longrightarrow> \<exists>r rt'. receive rt = Some (r, rt')"
    and keeps_waits: "receive rt = Some (r, rt') \<Longrightarrow> bounded_waits rt \<Longrightarrow> bounded_waits rt'"
    and keeps_ok: "receive rt = Some (r, rt') \<Longrightarrow> client_ok rt \<Longrightarrow> client_ok rt'"
    and progress: "receive rt = Some ((p, None), rt') \<Longrightarrow> bounded_waits rt \<Longrightarrow>
      left rt' \<le> left rt \<and> rt_now rt \<le> rt_now rt' \<and> (left rt' < left rt \<or> rt_now rt < rt_now rt')"
begin

lemma loop_ends:
  "bounded_waits rt \<Longrightarrow> \<exists>r rt'. session_loop receive (Some T) out rt = Some (r, rt')"
proof (induction "left rt + nat (T - rt_now rt)" arbitrary: rt out rule: less_induct)
  case less
  show ?case
  proof (cases "late (Some T) (rt_now rt)")
    case True
    then show ?thesis by (subst session_loop.simps) simp
  next
    case False
    then have T: "rt_now rt < T" by (simp add: late_def)
    from returns [OF less.prems] obtain p e rt1 where r: "receive rt = Some ((p, e), rt1)" by fastforce
    show ?thesis
    proof (cases e)
      case (Some x)
      with r False show ?thesis by (subst session_loop.simps) simp
    next
      case None
      with progress [of rt p rt1] r less.prems T have "left rt1 + nat (T - rt_now rt1) < left rt + nat (T - rt_now rt)"
        by fastforce
      from less.hyps [OF this keeps_waits [OF r less.prems]] r False None show ?thesis
        by (subst session_loop.simps) (auto split: prod.split)
    qed
  qed
qed

lemma loop_ok:
  assumes "session_loop receive interrupt out rt = Some (r, rt')" and "client_ok rt"
  shows "client_ok rt'"
proof -
  let ?P = "\<lambda>recv interrupt out rt (y :: (err option \<times> log_line list) \<times> Protocol).
    recv = receive \<longrightarrow> client_ok rt \<longrightarrow> client_ok (snd y)"
  have "?P receive interrupt out rt (r, rt')"
  proof (rule session_loop.raw_induct [where P = ?P, OF _ assms(1)], intro impI)
    fix loop recv interrupt out rt y
    assume IH: "\<And>recv interrupt out rt y. loop recv interrupt out rt = Some y \<Longrightarrow> ?P recv interrupt out rt y"
      and run: "(if late interrupt (rt_now rt) then Some ((None, out), snd (StreamFramesStop rt))
        else Option.bind (recv rt) (\<lambda>((p, e), rt). case e of
            Some e \<Rightarrow> Some ((if errors_Is e ErrTruncated then None else Some e, out), rt)
          | None \<Rightarrow>
              if EndOfData p then loop recv interrupt out rt
              else case handlePacket p out of (goes_on, out) \<Rightarrow>
                if goes_on then loop recv interrupt out rt else Some ((None, out), rt))) = Some y"
      and recv: "recv = receive" and ok: "client_ok rt"
    show "client_ok (snd y)"
    proof (cases "late interrupt (rt_now rt)")
      case True
      with run StreamFramesStop_ok [OF prod.collapse [symmetric] ok] show ?thesis by auto
    next
      case False
      with run obtain p e rt1 where r: "receive rt = Some ((p, e), rt1)"
        by (auto simp: recv bind_eq_Some_conv)
      have "loop receive interrupt out' rt1 = Some y \<Longrightarrow> client_ok (snd y)" for out'
        using IH keeps_ok [OF r ok] by blast
      with run False r keeps_ok [OF r ok] show ?thesis
        by (auto simp: recv split: option.splits if_splits prod.splits)
    qed
  qed
  with assms(2) show ?thesis by simp
qed

end

lemma ReceiveUDP_waits: "ReceiveUDP rt = Some (r, rt') \<Longrightarrow> bounded_waits rt \<Longrightarrow> bounded_waits rt'"
  by (drule ReceiveUDP_changes) (auto simp: bounded_waits_def)

interpretation tcp_source: packet_source Receive pending
proof
  show "\<exists>r rt'. Receive rt = Some (r, rt')" if "bounded_waits rt" for rt
    by (rule receive.returns [OF that])
  show "bounded_waits rt'" if "Receive rt = Some (r, rt')" "bounded_waits rt" for rt r rt'
    by (rule bounded_waits_config [OF ReceiveTimeout_config [OF that(1) [unfolded Receive_def]] that(2)])
  show "client_ok rt'" if "Receive rt = Some (r, rt')" "client_ok rt" for rt r rt'
    by (rule ReceiveTimeout_ok [OF that(1) [unfolded Receive_def] that(2)])
  show "pending rt' \<le> pending rt \<and> rt_now rt \<le> rt_now rt' \<and> (pending rt' < pending rt \<or> rt_now rt < rt_now rt')"
    if "Receive rt = Some ((p, None), rt')" "bounded_waits rt" for rt p rt'
    using ReceiveTimeout_progress [OF that(1) [unfolded Receive_def]] by auto
qed

text \<open>How many datagrams are still to come.\<close>

definition pending_udp :: "Protocol \<Rightarrow> nat" where
  "pending_udp rt = (case rt_udpConn rt of None \<Rightarrow> 0 | Some u \<Rightarrow> length (ud_inbox u))"

lemma udp_Read_progress:
  "udp_Read dl n now q = Some (bs, e, now', q') \<Longrightarrow> now \<le> now' \<and> length q' \<le> length q \<and>
    (length q' < length q \<or> (\<exists>d. dl = Some d \<and> d \<le> now'))"
  by (cases q) (auto simp: give_up_def late_def split: if_splits sum.splits option.splits)

interpretation udp_source: packet_source ReceiveUDP pending_udp
proof
  fix rt :: Protocol assume waits: "bounded_waits rt"
  from ReceiveUDP_returns [of rt] waits show "\<exists>r rt'. ReceiveUDP rt = Some (r, rt')"
    by (auto simp: bounded_waits_def)
next
  fix rt p rt' assume r: "ReceiveUDP rt = Some ((p, None), rt')" and waits: "bounded_waits rt"
  from r obtain u where u: "rt_udpConn rt = Some u" by (cases "rt_udpConn rt") (auto simp: ReceiveUDP_def)
  have tmo: "0 < rt_readTimeout rt" using waits by (simp add: bounded_waits_def)
  with r u have "ud_deadline_err u = None" by (cases "ud_deadline_err u") (auto simp: ReceiveUDP_def)
  from ReceiveUDP_step [OF u tmo this] r u tmo
  show "pending_udp rt' \<le> pending_udp rt \<and> rt_now rt \<le> rt_now rt' \<and> (pending_udp rt' < pending_udp rt \<or> rt_now rt < rt_now rt')"
    by (auto simp: pending_udp_def dest!: udp_Read_progress)
qed (erule (1) ReceiveUDP_waits ReceiveUDP_ok)+

lemma start_streaming_ok:
  assumes "start_streaming listenUDP flags rt = (r, rt')" and "client_ok rt"
  shows "client_ok rt' \<and> rt_readTimeout rt' = rt_readTimeout rt \<and> (\<forall>receive. r = Inr receive \<longrightarrow> receive = Receive \<or> receive = ReceiveUDP)"
proof -
  have udp: "client_ok rt1" "rt_readTimeout rt1 = rt_readTimeout rt"
    if "EnableUDPStream listenUDP 0 rt = (x, rt1)" for x rt1
    using EnableUDPStream_ok [OF that assms(2)] that
    by (auto simp: EnableUDPStream_def close_udp_def Let_def split: sum.splits option.splits if_splits)
  have cmd: "client_ok rt2" "rt_readTimeout rt2 = rt_readTimeout rt1"
    if "StreamFramesUDP a b c d opts cs rt1 = (x, rt2)" "client_ok rt1" for a b c d opts cs x rt1 rt2
    using streamFramesUDP.keeps_ok [OF arg_cong [where f = Some, OF that(1)] that(2)]
      streamFramesUDP.keeps [OF arg_cong [where f = Some, OF that(1)]]
    by (simp_all add: same_link_def same_config_def)
  have tcp: "client_ok rt2" "rt_readTimeout rt2 = rt_readTimeout rt1"
    if "StreamFramesWithOptions a b opts cs rt1 = (x, rt2)" "client_ok rt1" for a b opts cs x rt1 rt2
    using streamFramesOp.keeps_ok [OF arg_cong [where f = Some, OF that(1) [unfolded StreamFramesWithOptions_def]] that(2)]
      streamFramesOp.keeps [OF arg_cong [where f = Some, OF that(1) [unfolded StreamFramesWithOptions_def]]]
    by (simp_all add: same_link_def same_config_def)
  show ?thesis
    using assms udp cmd tcp
    by (auto simp: start_streaming_def Let_def split: if_splits prod.splits option.splits)
qed

lemma session_ok:
  assumes "streaming_session listenUDP interrupt flags rt = Some (r, rt')" and "client_ok rt"
  shows "client_ok rt'"
proof -
  from assms(1) obtain v rt1 where v: "GetQTMVersion rt = Some (v, rt1)"
    by (auto simp: streaming_session_def bind_eq_Some_conv)
  obtain x rt2 where x: "start_streaming listenUDP flags rt1 = (x, rt2)" by fastforce
  note ok = start_streaming_ok [OF x getQTMVersion.keeps_ok [OF v assms(2)]]
  show ?thesis
  proof (cases x)
    case (Inl e)
    with assms(1) v x ok show ?thesis by (auto simp: streaming_session_def)
  next
    case (Inr receive)
    with assms(1) v x have "session_loop receive interrupt [] rt2 = Some (r, rt')" by (simp add: streaming_session_def)
    with ok Inr tcp_source.loop_ok udp_source.loop_ok show ?thesis by blast
  qed
qed

lemma image_loop_ok: "image_loop out rt = Some (r, rt') \<Longrightarrow> client_ok rt \<Longrightarrow> client_ok rt'"
proof -
  let ?P = "\<lambda>out rt (y :: (err \<times> log_line list) \<times> Protocol). client_ok rt \<longrightarrow> client_ok (snd y)"
  assume run: "image_loop out rt = Some (r, rt')" and ok: "client_ok rt"
  have "?P out rt (r, rt')"
  proof (rule image_loop.raw_induct [where P = ?P, OF _ run], intro impI)
    fix loop out rt y
    assume IH: "\<And>out rt y. loop out rt = Some y \<Longrightarrow> ?P out rt y" and ok: "client_ok rt"
      and run: "Option.bind (Receive rt) (\<lambda>((p, e), rt). case e of
          Some e \<Rightarrow> Some ((e, out), rt)
        | None \<Rightarrow> if EndOfData p then loop out rt
            else loop (out @ map (LogComponent (dp_Frame (pk_Data p))) (dp_Components (pk_Data p))) rt) = Some y"
    from run obtain p e rt1 where r: "Receive rt = Some ((p, e), rt1)" by (auto simp: bind_eq_Some_conv)
    from tcp_source.keeps_ok [OF r ok] run r IH show "client_ok (snd y)"
      by (auto split: option.splits if_splits)
  qed
  with ok show ?thesis by simp
qed

lemma settings_session_ok:
  assumes "settings_session password rt = Some (r, rt')" and "client_ok rt"
  shows "client_ok rt'"
proof -
  have enable: "client_ok rt'" if "enable_images xml rt = Some (r, rt')" "client_ok rt" for xml rt r rt'
  proof -
    from that(1) obtain e rt1 where s: "SetParameters (ReplaceAll (StripParametersElement xml rt)
        ''<Enabled>false</Enabled>'' ''<Enabled>true</Enabled>'') rt = Some (e, rt1)"
      by (auto simp: enable_images_def Let_def bind_eq_Some_conv)
    obtain x rt2 where x: "StreamFramesAll [ComponentTypeImage] rt1 = (x, rt2)" by fastforce
    have ok1: "client_ok rt1" by (rule setParameters.keeps_ok [OF s that(2)])
    have "client_ok rt2"
      using streamFramesOp.keeps_ok [OF arg_cong [where f = Some,
          OF x [unfolded StreamFramesAll_def StreamFrames_def StreamFramesWithOptions_def]] ok1] .
    with that(1) s x ok1 image_loop_ok show ?thesis
      by (auto simp: enable_images_def Let_def split: option.splits)
  qed
  from assms(1) obtain xml e rt1 where p: "GetParameters [ParameterTypeImage] rt = Some ((xml, e), rt1)"
    by (auto simp: settings_session_def bind_eq_Some_conv)
  have ok1: "client_ok rt1" by (rule getParameters.keeps_ok [OF p [unfolded GetParameters_def] assms(2)])
  show ?thesis
  proof (cases e)
    case None
    with assms(1) p obtain e2 rt2 where t: "TakeControl password rt1 = Some (e2, rt2)"
      by (auto simp: settings_session_def bind_eq_Some_conv)
    note ok2 = takeControl.keeps_ok [OF t ok1]
    with assms(1) p None t enable releaseControl.keeps_ok show ?thesis
      by (auto simp: settings_session_def bind_eq_Some_conv split: option.splits)
  qed (use assms(1) p ok1 in \<open>auto simp: settings_session_def\<close>)
qed

lemma Disconnect_closes:
  assumes "client_ok rt"
  shows "\<not> IsConnected (Disconnect rt) \<and> rt_udpConn (Disconnect rt) = None \<and> rt_sockets (Disconnect rt) = 0"
  using Disconnect_ok [OF assms]
  by (auto simp: client_ok_def no_leak_def Disconnect_def Let_def IsConnected_def)

definition nothing_open :: "('r \<times> Protocol) option \<Rightarrow> bool" where
  "nothing_open run = (case run of None \<Rightarrow> True
     | Some (r, rt) \<Rightarrow> \<not> IsConnected rt \<and> rt_udpConn rt = None \<and> rt_sockets rt = 0)"

lemma run_closes:
  assumes "\<And>rt r rt'. session rt = Some (r, rt') \<Longrightarrow> client_ok rt \<Longrightarrow> client_ok rt'"
  shows "nothing_open (do {
     (ip, basePort) \<leftarrow> server;
     (e, rt) \<leftarrow> Connect dial (NewProtocol ip basePort []);
     (r, rt) \<leftarrow> (case e of Some e \<Rightarrow> Some (failed e, rt) | None \<Rightarrow> session rt);
     Some (r, Disconnect rt) })"
proof (cases server)
  case (Some s)
  obtain ip basePort where s: "server = Some (ip, basePort)" using Some by (cases s) auto
  have start: "client_ok (NewProtocol ip basePort [])" by (rule start_ok) simp
  show ?thesis
  proof (cases "Connect dial (NewProtocol ip basePort [])")
    case (Some y)
    then obtain e rt where c: "Connect dial (NewProtocol ip basePort []) = Some (e, rt)" by (cases y) auto
    from Connect_ok [OF this start] have ok: "client_ok rt" .
    show ?thesis
      using Disconnect_closes [OF ok] Disconnect_closes [OF assms [OF _ ok]]
      by (cases e; cases "session rt") (auto simp: s c nothing_open_def)
  qed (simp add: s nothing_open_def)
qed (simp add: nothing_open_def)

subsection \<open>Properties\<close>

text \<open>
  C6: The programs leave nothing open: however a run of the streaming or of the settings program
  ends (a failed connection, a refused request, a broken stream, an interrupt), the client
  is disconnected and no socket is left, neither the connection nor the UDP socket.
\<close>

theorem programs_close:
  "nothing_open (streaming_run interfaces sock dial listenUDP interrupt flags)
   \<and> nothing_open (settings_run interfaces sock dial addr portFlag password)"
  unfolding streaming_run_def settings_run_def
  by (intro conjI run_closes) (erule (1) session_ok settings_session_ok)+

text \<open>
  C7: An interrupt ends the streaming program: once a server is known, the run returns for any
  server, network and time of the interrupt, over TCP and over UDP, even when frames keep
  coming or nothing comes at all.
\<close>

theorem streaming_ends:
  assumes "server_address (sf_addr flags) (sf_port flags) interfaces sock = Some (ip, basePort)"
  shows "\<exists>e out rt. streaming_run interfaces sock dial listenUDP (Some T) flags = Some ((e, out), rt)"
proof -
  have start: "bounded_waits (NewProtocol ip basePort [])" "0 < rt_connectTimeout (NewProtocol ip basePort [])"
    "client_ok (NewProtocol ip basePort [])"
    by (simp_all add: bounded_waits_def NewProtocol_def client_ok_def no_leak_def IsConnected_def Version_def)
  from Connect_returns [OF start(1,2)] obtain e rt where c: "Connect dial (NewProtocol ip basePort []) = Some (e, rt)"
    by fastforce
  have waits: "bounded_waits rt" and ok: "client_ok rt"
    using Connect_result [OF c] Connect_ok [OF c start(3)] start by (auto simp: bounded_waits_def client_ok_def)
  have "\<exists>r rt'. streaming_session listenUDP (Some T) flags rt = Some (r, rt')"
  proof -
    from getQTMVersion.returns [OF waits] obtain v rt1 where v: "GetQTMVersion rt = Some (v, rt1)" by blast
    obtain x rt2 where x: "start_streaming listenUDP flags rt1 = (x, rt2)" by fastforce
    note s = start_streaming_ok [OF x getQTMVersion.keeps_ok [OF v ok]]
    have waits2: "bounded_waits rt2"
      using s bounded_waits_link [OF getQTMVersion.keeps [OF v] waits] by (simp add: bounded_waits_def client_ok_def)
    show ?thesis
    proof (cases x)
      case (Inr receive)
      then have "receive = Receive \<or> receive = ReceiveUDP" using s by blast
      with tcp_source.loop_ends [OF waits2, of T "[]"] udp_source.loop_ends [OF waits2, of T "[]"] v x Inr
      show ?thesis by (auto simp: streaming_session_def)
    qed (use v x in \<open>auto simp: streaming_session_def\<close>)
  qed
  with assms c show ?thesis by (cases e) (auto simp: streaming_run_def)
qed

text \<open>
  A source a program receives from, with the next thing \<open>x\<close> to come at the time \<open>t\<close>: until then each
  receive returns the no-data marker after the read timeout and changes nothing that matters.
\<close>

locale timed_source =
  fixes receive :: receiver and waiting :: "int \<Rightarrow> 'x \<Rightarrow> Protocol \<Rightarrow> bool" and kept :: "Protocol \<Rightarrow> Protocol \<Rightarrow> bool"
  assumes positive: "waiting t x rt \<Longrightarrow> 0 < rt_readTimeout rt"
    and quiet: "waiting t x rt \<Longrightarrow> rt_now rt + rt_readTimeout rt \<le> t \<Longrightarrow>
      \<exists>rt'. receive rt = Some ((zero_Packet\<lparr>pk_Type := PacketTypeNoMoreData\<rparr>, None), rt') \<and> waiting t x rt'
        \<and> rt_now rt' = rt_now rt + rt_readTimeout rt \<and> kept rt rt'"
    and kept_refl: "kept rt rt" and kept_trans: "kept rt rt' \<Longrightarrow> kept rt' rt'' \<Longrightarrow> kept rt rt''"
    and kept_timeout: "kept rt rt' \<Longrightarrow> rt_readTimeout rt' = rt_readTimeout rt"

text \<open>
  A loop around \<open>receive\<close> passes over the rounds in which nothing comes, as long as the clock lets
  it go on: however long the pause, it gets to the next event, or stops before.
\<close>

locale receive_loop = timed_source +
  fixes loop :: "Protocol \<Rightarrow> 'r option" and going :: "int \<Rightarrow> bool"
  assumes quiet_round: "receive rt = Some ((p, None), rt') \<Longrightarrow> EndOfData p \<Longrightarrow> going (rt_now rt) \<Longrightarrow> loop rt = loop rt'"
    and goes_before: "going t' \<Longrightarrow> t \<le> t' \<Longrightarrow> going t"
begin

lemma stops_or_reaches:
  assumes "waiting t x rt"
  shows "\<exists>rt'. loop rt = loop rt' \<and> waiting t x rt' \<and> max (rt_now rt') t = max (rt_now rt) t \<and> kept rt rt'
    \<and> (going (rt_now rt') \<longrightarrow> t < rt_now rt' + rt_readTimeout rt')"
  using assms
proof (induction "nat (t - rt_now rt)" arbitrary: rt rule: less_induct)
  case less
  note tmo = positive [OF less.prems]
  show ?case
  proof (cases "going (rt_now rt) \<and> rt_now rt + rt_readTimeout rt \<le> t")
    case False
    with less.prems kept_refl show ?thesis by (intro exI [of _ rt]) auto
  next
    case True
    with quiet [OF less.prems] obtain rt1 where
      r: "receive rt = Some ((zero_Packet\<lparr>pk_Type := PacketTypeNoMoreData\<rparr>, None), rt1)"
      and rt1: "waiting t x rt1" "rt_now rt1 = rt_now rt + rt_readTimeout rt" "kept rt rt1" by blast
    have step: "loop rt = loop rt1" using quiet_round [OF r] True by (simp add: EndOfData_def)
    have now: "max (rt_now rt1) t = max (rt_now rt) t" "nat (t - rt_now rt1) < nat (t - rt_now rt)"
      using True rt1(2) tmo by auto
    from less.hyps [OF now(2) rt1(1)] obtain rt' where
      "loop rt1 = loop rt'" "waiting t x rt'" "max (rt_now rt') t = max (rt_now rt) t" "kept rt1 rt'"
      "going (rt_now rt') \<longrightarrow> t < rt_now rt' + rt_readTimeout rt'" by (auto simp: now(1))
    with step kept_trans [OF rt1(3)] show ?thesis by auto
  qed
qed

lemma reaches:
  assumes "waiting t x rt" and "going (max (rt_now rt) t)"
  shows "\<exists>rt'. loop rt = loop rt' \<and> going (rt_now rt') \<and> waiting t x rt' \<and> t < rt_now rt' + rt_readTimeout rt'
    \<and> max (rt_now rt') t = max (rt_now rt) t \<and> kept rt rt'"
proof -
  from stops_or_reaches [OF assms(1)] obtain rt' where
    rt': "loop rt = loop rt'" "waiting t x rt'" "max (rt_now rt') t = max (rt_now rt) t" "kept rt rt'"
      "going (rt_now rt') \<longrightarrow> t < rt_now rt' + rt_readTimeout rt'" by blast
  moreover have "going (rt_now rt')" using goes_before [OF assms(2), of "rt_now rt'"] by (simp flip: rt'(3))
  ultimately show ?thesis by blast
qed

text \<open>With nothing to come for a while after \<open>T\<close>, when the clock stops the loop, it stops.\<close>

lemma stops:
  assumes "waiting (T + rt_readTimeout rt) x rt" and "\<And>t. T \<le> t \<Longrightarrow> \<not> going t"
  shows "\<exists>rt'. loop rt = loop rt' \<and> \<not> going (rt_now rt') \<and> kept rt rt'"
proof -
  from stops_or_reaches [OF assms(1)] obtain rt' where
    rt': "loop rt = loop rt'" "kept rt rt'" "going (rt_now rt') \<longrightarrow> T + rt_readTimeout rt < rt_now rt' + rt_readTimeout rt'" by blast
  then have "\<not> going (rt_now rt')" using assms(2) [of "rt_now rt'"] kept_timeout [OF rt'(2)] by auto
  with rt'(1,2) show ?thesis by blast
qed

end

text \<open>The connection: the next event and what follows it.\<close>

definition tcp_waiting :: "int \<Rightarrow> net_event \<times> inbox \<Rightarrow> Protocol \<Rightarrow> bool" where
  "tcp_waiting t x rt \<longleftrightarrow> awaits rt [] ((t, fst x) # snd x)"

definition tcp_kept :: "Protocol \<Rightarrow> Protocol \<Rightarrow> bool" where
  "tcp_kept rt rt' \<longleftrightarrow> same_config rt rt' \<and> length (rt_buffer rt') = length (rt_buffer rt)"

lemma tcp_timed: "timed_source Receive tcp_waiting tcp_kept"
proof
  show "0 < rt_readTimeout rt" if "tcp_waiting t x rt" for t x rt
    using that by (simp add: tcp_waiting_def awaits_def)
  show "\<exists>rt'. Receive rt = Some ((zero_Packet\<lparr>pk_Type := PacketTypeNoMoreData\<rparr>, None), rt') \<and> tcp_waiting t x rt'
      \<and> rt_now rt' = rt_now rt + rt_readTimeout rt \<and> tcp_kept rt rt'"
    if "tcp_waiting t x rt" "rt_now rt + rt_readTimeout rt \<le> t" for t x rt
    using ReceiveTimeout_quiet_event [of rt t "fst x" "snd x" "rt_readTimeout rt"] that
    by (auto simp: tcp_waiting_def tcp_kept_def Receive_def awaits_def)
qed (auto simp: tcp_kept_def same_config_def)

lemma late_before: "\<not> late interrupt t' \<Longrightarrow> t \<le> t' \<Longrightarrow> \<not> late interrupt t"
  by (auto simp: late_def split: option.splits)

lemma session_quiet:
  "receive rt = Some ((p, None), rt') \<Longrightarrow> EndOfData p \<Longrightarrow> \<not> late interrupt (rt_now rt) \<Longrightarrow>
    session_loop receive interrupt out rt = session_loop receive interrupt out rt'"
  by (subst session_loop.simps) simp

interpretation tcp: timed_source Receive tcp_waiting tcp_kept
  by (rule tcp_timed)

interpretation session_rounds: receive_loop Receive tcp_waiting tcp_kept "session_loop Receive interrupt out"
    "\<lambda>t. \<not> late interrupt t" for interrupt out
  by unfold_locales (rule session_quiet late_before, assumption+)+

interpretation image_rounds: receive_loop Receive tcp_waiting tcp_kept "image_loop out" "\<lambda>t. True" for out
proof
  show "image_loop out rt = image_loop out rt'" if "Receive rt = Some ((p, None), rt')" "EndOfData p" for rt p rt'
    using that by (subst image_loop.simps) simp
qed simp

text \<open>The packet that comes next is received.\<close>

lemma next_packet:
  assumes "tcp_waiting t (Chunk (enc_packet (rt_order rt) ty payload), deliveries (rt_order rt) sched @ q) rt0"
    and "t < rt_now rt0 + rt_readTimeout rt0" and "max (rt_now rt0) t = max (rt_now rt) t" and "tcp_kept rt rt0"
    and "fits rt (ty, payload)"
  shows "\<exists>rt'. Receive rt0 = Some (packet_result (rt_order rt) (ty, payload), rt')
    \<and> awaits rt' sched q \<and> rt_now rt' = max (rt_now rt) t \<and> same_config rt rt' \<and> length (rt_buffer rt') = length (rt_buffer rt)"
proof -
  have kept: "same_config rt rt0" "length (rt_buffer rt0) = length (rt_buffer rt)" using assms(4) by (simp_all add: tcp_kept_def)
  then have ord: "rt_order rt0 = rt_order rt" by (simp add: same_config_def)
  have aw: "awaits rt0 ((t, ty, payload) # sched) q" using assms(1) unfolding awaits_head ord by (simp add: tcp_waiting_def)
  have "0 < rt_readTimeout rt0" using aw by (simp add: awaits_def)
  from ReceiveTimeout_chunk [OF aw this assms(2) fits_config [OF kept(1) assms(5)]] assms(3) kept(2) show ?thesis
    by (auto simp: Receive_def ord intro: same_config_trans [OF kept(1)])
qed

lemma result_type:
  assumes "packet_result ord (ty, payload) = (p, None)"
  shows "pk_Type p = ty"
proof -
  obtain r where "Packet_UnmarshalBinary (zero_Packet\<lparr>pk_order := Some ord\<rparr>) (enc_packet ord ty payload) = Some r"
    using Packet_returns by (auto simp: runs_def) blast
  then show ?thesis
    using assms decoded_type [of ord ty payload "fst r" "snd r"]
    by (auto simp: packet_result_def receive_result_def split: option.splits if_splits prod.splits)
qed

lemma loop_reaches:
  assumes "awaits rt ((t, ty, payload) # sched) q" and "fits rt (ty, payload)" and "\<not> late interrupt (max (rt_now rt) t)"
    and "packet_result (rt_order rt) (ty, payload) = (p, None)" and "ty \<noteq> PacketTypeNoMoreData"
  shows "\<exists>rt'. session_loop Receive interrupt out rt =
      (case handlePacket p out of (goes_on, out) \<Rightarrow>
         if goes_on then session_loop Receive interrupt out rt' else Some ((None, out), rt'))
    \<and> awaits rt' sched q \<and> rt_now rt' = max (rt_now rt) t \<and> same_config rt rt'
    \<and> length (rt_buffer rt') = length (rt_buffer rt)"
proof -
  let ?x = "(Chunk (enc_packet (rt_order rt) ty payload), deliveries (rt_order rt) sched @ q)"
  have "tcp_waiting t ?x rt" using assms(1) unfolding awaits_head by (simp add: tcp_waiting_def)
  from session_rounds.reaches [OF this assms(3), of out] obtain rt0 where
    rt0: "session_loop Receive interrupt out rt = session_loop Receive interrupt out rt0" "\<not> late interrupt (rt_now rt0)"
      "tcp_waiting t ?x rt0" "t < rt_now rt0 + rt_readTimeout rt0" "max (rt_now rt0) t = max (rt_now rt) t" "tcp_kept rt rt0" by blast
  from next_packet [OF rt0(3-6) assms(2)] rt0(1,2) assms(4) obtain rt' where
    step: "session_loop Receive interrupt out rt = session_loop Receive interrupt out rt0" "\<not> late interrupt (rt_now rt0)"
      "Receive rt0 = Some ((p, None), rt')" and rt': "awaits rt' sched q" "rt_now rt' = max (rt_now rt) t" "same_config rt rt'"
      "length (rt_buffer rt') = length (rt_buffer rt)"
    by auto
  have "\<not> EndOfData p" using result_type [OF assms(4)] assms(5) by (simp add: EndOfData_def)
  with step(2,3) have "session_loop Receive interrupt out rt0 = (case handlePacket p out of (goes_on, out) \<Rightarrow>
      if goes_on then session_loop Receive interrupt out rt' else Some ((None, out), rt'))"
    by (subst session_loop.simps) simp
  with step(1) rt' show ?thesis by auto
qed

lemma image_reaches:
  assumes "awaits rt ((t, ty, payload) # sched) q" and "fits rt (ty, payload)"
    and "packet_result (rt_order rt) (ty, payload) = (p, None)" and "ty \<noteq> PacketTypeNoMoreData"
  shows "\<exists>rt'. image_loop out rt = image_loop (out @ map (LogComponent (dp_Frame (pk_Data p))) (dp_Components (pk_Data p))) rt'
    \<and> awaits rt' sched q \<and> rt_now rt' = max (rt_now rt) t \<and> same_config rt rt'
    \<and> length (rt_buffer rt') = length (rt_buffer rt)"
proof -
  let ?x = "(Chunk (enc_packet (rt_order rt) ty payload), deliveries (rt_order rt) sched @ q)"
  have "tcp_waiting t ?x rt" using assms(1) unfolding awaits_head by (simp add: tcp_waiting_def)
  from image_rounds.reaches [OF this TrueI, of out] obtain rt0 where
    rt0: "image_loop out rt = image_loop out rt0" "tcp_waiting t ?x rt0" "t < rt_now rt0 + rt_readTimeout rt0"
      "max (rt_now rt0) t = max (rt_now rt) t" "tcp_kept rt rt0" by blast
  from next_packet [OF rt0(2-5) assms(2)] rt0(1) assms(3) obtain rt' where
    step: "image_loop out rt = image_loop out rt0" "Receive rt0 = Some ((p, None), rt')"
      and rt': "awaits rt' sched q" "rt_now rt' = max (rt_now rt) t" "same_config rt rt'"
        "length (rt_buffer rt') = length (rt_buffer rt)"
    by auto
  have "\<not> EndOfData p" using result_type [OF assms(3)] assms(4) by (simp add: EndOfData_def)
  with step(2) have "image_loop out rt0 =
      image_loop (out @ map (LogComponent (dp_Frame (pk_Data p))) (dp_Components (pk_Data p))) rt'"
    by (subst image_loop.simps) simp
  with step(1) rt' show ?thesis by auto
qed

text \<open>The lines for a frame with the given objects.\<close>

definition printed :: "u32 \<Rightarrow> IDataObject list \<Rightarrow> log_line list" where
  "printed frame objs = map (LogComponent frame) objs
     @ concat (map (\<lambda>obj. case obj of ObjUnknown t bs \<Rightarrow> [LogUnknown frame t] | _ \<Rightarrow> []) objs)"

lemma frame_lines_printed: "frame_lines d = printed (dp_Frame d) (dp_Components d)"
proof -
  have "map (LogUnknown frame) (List.map_filter (\<lambda>obj. case obj of ObjUnknown t bs \<Rightarrow> Some t | _ \<Rightarrow> None) objs)
      = concat (map (\<lambda>obj. case obj of ObjUnknown t bs \<Rightarrow> [LogUnknown frame t] | _ \<Rightarrow> []) objs)" for frame objs
    by (induction objs) (auto simp: List.map_filter_simps split: IDataObject.split)
  then show ?thesis by (simp add: frame_lines_def printed_def UnknownComponentTypes_def)
qed

text \<open>
  The loop prints each frame it is sent, once and in order, with every
  component of the frame and the numbers of the unknown ones, however long the pauses between
  the frames.
\<close>

lemma frames_printed:
  assumes "awaits rt (map (\<lambda>(t, frame). (t, frame_packet (rt_order rt) frame)) frames) q"
    and "list_all (\<lambda>(t, frame). fits rt (frame_packet (rt_order rt) frame) \<and> \<not> late interrupt t) frames"
    and "\<not> late interrupt (rt_now rt)"
    and "list_all2 (\<lambda>(t, timestamp, frame, comps) objs. length comps < 2 ^ 32 \<and> list_all2 decodes comps objs) frames objss"
  shows "\<exists>rt'. session_loop Receive interrupt out rt = session_loop Receive interrupt
      (out @ concat (map2 (\<lambda>(t, timestamp, frame, comps) objs. printed frame objs) frames objss)) rt'
    \<and> awaits rt' [] q \<and> \<not> late interrupt (rt_now rt') \<and> same_config rt rt'
    \<and> length (rt_buffer rt') = length (rt_buffer rt)"
  using assms
proof (induction frames arbitrary: rt objss out)
  case Nil
  then show ?case by (intro exI [of _ rt]) simp
next
  case (Cons x frames)
  obtain t timestamp frame comps where x: "x = (t, timestamp, frame, comps)" by (cases x)
  from Cons.prems(4) obtain objs objss' where objss: "objss = objs # objss'"
    and dec: "list_all2 decodes comps objs" "length comps < 2 ^ 32"
    and rest: "list_all2 (\<lambda>(t, timestamp, frame, comps) objs. length comps < 2 ^ 32 \<and> list_all2 decodes comps objs) frames objss'"
    by (auto simp: x list_all2_Cons1)
  let ?ord = "rt_order rt"
  obtain payload where pkt: "frame_packet ?ord (timestamp, frame, comps) = (PacketTypeData, payload)"
    by (simp add: frame_packet_def)
  from packet_result_frame [OF dec, of ?ord timestamp frame] obtain p where
    p: "packet_result ?ord (PacketTypeData, payload) = (p, None)" "pk_Type p = PacketTypeData"
      "dp_Frame (pk_Data p) = frame" "dp_Components (pk_Data p) = objs"
    by (auto simp: pkt)
  then have h: "handlePacket p out = (True, out @ printed frame objs)"
    by (simp add: handlePacket_def frame_lines_printed)
  have late: "\<not> late interrupt (max (rt_now rt) t)" using Cons.prems(2,3) by (simp add: x max_def)
  from Cons.prems(1) have aw: "awaits rt ((t, PacketTypeData, payload) # map (\<lambda>(t, frame). (t, frame_packet ?ord frame)) frames) q"
    by (simp add: x pkt)
  have fit: "fits rt (PacketTypeData, payload)" using Cons.prems(2) by (simp add: x pkt)
  from loop_reaches [OF aw fit late p(1), of out] h obtain rt1 where
    step: "session_loop Receive interrupt out rt = session_loop Receive interrupt (out @ printed frame objs) rt1"
    and rt1: "awaits rt1 (map (\<lambda>(t, frame). (t, frame_packet ?ord frame)) frames) q" "rt_now rt1 = max (rt_now rt) t"
      "same_config rt rt1" "length (rt_buffer rt1) = length (rt_buffer rt)"
    by auto
  have ord: "rt_order rt1 = ?ord" using rt1(3) by (simp add: same_config_def)
  have fits_all: "list_all (\<lambda>(t, frame). fits rt1 (frame_packet (rt_order rt1) frame) \<and> \<not> late interrupt t) frames"
  proof (rule list.pred_mono_strong)
    show "list_all (\<lambda>(t, frame). fits rt (frame_packet ?ord frame) \<and> \<not> late interrupt t) frames"
      using Cons.prems(2) by simp
  qed (auto simp: ord intro: fits_config [OF rt1(3)])
  from Cons.IH [OF _ fits_all _ rest, of "out @ printed frame objs"] rt1 late step same_config_trans [OF rt1(3)]
  show ?case by (auto simp: ord objss x)
qed

theorem streaming_ends_witness:
  "\<exists>e out rt. streaming_run (Inr []) demo_socket demo_dial (\<lambda>p. Inl ErrTimeout) (Some (60 * Second))
    \<lparr>sf_addr = ''qtm'', sf_port = 22222, sf_udp = True, sf_channels = ''''\<rparr> = Some ((e, out), rt)"
  by (rule streaming_ends [where ip = "''qtm''" and basePort = 22222]) (simp add: server_address_def)

end
