(* ===== verification/Session.thy ===== *)
theory Session
  imports Programs
begin

text \<open>
  A whole session against a server that does its part: the handshake, the request and the
  stream, put together to a run of the streaming program from the first dial to the end of the
  stream. The server is a peer that answers each command with a schedule of packets.
\<close>

subsection \<open>The server\<close>

text \<open>
  \<open>peer\<close> answers the message \<open>msg\<close> with the packets of \<open>sched\<close> and then \<open>q\<close>, whatever was sent
  before.
\<close>

definition answers_with :: "byte_order \<Rightarrow> (bytes list \<Rightarrow> err + inbox) \<Rightarrow> u32 \<Rightarrow> string \<Rightarrow> schedule \<Rightarrow> inbox \<Rightarrow> bool" where
  "answers_with ord peer ty msg sched q \<longleftrightarrow>
     (\<forall>sent. peer (sent @ [frame_string ord msg ty]) = Inr (deliveries ord sched @ q))"

abbreviation replies :: "byte_order \<Rightarrow> (bytes list \<Rightarrow> err + inbox) \<Rightarrow> string \<Rightarrow> schedule \<Rightarrow> bool" where
  "replies ord peer msg sched \<equiv> answers_with ord peer PacketTypeCommand msg sched []"

text \<open>A server that negotiates a version and reports its state.\<close>

definition greets :: "byte_order \<Rightarrow> (int \<times> int \<Rightarrow> bool) \<Rightarrow> u8 \<Rightarrow> (bytes list \<Rightarrow> err + inbox) \<Rightarrow> bool" where
  "greets ord accepts state peer \<longleftrightarrow>
     (\<forall>v. replies ord peer (''Version '' @ version_string (fst v) (snd v)) [(0, version_reply accepts v)])
     \<and> replies ord peer ''GetState'' [(0, PacketTypeEvent, [state])]"

text \<open>It also reports its own version and answers the request for 6D Euler frames with \<open>stream\<close>, and \<open>q\<close> after it.\<close>

definition serves :: "byte_order \<Rightarrow> (int \<times> int \<Rightarrow> bool) \<Rightarrow> u8 \<Rightarrow> string \<Rightarrow> schedule \<Rightarrow> inbox \<Rightarrow>
    (bytes list \<Rightarrow> err + inbox) \<Rightarrow> bool" where
  "serves ord accepts state version stream q peer \<longleftrightarrow> greets ord accepts state peer
     \<and> replies ord peer ''QTMVersion'' [(0, PacketTypeCommand, to_bytes version @ [0])]
     \<and> answers_with ord peer PacketTypeCommand ''StreamFrames AllFrames 6DEulerRes'' stream q"

text \<open>Connected to \<open>peer\<close>, with the receive buffer of a new client.\<close>

definition bound_to :: "(bytes list \<Rightarrow> err + inbox) \<Rightarrow> Protocol \<Rightarrow> bool" where
  "bound_to peer rt \<longleftrightarrow> length (rt_buffer rt) = 4096 \<and> (\<exists>c. rt_conn rt = Some c \<and> cn_peer c = peer)"

text \<open>Connected to \<open>peer\<close> at time \<open>T\<close>, with nothing left to read.\<close>

definition idle :: "int \<Rightarrow> (bytes list \<Rightarrow> err + inbox) \<Rightarrow> Protocol \<Rightarrow> bool" where
  "idle T peer rt \<longleftrightarrow> awaits rt [] [] \<and> rt_now rt = T \<and> bound_to peer rt"

definition delayed :: "int \<Rightarrow> schedule \<Rightarrow> schedule" where
  "delayed T sched = map (\<lambda>(dt, pkt). (T + dt, pkt)) sched"

lemma idle_connected: "idle T peer rt \<Longrightarrow> IsConnected rt"
  by (auto simp: idle_def bound_to_def IsConnected_def)

lemma idle_asks:
  assumes "idle T peer rt" and "answers_with (rt_order rt) peer ty msg sched q"
    and "send msg rt = (case sendString msg ty rt of (e, rt) \<Rightarrow> (wrap_err f e, rt))"
  shows "\<exists>rt1. send msg rt = (None, rt1) \<and> awaits rt1 (delayed T sched) (map (\<lambda>(dt, ev). (T + dt, ev)) q)
    \<and> same_config rt rt1 \<and> rt_now rt1 = T \<and> bound_to peer rt1"
proof -
  let ?frame = "frame_string (rt_order rt) msg ty"
  let ?q = "deliveries (rt_order rt) (delayed T sched) @ map (\<lambda>(dt, ev). (T + dt, ev)) q"
  from assms(1) obtain c where c: "rt_conn rt = Some c" "cn_peer c = peer" "cn_inbox c = []" "cn_deadline_err c = None"
    and rt: "0 < rt_readTimeout rt" "length (rt_buffer rt) = 4096" "rt_now rt = T"
    by (auto simp: idle_def bound_to_def awaits_def deliveries_def)
  define c1 where "c1 = c\<lparr>cn_outbox := cn_outbox c @ [?frame], cn_inbox := ?q\<rparr>"
  have inbox: "map (\<lambda>(dt, ev). (T + dt, ev)) (deliveries (rt_order rt) sched @ q) = ?q"
    by (auto simp: deliveries_def delayed_def)
  have "peer (cn_outbox c @ [?frame]) = Inr (deliveries (rt_order rt) sched @ q)"
    using assms(2) by (simp add: answers_with_def)
  then have w: "conn_Write ?frame (rt_now rt) c = (None, c1)"
    using c rt inbox by (simp add: conn_Write_def c1_def)
  have "send msg rt = (None, rt\<lparr>rt_conn := Some c1\<rparr>)"
    using c w by (simp add: assms(3) sendString_def wrap_err_def)
  then show ?thesis
    using c rt by (intro exI [of _ "rt\<lparr>rt_conn := Some c1\<rparr>"]) (simp add: awaits_def same_config_def bound_to_def c1_def)
qed

lemmas idle_sends = idle_asks [where send = sendCommand, OF _ _ sendCommand_def, where q = "[]", simplified]

lemma kept_idle:
  assumes "conn_kept rt rt'" and "bound_to peer rt" and "length (rt_buffer rt') = length (rt_buffer rt)"
    and "awaits rt' [] []" and "rt_now rt' = T"
  shows "idle T peer rt'"
  using assms by (auto simp: idle_def bound_to_def conn_kept_def option_rel_Some1 same_peer_def)

text \<open>A single packet that comes at once is the response.\<close>

lemma idle_response:
  assumes "awaits rt [(T, ty, payload)] []" and "rt_now rt = T" and "bound_to peer rt"
    and "fits rt (ty, payload)" and "ty = PacketTypeCommand \<or> ty = PacketTypeError"
  shows "\<exists>rt'. receiveSkippingEvents DefaultCommandTimeout rt = Some (packet_result (rt_order rt) (ty, payload), rt')
    \<and> idle T peer rt' \<and> same_config rt rt'"
proof -
  from assms(1,2) ReceiveTimeout_chunk [OF assms(1) _ _ assms(4), of DefaultCommandTimeout] obtain rt' where
    r: "ReceiveTimeout DefaultCommandTimeout rt = Some (packet_result (rt_order rt) (ty, payload), rt')"
    and rt': "awaits rt' [] []" "rt_now rt' = T" "same_config rt rt'"
      "length (rt_buffer rt') = length (rt_buffer rt)"
    by auto
  obtain p e where p: "packet_result (rt_order rt) (ty, payload) = (p, e)" by fastforce
  have "skip_events DefaultCommandTimeout (rt_now rt + DefaultCommandTimeout) rt = Some ((p, e), rt')"
  proof (cases e)
    case None
    with p assms(5) have "pk_Type p = ty"
      by (auto simp: packet_result_def Packet_UnmarshalBinary_enc decoded_payload_def receive_result_def)
    with None r p assms(5) show ?thesis
      by (subst skip_events_eq) (auto simp: skip_wait_def)
  next
    case (Some x)
    with r p show ?thesis by (subst skip_events_eq) (auto simp: skip_wait_def)
  qed
  moreover have "idle T peer rt'" using ReceiveTimeout_kept [OF r] assms(3) rt'(4,1,2) by (rule kept_idle)
  ultimately show ?thesis using p rt'(3) by (auto simp: receiveSkippingEvents_def)
qed

subsection \<open>The handshake\<close>

lemma idle_SetVersion:
  assumes "idle T peer rt" and "replies (rt_order rt) peer (''Version '' @ version_string major minor)
      [(0, version_reply accepts (major, minor))]"
    and "fits rt (version_reply accepts (major, minor))"
  shows "\<exists>e rt'. SetVersion major minor rt = Some (e, rt') \<and> idle T peer rt' \<and> (e = None \<longleftrightarrow> accepts (major, minor))"
proof -
  let ?ver = "version_string major minor"
  let ?ord = "rt_order rt"
  obtain ty payload where reply: "version_reply accepts (major, minor) = (ty, payload)" by fastforce
  from idle_sends [OF assms(1,2)] obtain rt1 where s: "sendCommand (''Version '' @ ?ver) rt = (None, rt1)"
    and rt1: "awaits rt1 [(T, ty, payload)] []" "same_config rt rt1" "rt_now rt1 = T" "bound_to peer rt1"
    by (auto simp: delayed_def reply)
  have ord: "rt_order rt1 = ?ord" using rt1(2) by (simp add: same_config_def)
  have fit: "fits rt1 (ty, payload)" using fits_config [OF rt1(2)] assms(3) reply by simp
  have ty: "ty = PacketTypeCommand \<or> ty = PacketTypeError" using reply by (auto simp: version_reply_def split: if_splits)
  from idle_response [OF rt1(1,3,4) fit ty] obtain rt2 where
    r: "receiveSkippingEvents DefaultCommandTimeout rt1 = Some (packet_result ?ord (ty, payload), rt2)"
    and rt2: "idle T peer rt2" by (auto simp: ord)
  have "idle T peer (rt2\<lparr>rt_majorVersion := major, rt_minorVersion := minor\<rparr>)"
    using rt2 by (auto simp: idle_def awaits_def bound_to_def deliveries_def)
  with SetVersion_reply [OF s r [folded reply]] rt2 show ?thesis
    by (cases "accepts (major, minor)") auto
qed

text \<open>The same for a polling command: a single packet that is the answer.\<close>

lemma idle_poll:
  assumes "idle T peer rt" and "replies (rt_order rt) peer msg [(0, pkt)]"
    and "decisive pick (rt_order rt) pkt (Some r, None)" and "fits rt pkt"
  shows "\<exists>rt1 rt'. sendCommand msg rt = (None, rt1) \<and> rt_now rt1 = T
    \<and> poll (T + DefaultCommandTimeout) pick rt1 = Some ((Some r, None), rt') \<and> idle T peer rt' \<and> same_config rt rt'"
proof -
  obtain ty payload where pkt: "pkt = (ty, payload)" by (cases pkt)
  from idle_sends [OF assms(1,2)] obtain rt1 where s: "sendCommand msg rt = (None, rt1)"
    and rt1: "awaits rt1 [(T, ty, payload)] []" "same_config rt rt1" "rt_now rt1 = T" "bound_to peer rt1"
    by (auto simp: delayed_def pkt)
  have fit: "fits rt1 (ty, payload)" using fits_config [OF rt1(2) assms(4)] by (simp add: pkt)
  from ReceiveTimeout_chunk [OF rt1(1) _ _ fit, of DefaultCommandTimeout] rt1(3) obtain rt' where
    r: "ReceiveTimeout DefaultCommandTimeout rt1 = Some (packet_result (rt_order rt1) (ty, payload), rt')"
    and rt': "awaits rt' [] []" "rt_now rt' = T" "length (rt_buffer rt') = length (rt_buffer rt1)" "same_config rt1 rt'" by auto
  have ord: "rt_order rt1 = rt_order rt" using rt1(2) by (simp add: same_config_def)
  obtain p where p: "packet_result (rt_order rt) (ty, payload) = (p, None)" "pick p = Some r"
    using assms(3) by (auto simp: decisive_def pkt split: prod.splits option.splits)
  have "poll (T + DefaultCommandTimeout) pick rt1 = Some ((Some r, None), rt')"
    using r p rt1(3) by (subst poll.simps) (simp add: ord)
  moreover have "idle T peer rt'" using ReceiveTimeout_kept [OF r] rt1(4) rt'(3,1,2) by (rule kept_idle)
  ultimately show ?thesis using s rt1(3) same_config_trans [OF rt1(2) rt'(4)] by blast
qed

lemma idle_GetState:
  assumes "idle T peer rt" and "replies (rt_order rt) peer ''GetState'' [(0, PacketTypeEvent, [state])]"
    and "rt_majorVersion rt \<noteq> 1 \<or> 9 < rt_minorVersion rt" and "fits rt (PacketTypeEvent, [state])"
  shows "\<exists>r rt'. GetState rt = Some (r, rt') \<and> idle T peer rt'"
proof -
  let ?pick = "\<lambda>p. if pk_Type p = PacketTypeEvent then Some (pk_Event p) else None"
  have "decisive ?pick (rt_order rt) (PacketTypeEvent, [state]) (Some state, None)"
    by (simp add: decisive_def packet_result_def event_decoded receive_result_def)
  from idle_poll [OF assms(1,2) this assms(4)] assms(3) show ?thesis
    by (auto simp: GetState_def)
qed

lemma idle_try_versions:
  assumes "idle T peer rt" and "greets (rt_order rt) accepts state peer"
    and "List.find accepts vs = Some v" and "fst v \<noteq> 1 \<or> 9 < snd v"
    and "\<forall>v \<in> set vs. fits rt (version_reply accepts v)" and "fits rt (PacketTypeEvent, [state])"
  shows "\<exists>rt'. try_versions vs lastErr rt = Some (None, rt') \<and> idle T peer rt' \<and> same_link rt rt' \<and> Version rt' = v"
  using assms
proof (induction vs arbitrary: lastErr rt)
  case (Cons w vs)
  obtain major minor where w: "w = (major, minor)" by (cases w)
  have "replies (rt_order rt) peer (''Version '' @ version_string major minor) [(0, version_reply accepts (major, minor))]"
    using Cons.prems(2) by (auto simp: greets_def dest: spec [of _ "(major, minor)"])
  from idle_SetVersion [OF Cons.prems(1) this] Cons.prems(5) obtain e rt1 where
    s: "SetVersion major minor rt = Some (e, rt1)" and rt1: "idle T peer rt1" and ok: "e = None \<longleftrightarrow> accepts (major, minor)"
    by (auto simp: w)
  have link: "same_link rt rt1" using SetVersion_link [OF s] by blast
  have ord: "rt_order rt1 = rt_order rt" using same_link_order [OF link] .
  show ?case
  proof (cases "accepts w")
    case True
    then have e: "e = None" using ok by (simp add: w)
    with SetVersion_link [OF s] True Cons.prems(3) have v: "Version rt1 = (major, minor)" "v = w" by auto
    from v(1) Cons.prems(4) have "rt_majorVersion rt1 \<noteq> 1 \<or> 9 < rt_minorVersion rt1"
      unfolding v(2) by (auto simp: Version_def w)
    from idle_GetState [OF rt1 _ this fits_link [OF link Cons.prems(6)]] Cons.prems(2) obtain r rt2 where
      g: "GetState rt1 = Some (r, rt2)" "idle T peer rt2" by (auto simp: greets_def ord)
    from GetState_config [OF g(1)] have "same_link rt1 rt2" "Version rt2 = Version rt1"
      by (auto simp: same_config_def Version_def intro: same_config_link)
    with g s e w v same_link_trans [OF link] show ?thesis by auto
  next
    case False
    then obtain x where e: "e = Some x" using ok by (cases e) (auto simp: w)
    from Cons.IH [OF rt1, of "Some x"] Cons.prems fits_link [OF link] False obtain rt' where
      "try_versions vs (Some x) rt1 = Some (None, rt')" "idle T peer rt'" "same_link rt1 rt'" "Version rt' = v" by (auto simp: ord)
    with s e w same_link_trans [OF link] show ?thesis by auto
  qed
qed simp

text \<open>The dialled connection: the welcome is there at time \<open>T\<close>, and nothing else.\<close>

definition welcome_conn :: "byte_order \<Rightarrow> int \<Rightarrow> (bytes list \<Rightarrow> err + inbox) \<Rightarrow> conn \<Rightarrow> bool" where
  "welcome_conn ord T peer c \<longleftrightarrow> cn_deadline_err c = None \<and> cn_peer c = peer
     \<and> cn_inbox c = deliveries ord [(T, PacketTypeCommand, to_bytes qtmConnectedResponse @ [0])]"

lemma idle_Connect:
  assumes "dial (dial_address rt) (rt_connectTimeout rt) (rt_now rt) = (Inr c, T)" and "\<not> IsConnected rt"
    and "welcome_conn (rt_order rt) T peer c" and "greets (rt_order rt) accepts state peer"
    and "List.find accepts (versionCandidates rt) = Some v" and "fst v \<noteq> 1 \<or> 9 < snd v"
    and "\<forall>v \<in> set (versionCandidates rt). fits rt (version_reply accepts v)"
    and "0 < rt_readTimeout rt" and "0 < rt_connectTimeout rt"
    and "length (rt_buffer rt) = 4096" and "64 \<le> rt_maxPacketSize rt"
  shows "\<exists>rt'. Connect dial rt = Some (None, rt') \<and> idle T peer rt' \<and> same_link (dialled c T rt) rt'
    \<and> Version rt' = v"
proof -
  let ?rt = "dialled c T rt"
  let ?greeting = "to_bytes qtmConnectedResponse @ [0]"
  have fits: "fits ?rt q = fits rt q" for q by (simp add: fits_def acceptable_def)
  have aw: "awaits ?rt [(T, PacketTypeCommand, ?greeting)] []"
    using assms(3,8,10) by (simp add: awaits_def welcome_conn_def)
  have "fits rt (PacketTypeCommand, ?greeting)"
    using assms(10,11) by (simp add: fits_def acceptable_def qtmConnectedResponse_def)
  with ReceiveTimeout_chunk [OF aw, of "rt_connectTimeout ?rt"] assms(9) obtain rt1 where
    r: "ReceiveTimeout (rt_connectTimeout ?rt) ?rt = Some (packet_result (rt_order rt) (PacketTypeCommand, ?greeting), rt1)"
    and rt1: "awaits rt1 [] []" "rt_now rt1 = T" "same_config ?rt rt1"
      "length (rt_buffer rt1) = 4096"
    using assms(10) by (auto simp: fits)
  have "text_string qtmConnectedResponse" by (simp add: text_string_def qtmConnectedResponse_def)
  from packet_result_command [OF this, of "rt_order rt"] obtain p where
    p: "packet_result (rt_order rt) (PacketTypeCommand, ?greeting) = (p, None)" "pk_CommandResponse p = qtmConnectedResponse"
    by blast
  have idle: "idle T peer rt1"
    using kept_idle [OF ReceiveTimeout_kept [OF r] _ _ rt1(1,2), of peer] assms(3,10) rt1(4)
    by (simp add: welcome_conn_def bound_to_def)
  have link: "same_link ?rt rt1" using rt1(3) by (rule same_config_link)
  have ord: "rt_order rt1 = rt_order rt" using same_link_order [OF link] by simp
  have cand: "versionCandidates rt1 = versionCandidates rt" using versionCandidates_link [OF link] by simp
  have "fits rt (PacketTypeEvent, [state])" using assms(10,11) by (simp add: fits_def acceptable_def)
  then have ev: "fits rt1 (PacketTypeEvent, [state])" using fits_link [OF link] by (simp add: fits)
  have vs: "\<forall>v \<in> set (versionCandidates rt1). fits rt1 (version_reply accepts v)"
    using assms(7) fits_link [OF link] by (simp add: cand fits)
  have "greets (rt_order rt1) accepts state peer" "List.find accepts (versionCandidates rt1) = Some v"
    using assms(4,5) by (simp_all add: ord cand)
  from idle_try_versions [OF idle this assms(6) vs ev, of None] obtain rt' where
    "try_versions (versionCandidates rt1) None rt1 = Some (None, rt')" "idle T peer rt'" "same_link rt1 rt'" "Version rt' = v"
    by blast
  with r p same_link_trans [OF link] show ?thesis
    by (auto simp: Connect_dialled [of dial rt c T, OF assms(1)])
qed

lemma idle_GetQTMVersion:
  assumes "idle T peer rt" and "replies (rt_order rt) peer ''QTMVersion'' [(0, PacketTypeCommand, to_bytes version @ [0])]"
    and "fits rt (PacketTypeCommand, to_bytes version @ [0])"
  shows "\<exists>r rt'. GetQTMVersion rt = Some (r, rt') \<and> idle T peer rt' \<and> same_config rt rt'"
proof -
  let ?payload = "to_bytes version @ [0]"
  from idle_sends [OF assms(1,2)] obtain rt1 where s: "sendCommand ''QTMVersion'' rt = (None, rt1)"
    and rt1: "awaits rt1 [(T, PacketTypeCommand, ?payload)] []" "same_config rt rt1" "rt_now rt1 = T" "bound_to peer rt1"
    by (auto simp: delayed_def)
  from idle_response [OF rt1(1,3,4) fits_config [OF rt1(2) assms(3)]] obtain rt2 where
    r: "receiveSkippingEvents DefaultCommandTimeout rt1 = Some (packet_result (rt_order rt1) (PacketTypeCommand, ?payload), rt2)"
    and rt2: "idle T peer rt2" "same_config rt1 rt2" by auto
  from s r have "\<exists>r. GetQTMVersion rt = Some (r, rt2)"
    by (auto simp: GetQTMVersion_def SendCommand_def split: prod.split option.split)
  with rt2 same_config_trans [OF rt1(2)] show ?thesis by blast
qed

subsection \<open>The stream\<close>

lemma start_streaming_tcp:
  assumes "idle T peer rt" and "answers_with (rt_order rt) peer PacketTypeCommand ''StreamFrames AllFrames 6DEulerRes'' stream q"
    and "\<not> sf_udp flags"
  shows "\<exists>rt'. start_streaming listenUDP flags rt = (Inr Receive, rt')
    \<and> awaits rt' (delayed T stream) (map (\<lambda>(dt, ev). (T + dt, ev)) q)
    \<and> same_config rt rt' \<and> rt_now rt' = T \<and> bound_to peer rt'"
proof -
  have cmd: "stream_command StreamRateTypeAllFrames 0 0 '''' (zero_ComponentOptions\<lparr>co_AnalogChannels := ch\<rparr>)
      [ComponentType6DEulerResidual] = Inr ''StreamFrames AllFrames 6DEulerRes''" for ch
    by (simp add: stream_command_def rate_string_def udp_string_def componentString_def component_part_def componentName_def)
  from idle_asks [where send = sendCommand, OF assms(1,2) sendCommand_def] obtain rt' where
    "sendCommand ''StreamFrames AllFrames 6DEulerRes'' rt = (None, rt')"
    "awaits rt' (delayed T stream) (map (\<lambda>(dt, ev). (T + dt, ev)) q)" "same_config rt rt'" "rt_now rt' = T" "bound_to peer rt'"
    by blast
  then show ?thesis
    using assms(3) by (simp add: start_streaming_def StreamFramesWithOptions_def streamFrames_def cmd wrap_err_def)
qed

lemma bound_fits:
  "bound_to peer rt \<Longrightarrow> rt_maxPacketSize rt = DefaultMaxPacketSize \<Longrightarrow>
    fits rt (ty, payload) \<longleftrightarrow> payload \<noteq> [] \<and> packetHeaderSize + length payload \<le> 4096"
  by (auto simp: fits_def acceptable_def bound_to_def)

lemma idle_bound: "idle T peer rt \<Longrightarrow> bound_to peer rt"
  by (simp add: idle_def)

subsection \<open>How the stream ends\<close>

text \<open>The events that a receive fails on, with the error the program returns.\<close>

inductive ends_stream :: "net_event \<Rightarrow> err \<Rightarrow> bool" where
  closed: "ends_stream Closed (Errorf ''receive: connection closed: %w'' [AWrap IoEOF])"
| too_large: "4096 < packetHeaderSize + length payload \<Longrightarrow> int (packetHeaderSize + length payload) \<le> DefaultMaxPacketSize \<Longrightarrow>
    ends_stream (Chunk (enc_packet LittleEndian ty payload))
      (Errorf ''receive: error packet returned (%s)'' [AStr (trimStringResponse payload)])"

lemma Receive_closed:
  assumes "awaits rt [] ((t, Closed) # q)" and "t < rt_now rt + rt_readTimeout rt"
  shows "\<exists>p rt'. Receive rt = Some ((p, Some (Errorf ''receive: connection closed: %w'' [AWrap IoEOF])), rt')"
proof -
  let ?dl = "Some (rt_now rt + rt_readTimeout rt)"
  from assms(1) obtain c where c: "rt_conn rt = Some c" "cn_deadline_err c = None" "cn_inbox c = (t, Closed) # q"
    and rt: "packetHeaderSize \<le> length (rt_buffer rt)" "0 < rt_readTimeout rt"
    by (auto simp: awaits_def deliveries_def split: option.splits)
  have "conn_Read ?dl packetHeaderSize (rt_now rt) ((t, Closed) # q)
      = Some ([], Some IoEOF, max (rt_now rt) t, (t, Closed) # q)"
    using assms(2) rt(2) by (simp add: late_def max_def)
  then have "io_ReadFull ?dl packetHeaderSize (rt_now rt) ((t, Closed) # q)
      = Some ([], Some IoEOF, max (rt_now rt) t, (t, Closed) # q)"
    by (simp add: io_ReadFull_def read_loop_net.simps)
  with c rt show ?thesis
    by (simp add: Receive_def ReceiveTimeout_def IsConnected_def setReadDeadline_def conn_SetReadDeadline_def
        read_buffer_def isTimeout_simps)
qed

lemma Receive_fails:
  assumes "ends_stream ev e" and "awaits rt [] ((t, ev) # q)" and "t < rt_now rt + rt_readTimeout rt"
    and "length (rt_buffer rt) = 4096" and "rt_maxPacketSize rt = DefaultMaxPacketSize" and "rt_order rt = LittleEndian"
  shows "\<exists>p rt'. Receive rt = Some ((p, Some e), rt')"
  using assms(1)
proof cases
  case closed
  with Receive_closed assms(2,3) show ?thesis by blast
next
  case (too_large payload ty)
  let ?T = "max (rt_now rt) t"
  obtain c where c: "rt_conn rt = Some c" "cn_deadline_err c = None" "cn_inbox c = (t, ev) # q" and tmo: "0 < rt_readTimeout rt"
    using assms(2) by (auto simp: awaits_def deliveries_def split: option.splits)
  have "healthy rt" using c assms(4) by (simp add: healthy_def)
  moreover have "timely ?T (rt_readTimeout rt) rt" using tmo assms(3) by (simp add: timely_def)
  moreover have "incoming ?T rt = enc_packet (rt_order rt) ty payload @ arrived ?T q"
    using c assms(6) too_large(1) by (simp add: incoming_def)
  moreover have "acceptable rt payload" using too_large(4) assms(5) by (simp add: acceptable_def)
  moreover have "length (rt_buffer rt) < packetHeaderSize + length payload" using too_large(3) assms(4) by simp
  ultimately show ?thesis
    using large_packet_received [of rt ?T "rt_readTimeout rt" ty payload] too_large(2) unfolding Receive_def by blast
qed

text \<open>
  How the stream of the streaming program ends, with the result and what is still printed: QTM
  announces that it shuts down, or a receive fails.
\<close>

inductive ends_run :: "net_event \<Rightarrow> err option \<Rightarrow> log_line list \<Rightarrow> bool" where
  shutdown: "ends_run (Chunk (enc_packet LittleEndian PacketTypeEvent [EventTypeQTMShuttingDown])) None
    [LogEvent EventTypeQTMShuttingDown]"
| failure: "ends_stream ev e \<Longrightarrow> ends_run ev (Some e) []"

lemma session_loop_fails:
  assumes "ends_stream ev e" and "awaits rt [] ((t, ev) # q)" and "\<not> late interrupt (max (rt_now rt) t)"
    and "length (rt_buffer rt) = 4096" and "rt_maxPacketSize rt = DefaultMaxPacketSize" and "rt_order rt = LittleEndian"
  shows "\<exists>rt'. session_loop Receive interrupt out rt = Some ((Some e, out), rt')"
proof -
  have "tcp_waiting t (ev, q) rt" using assms(2) by (simp add: tcp_waiting_def)
  from session_rounds.reaches [OF this assms(3), of out] obtain rt0 where
    step: "session_loop Receive interrupt out rt = session_loop Receive interrupt out rt0" "\<not> late interrupt (rt_now rt0)"
    and rt0: "awaits rt0 [] ((t, ev) # q)" "t < rt_now rt0 + rt_readTimeout rt0" "length (rt_buffer rt0) = length (rt_buffer rt)"
      "same_config rt rt0"
    by (auto simp: tcp_waiting_def tcp_kept_def)
  from Receive_fails [OF assms(1) rt0(1,2)] rt0(3,4) assms(4-6) obtain p rt' where
    r: "Receive rt0 = Some ((p, Some e), rt')" by (auto simp: same_config_def)
  have "\<not> errors_Is e ErrTruncated" using assms(1) by cases simp_all
  then have "session_loop Receive interrupt out rt0 = Some ((Some e, out), rt')"
    using r step(2) by (subst session_loop.simps) simp
  with step(1) show ?thesis by simp
qed

lemma session_loop_ends:
  assumes "ends_run ev r ending" and "awaits rt [] ((t, ev) # q)" and "\<not> late interrupt (max (rt_now rt) t)"
    and "length (rt_buffer rt) = 4096" and "rt_maxPacketSize rt = DefaultMaxPacketSize" and "rt_order rt = LittleEndian"
  shows "\<exists>rt'. session_loop Receive interrupt out rt = Some ((r, out @ ending), rt')"
  using assms(1)
proof cases
  case failure
  with session_loop_fails [OF _ assms(2-6)] show ?thesis by simp
next
  case shutdown
  obtain p where p: "packet_result (rt_order rt) (PacketTypeEvent, [EventTypeQTMShuttingDown]) = (p, None)"
    "handlePacket p out = (False, out @ [LogEvent EventTypeQTMShuttingDown])"
    by (simp add: packet_result_def event_decoded receive_result_def handlePacket_def)
  have "awaits rt ((t, PacketTypeEvent, [EventTypeQTMShuttingDown]) # []) q"
    using assms(2) unfolding awaits_head shutdown(1) assms(6) by (simp add: deliveries_def)
  moreover have "fits rt (PacketTypeEvent, [EventTypeQTMShuttingDown])"
    using assms(4,5) by (simp add: fits_def acceptable_def)
  ultimately show ?thesis
    using loop_reaches [OF _ _ assms(3) p(1), of "[]" q out] p(2) shutdown(2,3) by auto
qed

text \<open>The stream that brings \<open>frames\<close> and ends with the announcement that QTM shuts down.\<close>

definition last_frames :: "byte_order \<Rightarrow> (int \<times> u64 \<times> u32 \<times> (u32 \<times> bytes) list) list \<Rightarrow> int \<Rightarrow> schedule" where
  "last_frames ord frames dt' =
     map (\<lambda>(dt, frame). (dt, frame_packet ord frame)) frames @ [(dt', PacketTypeEvent, [EventTypeQTMShuttingDown])]"

lemma printed_delayed:
  "map2 (\<lambda>(t, timestamp, frame, comps) objs. printed frame objs) (map (\<lambda>(dt, frame). (T + dt, frame)) frames) objss
    = map2 (\<lambda>(dt, timestamp, frame, comps) objs. printed frame objs) frames objss"
  by (simp add: zip_map1 split_def)

subsection \<open>A default client\<close>

abbreviation fresh :: "string \<Rightarrow> int \<Rightarrow> Protocol" where
  "fresh ip basePort \<equiv> NewProtocol ip basePort []"

lemma fresh_ladder:
  "versionCandidates (fresh ip basePort) =
    map (Pair DefaultMajorVersion) (DefaultMinorVersion #
      filter (\<lambda>minor. minor < DefaultMinorVersion) (rev [MinSupportedMinorVersion..DefaultMinorVersion]))"
  unfolding versionCandidates_def by (simp add: NewProtocol_def not_le del: upto_rec_numeral upto.simps)

lemma fresh_negotiates:
  assumes "accepts (DefaultMajorVersion, minor)" and "minor \<in> {MinSupportedMinorVersion..DefaultMinorVersion}"
  shows "\<exists>v. List.find accepts (versionCandidates (fresh ip basePort)) = Some v"
proof -
  have "(DefaultMajorVersion, minor) \<in> set (versionCandidates (fresh ip basePort))"
    using assms(2) unfolding fresh_ladder by (auto simp del: upto_rec_numeral upto.simps)
  with assms(1) show ?thesis by (metis find_None_iff option.exhaust)
qed

lemma fresh_fits:
  "fits (fresh ip basePort) (ty, payload) \<longleftrightarrow> payload \<noteq> [] \<and> packetHeaderSize + length payload \<le> 4096"
  by (auto simp: fits_def acceptable_def NewProtocol_def)

lemma enc_frame_nonempty: "enc_frame ord timestamp frame comps \<noteq> []"
  by (simp add: enc_frame_def flip: length_greater_0_conv)

lemma fresh_version_fits:
  "\<forall>v \<in> set (versionCandidates (fresh ip basePort)). fits (fresh ip basePort) (version_reply accepts v)"
proof
  fix v assume "v \<in> set (versionCandidates (fresh ip basePort))"
  then obtain minor where v: "v = (1, minor)" "0 \<le> minor" "minor \<le> 28"
    unfolding fresh_ladder by (auto simp del: upto_rec_numeral upto.simps)
  have "length (Itoa 1) \<le> 2" "length (Itoa minor) \<le> 2"
    using v(2,3) digits_length [of "nat minor" 2] digits_length [of 1 1] by (simp_all add: Itoa_def)
  then show "fits (fresh ip basePort) (version_reply accepts v)"
    by (simp add: v(1) version_reply_def fresh_fits version_string_def)
qed

lemma fresh_Connect:
  assumes "dial (dial_address (fresh ip basePort)) DefaultConnectTimeout 0 = (Inr c, T)"
    and "welcome_conn LittleEndian T peer c" and "greets LittleEndian accepts state peer"
    and "List.find accepts (versionCandidates (fresh ip basePort)) = Some v"
  shows "\<exists>rt. Connect dial (fresh ip basePort) = Some (None, rt) \<and> idle T peer rt \<and> rt_order rt = LittleEndian
    \<and> Version rt = v \<and> rt_maxPacketSize rt = DefaultMaxPacketSize \<and> (\<forall>q. fits (fresh ip basePort) q \<longrightarrow> fits rt q)"
proof -
  let ?rt = "fresh ip basePort"
  have rt: "rt_order ?rt = LittleEndian" "\<not> IsConnected ?rt" "rt_connectTimeout ?rt = DefaultConnectTimeout" "rt_now ?rt = 0"
    "0 < rt_readTimeout ?rt" "0 < rt_connectTimeout ?rt" "length (rt_buffer ?rt) = 4096" "64 \<le> rt_maxPacketSize ?rt"
    by (simp_all add: NewProtocol_def IsConnected_def)
  have "v \<in> set (versionCandidates ?rt)" using assms(4) by (auto simp: find_Some_iff)
  then have v: "fst v \<noteq> 1 \<or> 9 < snd v"
    unfolding fresh_ladder by (auto simp del: upto_rec_numeral upto.simps)
  have dial: "dial (dial_address ?rt) (rt_connectTimeout ?rt) (rt_now ?rt) = (Inr c, T)" using assms(1) by (simp only: rt)
  have srv: "greets (rt_order ?rt) accepts state peer" "welcome_conn (rt_order ?rt) T peer c"
    using assms(2,3) by (simp_all add: rt)
  from idle_Connect [where dial = dial and rt = ?rt and accepts = accepts, OF dial rt(2) srv(2,1) assms(4) v
      fresh_version_fits rt(5-8)] obtain rt1 where
    c: "Connect dial ?rt = Some (None, rt1)" "idle T peer rt1" "Version rt1 = v" and link: "same_link (dialled c T ?rt) rt1" by blast
  have "fits ?rt q \<Longrightarrow> fits rt1 q" for q
    using fits_link [OF link, of q] by (simp add: fits_def acceptable_def)
  moreover have "rt_maxPacketSize rt1 = DefaultMaxPacketSize"
    using link by (simp add: same_link_def same_config_def NewProtocol_def)
  ultimately show ?thesis using c same_link_order [OF link] rt(1) by auto
qed

text \<open>A connected client is sent \<open>frames\<close> on its request, and the event that ends the stream.\<close>

lemma idle_session:
  assumes "idle T peer rt" and "rt_order rt = LittleEndian" and "rt_maxPacketSize rt = DefaultMaxPacketSize" and "\<not> sf_udp flags"
    and "serves LittleEndian accepts state version
      (map (\<lambda>(dt, frame). (dt, frame_packet LittleEndian frame)) frames) [(dt', ev)] peer"
    and "ends_run ev r ending" and "fits rt (PacketTypeCommand, to_bytes version @ [0])"
    and "list_all (\<lambda>(dt, frame). fits rt (frame_packet LittleEndian frame)) frames"
    and "list_all2 (\<lambda>(dt, timestamp, frame, comps) objs. length comps < 2 ^ 32 \<and> list_all2 decodes comps objs) frames objss"
    and "\<forall>dt \<in> insert 0 (insert dt' (fst ` set frames)). \<not> late interrupt (T + dt)"
  shows "\<exists>rt'. streaming_session listenUDP interrupt flags rt = Some ((r,
      concat (map2 (\<lambda>(dt, timestamp, frame, comps) objs. printed frame objs) frames objss) @ ending), rt')"
proof -
  let ?stream = "map (\<lambda>(dt, frame). (dt, frame_packet LittleEndian frame)) frames"
  let ?timed = "map (\<lambda>(dt, frame). (T + dt, frame)) frames"
  have "replies (rt_order rt) peer ''QTMVersion'' [(0, PacketTypeCommand, to_bytes version @ [0])]"
    using assms(2,5) by (simp add: serves_def)
  from idle_GetQTMVersion [OF assms(1) this assms(7)] obtain v rt2 where
    q: "GetQTMVersion rt = Some (v, rt2)" and rt2: "idle T peer rt2" "same_config rt rt2" by blast
  have "answers_with (rt_order rt2) peer PacketTypeCommand ''StreamFrames AllFrames 6DEulerRes'' ?stream [(dt', ev)]"
    using assms(2,5) rt2(2) by (simp add: serves_def same_config_def)
  from start_streaming_tcp [OF rt2(1) this assms(4)] obtain rt3 where
    s: "start_streaming listenUDP flags rt2 = (Inr Receive, rt3)" and rt3: "awaits rt3 (delayed T ?stream) [(T + dt', ev)]"
      "same_config rt2 rt3" "rt_now rt3 = T" "bound_to peer rt3" by auto
  note cfg = same_config_trans [OF rt2(2) rt3(2)]
  have ord: "rt_order rt3 = LittleEndian" "rt_maxPacketSize rt3 = DefaultMaxPacketSize"
    using cfg assms(2,3) by (simp_all add: same_config_def)
  have sent: "delayed T ?stream = map (\<lambda>(t, frame). (t, frame_packet (rt_order rt3) frame)) ?timed"
    by (simp add: delayed_def split_def ord)
  have "list_all (\<lambda>(dt, frame). fits rt3 (frame_packet LittleEndian frame)) frames"
    using assms(8) by (rule list.pred_mono_strong) (auto intro: fits_config [OF cfg])
  then have fits: "list_all (\<lambda>(t, frame). fits rt3 (frame_packet (rt_order rt3) frame) \<and> \<not> late interrupt t) ?timed"
    using assms(10) by (auto simp: list_all_iff ord)
  have dec: "list_all2 (\<lambda>(t, timestamp, frame, comps) objs. length comps < 2 ^ 32 \<and> list_all2 decodes comps objs) ?timed objss"
    using assms(9) by (simp add: list_all2_map1 split_def)
  have now: "\<not> late interrupt (rt_now rt3)" using assms(10) rt3(3) by simp
  from frames_printed [OF rt3(1) [unfolded sent] fits now dec, of "[]"] obtain rt4 where
    loop: "session_loop Receive interrupt [] rt3 = session_loop Receive interrupt
      (concat (map2 (\<lambda>(dt, timestamp, frame, comps) objs. printed frame objs) frames objss)) rt4"
    and rt4: "awaits rt4 [] [(T + dt', ev)]" "\<not> late interrupt (rt_now rt4)" "same_config rt3 rt4"
      "length (rt_buffer rt4) = length (rt_buffer rt3)"
    by (auto simp: printed_delayed)
  have "\<not> late interrupt (max (rt_now rt4) (T + dt'))" using rt4(2) assms(10) by (simp add: max_def)
  from session_loop_ends [OF assms(6) rt4(1) this] rt3(4) rt4(3,4) ord loop q s show ?thesis
    by (auto simp: streaming_session_def bound_to_def same_config_def)
qed

subsection \<open>The whole run\<close>

text \<open>
  C3: The streaming program does its job from the first dial to the end of the stream. Against a
  server that welcomes the client, accepts some supported version, reports its state and its version
  and streams frames with any pauses, each in a packet of at most 4096 bytes, the size of the receive
  buffer, the run over TCP negotiates, asks for the 6D Euler frames, prints every component of every
  frame once and in order, and ends without an error when QTM announces that it shuts down. When the
  connection is closed instead, or a packet larger than the buffer comes (a larger frame, say), the
  run ends there with that error: no frame behind a too large one is printed. In every case the client
  is left disconnected with no socket open.
\<close>

theorem streaming_run_works:
  assumes "server_address (sf_addr flags) (sf_port flags) interfaces sock = Some (ip, basePort)" and "\<not> sf_udp flags"
    and "dial (dial_address (NewProtocol ip basePort [])) DefaultConnectTimeout 0 = (Inr c, T)"
    and "welcome_conn LittleEndian T peer c"
    and "serves LittleEndian accepts state version
      (map (\<lambda>(dt, frame). (dt, frame_packet LittleEndian frame)) frames) [(dt', ev)] peer" and "ends_run ev r ending"
    and "accepts (DefaultMajorVersion, minor)" and "minor \<in> {MinSupportedMinorVersion..DefaultMinorVersion}"
    and "length version < 4000" and "list_all (\<lambda>(dt, timestamp, frame, comps).
      packetHeaderSize + length (enc_frame LittleEndian timestamp frame comps) \<le> 4096) frames"
    and "list_all2 (\<lambda>(dt, timestamp, frame, comps) objs. length comps < 2 ^ 32 \<and> list_all2 decodes comps objs) frames objss"
    and "\<forall>dt \<in> insert 0 (insert dt' (fst ` set frames)). \<not> late interrupt (T + dt)"
  shows "\<exists>rt. streaming_run interfaces sock dial listenUDP interrupt flags = Some ((r,
      concat (map2 (\<lambda>(dt, timestamp, frame, comps) objs. printed frame objs) frames objss) @ ending), rt)
    \<and> \<not> IsConnected rt \<and> rt_sockets rt = 0"
proof -
  from fresh_negotiates [where accepts = accepts, OF assms(7,8)] obtain v where
    v: "List.find accepts (versionCandidates (fresh ip basePort)) = Some v" by blast
  have "greets LittleEndian accepts state peer" using assms(5) by (simp add: serves_def)
  from fresh_Connect [where dial = dial and accepts = accepts, OF assms(3,4) this v] obtain rt1 where
    c: "Connect dial (fresh ip basePort) = Some (None, rt1)" and rt1: "idle T peer rt1" "rt_order rt1 = LittleEndian"
      "rt_maxPacketSize rt1 = DefaultMaxPacketSize"
    and fit: "fits (fresh ip basePort) q \<Longrightarrow> fits rt1 q" for q by blast
  have frames: "list_all (\<lambda>(dt, frame). fits rt1 (frame_packet LittleEndian frame)) frames"
    using assms(10) by (auto simp: list_all_iff frame_packet_def fresh_fits enc_frame_nonempty intro!: fit)
  have "fits rt1 (PacketTypeCommand, to_bytes version @ [0])" by (rule fit) (use assms(9) in \<open>simp add: fresh_fits\<close>)
  from idle_session [OF rt1 assms(2,5,6) this frames assms(11,12)] obtain rt2 where
    run: "streaming_session listenUDP interrupt flags rt1 = Some ((r,
      concat (map2 (\<lambda>(dt, timestamp, frame, comps) objs. printed frame objs) frames objss) @ ending), rt2)" by blast
  have "client_ok (fresh ip basePort)" by (rule start_ok) simp
  from Disconnect_closes [OF session_ok [OF run Connect_ok [OF c this]]] run c assms(1) show ?thesis
    by (simp add: streaming_run_def)
qed

text \<open>A server that accepts every version: it answers the last message it was sent.\<close>

definition demo_frames :: "(int \<times> u64 \<times> u32 \<times> (u32 \<times> bytes) list) list" where
  "demo_frames = [(Second, 1000, 17, demo_components), (20 * Second, 2000, 18, [])]"

definition session_server :: "bytes list \<Rightarrow> err + inbox" where
  "session_server sent = Inr (deliveries LittleEndian
     (let msg = drop 8 (last sent) in
      if take 8 msg = to_bytes ''Version '' then [(0, PacketTypeCommand, to_bytes ''Version set to '' @ drop 8 msg)]
      else if msg = to_bytes ''GetState'' @ [0] then [(0, PacketTypeEvent, [1])]
      else if msg = to_bytes ''QTMVersion'' @ [0] then [(0, PacketTypeCommand, to_bytes ''QTM 2025.1'' @ [0])]
      else last_frames LittleEndian demo_frames (30 * Second)))"

definition session_conn :: conn where
  "session_conn = (demo_conn (deliveries LittleEndian
     [(1, PacketTypeCommand, to_bytes qtmConnectedResponse @ [0])]))\<lparr>cn_peer := session_server\<rparr>"

definition session_dial :: dialer where
  "session_dial addr tmo now = (Inr session_conn, now + 1)"

lemma session_server_serves:
  "serves LittleEndian (\<lambda>v. True) 1 ''QTM 2025.1'' (map (\<lambda>(dt, frame). (dt, frame_packet LittleEndian frame)) demo_frames)
    [(30 * Second, Chunk (enc_packet LittleEndian PacketTypeEvent [EventTypeQTMShuttingDown]))] session_server"
proof -
  have msg: "drop 8 (frame_string LittleEndian s t) = to_bytes s @ [0]" for s t
    by (simp add: frame_string_def Let_def)
  show ?thesis
    by (simp add: serves_def greets_def answers_with_def session_server_def msg version_reply_def Let_def to_bytes_def
        last_frames_def deliveries_def)
qed

theorem streaming_run_works_witness:
  "\<exists>rt. streaming_run (Inr []) demo_socket session_dial (\<lambda>p. Inl ErrTimeout) (Some (60 * Second))
      \<lparr>sf_addr = ''qtm'', sf_port = 22222, sf_udp = False, sf_channels = ''''\<rparr> = Some ((None,
      concat (map2 (\<lambda>(dt, timestamp, frame, comps) objs. printed frame objs) demo_frames [[demo_object, ObjUnknown 99 [1, 2, 3]], []])
        @ [LogEvent EventTypeQTMShuttingDown]), rt)
    \<and> \<not> IsConnected rt \<and> rt_sockets rt = 0"
proof -
  have "length demo_payload = 28" by (simp add: demo_payload_def)
  then have len: "length (enc_frame LittleEndian 1000 17 demo_components) = 63" "length (enc_frame LittleEndian 2000 18 []) = 16"
    by (simp_all add: enc_frame_def enc_component_def demo_components_def)
  have dec: "list_all2 decodes demo_components [demo_object, ObjUnknown 99 [1, 2, 3]]" "length demo_components = 2"
    using demo_decodes by (simp_all add: demo_components_def)
  show ?thesis
  proof (rule streaming_run_works [where ip = "''qtm''" and basePort = 22222 and minor = 25 and c = session_conn and T = 1,
        OF _ _ _ _ session_server_serves ends_run.shutdown])
  qed (simp_all add: server_address_def session_dial_def session_conn_def welcome_conn_def demo_conn_def demo_frames_def len dec late_def)
qed

end
