(* ===== verification/Settings_Session.thy ===== *)
theory Settings_Session
  imports Session
begin

text \<open>
  A whole run of the settings program (\<open>cmd/settings\<close>): the handshake, the settings fetched, control
  taken, the changed settings sent back, the images streamed. The program has no way to stop but a
  failing receive, so its run is followed to the end of the connection, or to the first packet that is
  larger than the receive buffer.
\<close>

subsection \<open>Commands with one answer\<close>

lemma idle_answer:
  assumes "idle T peer rt" and "answers_with (rt_order rt) peer ty msg [(0, PacketTypeCommand, to_bytes s @ [0])] []"
    and "send msg rt = (case sendString msg ty rt of (e, rt) \<Rightarrow> (wrap_err f e, rt))"
    and "text_string s" and "s \<in> set expected" and "fits rt (PacketTypeCommand, to_bytes s @ [0])"
  shows "\<exists>rt'. sendAndWaitForResponse send msg expected rt = Some (None, rt') \<and> idle T peer rt' \<and> same_config rt rt'"
proof -
  let ?payload = "to_bytes s @ [0]"
  from idle_asks [where send = send, OF assms(1,2,3)] obtain rt1 where s: "send msg rt = (None, rt1)"
    and rt1: "awaits rt1 [(T, PacketTypeCommand, ?payload)] []" "same_config rt rt1" "rt_now rt1 = T" "bound_to peer rt1"
    by (auto simp: delayed_def)
  from packet_result_command [OF assms(4), of "rt_order rt1"] obtain p where
    p: "packet_result (rt_order rt1) (PacketTypeCommand, ?payload) = (p, None)" "pk_CommandResponse p = s" by blast
  from idle_response [OF rt1(1,3,4) fits_config [OF rt1(2) assms(6)]] p obtain rt' where
    "receiveSkippingEvents DefaultCommandTimeout rt1 = Some ((p, None), rt')" "idle T peer rt'" "same_config rt1 rt'" by auto
  moreover have "response_error expected p = None"
    using assms(5) p(2) by (auto simp: response_error_def list_ex_iff intro!: bexI [of _ s])
  ultimately show ?thesis using s same_config_trans [OF rt1(2)] by (auto simp: sendAndWaitForResponse_def)
qed

lemma idle_GetParameters:
  assumes "idle T peer rt" and "replies (rt_order rt) peer ''GetParameters Image'' [(0, PacketTypeXML, to_bytes xml @ [0])]"
    and "text_string xml" and "fits rt (PacketTypeXML, to_bytes xml @ [0])"
  shows "\<exists>rt'. GetParameters [ParameterTypeImage] rt = Some ((xml, None), rt') \<and> idle T peer rt' \<and> same_config rt rt'"
proof -
  have "decisive parameters_answer (rt_order rt) (PacketTypeXML, to_bytes xml @ [0]) (Some (Inl xml), None)"
    using trimStringResponse_text [OF assms(3), of 1]
    by (simp add: decisive_def packet_result_def Packet_UnmarshalBinary_enc decoded_payload_def receive_result_def
        parameters_answer_def)
  from idle_poll [OF assms(1,2) this assms(4)] idle_connected [OF assms(1)] show ?thesis
    by (auto simp: GetParameters_def GetParametersWithOptions_def parameterName_def)
qed

text \<open>What the program makes of the settings when version \<open>v\<close> has been negotiated.\<close>

definition images_on :: "int \<times> int \<Rightarrow> string \<Rightarrow> string" where
  "images_on v xml = ReplaceAll (StripParametersElement xml ((NewProtocol '''' 0 [])\<lparr>rt_majorVersion := fst v, rt_minorVersion := snd v\<rparr>))
     ''<Enabled>false</Enabled>'' ''<Enabled>true</Enabled>''"

lemma images_on_version:
  "Version rt = v \<Longrightarrow> ReplaceAll (StripParametersElement xml rt) ''<Enabled>false</Enabled>'' ''<Enabled>true</Enabled>''
    = images_on v xml"
  by (auto simp: images_on_def StripParametersElement_def ParametersElementName_def Version_def)

subsection \<open>The server\<close>

text \<open>
  It hands out the settings \<open>xml\<close>, gives control, takes the changed settings, and answers the request
  for images with \<open>frames\<close>, and \<open>q\<close> after them.
\<close>

definition configures :: "(int \<times> int \<Rightarrow> bool) \<Rightarrow> u8 \<Rightarrow> string \<Rightarrow> int \<times> int \<Rightarrow> string \<Rightarrow>
    (int \<times> u64 \<times> u32 \<times> (u32 \<times> bytes) list) list \<Rightarrow> inbox \<Rightarrow> (bytes list \<Rightarrow> err + inbox) \<Rightarrow> bool" where
  "configures accepts state password v xml frames q peer \<longleftrightarrow> greets LittleEndian accepts state peer
     \<and> replies LittleEndian peer ''GetParameters Image'' [(0, PacketTypeXML, to_bytes xml @ [0])]
     \<and> replies LittleEndian peer (if password = '''' then ''TakeControl'' else ''TakeControl '' @ password)
         [(0, PacketTypeCommand, to_bytes ''You are now master'' @ [0])]
     \<and> answers_with LittleEndian peer PacketTypeXML (''<QTM_Settings>'' @ images_on v xml @ ''</QTM_Settings>'')
         [(0, PacketTypeCommand, to_bytes ''Setting parameters succeeded'' @ [0])] []
     \<and> answers_with LittleEndian peer PacketTypeCommand ''StreamFrames AllFrames Image''
         (map (\<lambda>(dt, frame). (dt, frame_packet LittleEndian frame)) frames) q"

subsection \<open>The images\<close>

definition shown :: "(int \<times> u64 \<times> u32 \<times> (u32 \<times> bytes) list) list \<Rightarrow> IDataObject list list \<Rightarrow> log_line list" where
  "shown frames objss = concat (map2 (\<lambda>(dt, timestamp, frame, comps) objs. map (LogComponent frame) objs) frames objss)"

lemma images_shown:
  assumes "awaits rt (map (\<lambda>(t, frame). (t, frame_packet (rt_order rt) frame)) frames) q"
    and "list_all (\<lambda>(t, frame). fits rt (frame_packet (rt_order rt) frame)) frames"
    and "list_all2 (\<lambda>(t, timestamp, frame, comps) objs. length comps < 2 ^ 32 \<and> list_all2 decodes comps objs) frames objss"
  shows "\<exists>rt'. image_loop out rt = image_loop (out @ shown frames objss) rt' \<and> awaits rt' [] q \<and> same_config rt rt'
    \<and> length (rt_buffer rt') = length (rt_buffer rt)"
  using assms
proof (induction frames arbitrary: rt objss out)
  case Nil
  then show ?case by (intro exI [of _ rt]) (simp add: shown_def)
next
  case (Cons x frames)
  obtain t timestamp frame comps where x: "x = (t, timestamp, frame, comps)" by (cases x)
  from Cons.prems(3) obtain objs objss' where objss: "objss = objs # objss'"
    and dec: "list_all2 decodes comps objs" "length comps < 2 ^ 32"
    and rest: "list_all2 (\<lambda>(t, timestamp, frame, comps) objs. length comps < 2 ^ 32 \<and> list_all2 decodes comps objs) frames objss'"
    by (auto simp: x list_all2_Cons1)
  obtain payload where pkt: "frame_packet (rt_order rt) (timestamp, frame, comps) = (PacketTypeData, payload)"
    by (simp add: frame_packet_def)
  from packet_result_frame [OF dec, of "rt_order rt" timestamp frame] obtain p where
    p: "packet_result (rt_order rt) (PacketTypeData, payload) = (p, None)" "dp_Frame (pk_Data p) = frame" "dp_Components (pk_Data p) = objs"
    by (auto simp: pkt)
  have aw: "awaits rt ((t, PacketTypeData, payload) # map (\<lambda>(t, frame). (t, frame_packet (rt_order rt) frame)) frames) q"
    and fit: "fits rt (PacketTypeData, payload)" using Cons.prems(1,2) by (simp_all add: x pkt)
  from image_reaches [OF aw fit p(1), of out] p(2,3) obtain rt1 where
    step: "image_loop out rt = image_loop (out @ map (LogComponent frame) objs) rt1"
    and rt1: "awaits rt1 (map (\<lambda>(t, frame). (t, frame_packet (rt_order rt) frame)) frames) q" "same_config rt rt1"
      "length (rt_buffer rt1) = length (rt_buffer rt)" by auto
  have ord: "rt_order rt1 = rt_order rt" using rt1(2) by (simp add: same_config_def)
  have "list_all (\<lambda>(t, frame). fits rt1 (frame_packet (rt_order rt1) frame)) frames"
    by (rule list.pred_mono_strong [of "\<lambda>(t, frame). fits rt (frame_packet (rt_order rt) frame)"])
      (use Cons.prems(2) in \<open>auto simp: ord intro: fits_config [OF rt1(2)]\<close>)
  from Cons.IH [OF rt1(1) [folded ord] this rest, of "out @ map (LogComponent frame) objs"] step rt1(2,3) same_config_trans [OF rt1(2)]
  show ?case by (auto simp: objss x shown_def)
qed

subsection \<open>How the stream ends\<close>

lemma image_loop_ends:
  assumes "ends_stream ev e" and "awaits rt [] ((t, ev) # q)"
    and "length (rt_buffer rt) = 4096" and "rt_maxPacketSize rt = DefaultMaxPacketSize" and "rt_order rt = LittleEndian"
  shows "\<exists>rt'. image_loop out rt = Some ((e, out), rt') \<and> same_config rt rt'"
proof -
  have "tcp_waiting t (ev, q) rt" using assms(2) by (simp add: tcp_waiting_def)
  from image_rounds.reaches [OF this TrueI, of out] obtain rt0 where
    step: "image_loop out rt = image_loop out rt0" and rt0: "awaits rt0 [] ((t, ev) # q)"
      "t < rt_now rt0 + rt_readTimeout rt0" "length (rt_buffer rt0) = length (rt_buffer rt)" "same_config rt rt0"
    by (auto simp: tcp_waiting_def tcp_kept_def)
  from Receive_fails [OF assms(1) rt0(1,2)] rt0(3,4) assms(3-5) obtain p rt' where
    r: "Receive rt0 = Some ((p, Some e), rt')" by (auto simp: same_config_def)
  have "image_loop out rt0 = Some ((e, out), rt')" using r by (subst image_loop.simps) simp
  with step same_config_trans [OF rt0(4) receive.keeps_config [OF r]] show ?thesis by auto
qed

subsection \<open>The session\<close>

lemma idle_images:
  assumes "idle T peer rt" and "rt_order rt = LittleEndian" and "rt_maxPacketSize rt = DefaultMaxPacketSize"
    and "answers_with LittleEndian peer PacketTypeCommand ''StreamFrames AllFrames Image''
         (map (\<lambda>(dt, frame). (dt, frame_packet LittleEndian frame)) frames) [(dt', ev)]"
    and "ends_stream ev e" and "list_all (\<lambda>(dt, timestamp, frame, comps).
      packetHeaderSize + length (enc_frame LittleEndian timestamp frame comps) \<le> 4096) frames"
    and "list_all2 (\<lambda>(dt, timestamp, frame, comps) objs. length comps < 2 ^ 32 \<and> list_all2 decodes comps objs) frames objss"
  shows "\<exists>rt1 rt2. StreamFramesAll [ComponentTypeImage] rt = (None, rt1)
    \<and> image_loop [] rt1 = Some ((e, shown frames objss), rt2) \<and> same_config rt rt2"
proof -
  let ?timed = "map (\<lambda>(dt, frame). (T + dt, frame)) frames"
  have cmd: "stream_command StreamRateTypeAllFrames 0 0 '''' zero_ComponentOptions [ComponentTypeImage]
      = Inr ''StreamFrames AllFrames Image''"
    by (simp add: stream_command_def rate_string_def udp_string_def componentString_def component_part_def componentName_def)
  from idle_asks [where send = sendCommand, OF assms(1) _ sendCommand_def] assms(2,4) obtain rt1 where
    s: "sendCommand ''StreamFrames AllFrames Image'' rt = (None, rt1)"
    and rt1: "awaits rt1 (delayed T (map (\<lambda>(dt, frame). (dt, frame_packet LittleEndian frame)) frames)) [(T + dt', ev)]"
      "same_config rt rt1" "bound_to peer rt1" by fastforce
  have start: "StreamFramesAll [ComponentTypeImage] rt = (None, rt1)"
    using s by (simp add: StreamFramesAll_def StreamFrames_def StreamFramesWithOptions_def streamFrames_def cmd wrap_err_def)
  have cfg: "rt_order rt1 = LittleEndian" "rt_maxPacketSize rt1 = DefaultMaxPacketSize"
    using rt1(2) assms(2,3) by (simp_all add: same_config_def)
  have "delayed T (map (\<lambda>(dt, frame). (dt, frame_packet LittleEndian frame)) frames)
      = map (\<lambda>(t, frame). (t, frame_packet LittleEndian frame)) ?timed" by (simp add: delayed_def split_def)
  with rt1(1) have aw: "awaits rt1 (map (\<lambda>(t, frame). (t, frame_packet (rt_order rt1) frame)) ?timed) [(T + dt', ev)]"
    by (simp add: cfg)
  have fit: "list_all (\<lambda>(t, frame). fits rt1 (frame_packet (rt_order rt1) frame)) ?timed"
    using assms(6) by (auto simp: list_all_iff cfg frame_packet_def bound_fits [OF rt1(3) cfg(2)] enc_frame_nonempty)
  have dec: "list_all2 (\<lambda>(t, timestamp, frame, comps) objs. length comps < 2 ^ 32 \<and> list_all2 decodes comps objs) ?timed objss"
    using assms(7) by (simp add: list_all2_map1 split_def)
  from images_shown [OF aw fit dec, of "[]"] obtain rt2 where
    loop: "image_loop [] rt1 = image_loop (shown ?timed objss) rt2"
    and rt2: "awaits rt2 [] [(T + dt', ev)]" "same_config rt1 rt2" "length (rt_buffer rt2) = length (rt_buffer rt1)" by auto
  have cfg2: "length (rt_buffer rt2) = 4096" "rt_maxPacketSize rt2 = DefaultMaxPacketSize" "rt_order rt2 = LittleEndian"
    using rt1(3) rt2(2,3) cfg by (simp_all add: bound_to_def same_config_def)
  from image_loop_ends [OF assms(5) rt2(1) cfg2, of "shown ?timed objss"] obtain rt3 where
    "image_loop (shown ?timed objss) rt2 = Some ((e, shown ?timed objss), rt3)" "same_config rt2 rt3" by blast
  moreover have "shown ?timed objss = shown frames objss" by (simp add: shown_def zip_map1 split_def comp_def)
  ultimately show ?thesis
    using start loop same_config_trans [OF rt1(2) same_config_trans [OF rt2(2)]] by auto
qed


lemma same_config_keeps:
  "same_config rt rt' \<Longrightarrow> rt_order rt' = rt_order rt \<and> rt_maxPacketSize rt' = rt_maxPacketSize rt \<and> Version rt' = Version rt"
  by (simp add: same_config_def Version_def)

lemma idle_settings:
  assumes "idle T peer rt" and "rt_order rt = LittleEndian" and "rt_maxPacketSize rt = DefaultMaxPacketSize" and "Version rt = v"
    and "configures accepts state password v xml frames [(dt', ev)] peer" and "ends_stream ev e"
    and "text_string xml" and "length xml < 4000" and "list_all (\<lambda>(dt, timestamp, frame, comps).
      packetHeaderSize + length (enc_frame LittleEndian timestamp frame comps) \<le> 4096) frames"
    and "list_all2 (\<lambda>(dt, timestamp, frame, comps) objs. length comps < 2 ^ 32 \<and> list_all2 decodes comps objs) frames objss"
  shows "\<exists>rt'. settings_session password rt = Some ((e, shown frames objss), rt')"
proof -
  note srv = assms(5) [unfolded configures_def]
  note fit = bound_fits [OF idle_bound]
  have texts: "text_string ''You are now master''" "text_string ''Setting parameters succeeded''"
    by (simp_all add: text_string_def)
  have "fits rt (PacketTypeXML, to_bytes xml @ [0])" using fit [OF assms(1,3)] assms(8) by simp
  with idle_GetParameters [OF assms(1)] srv assms(2,7) obtain rt1 where
    g: "GetParameters [ParameterTypeImage] rt = Some ((xml, None), rt1)" "idle T peer rt1" "same_config rt rt1" by auto
  note k1 = same_config_keeps [OF g(3)]
  let ?take = "if password \<noteq> '''' then ''TakeControl '' @ password else ''TakeControl''"
  have "fits rt1 (PacketTypeCommand, to_bytes ''You are now master'' @ [0])" using fit [OF g(2)] k1 assms(3) by simp
  with idle_answer [where send = sendCommand and msg = ?take and expected = "[''You are now master'', ''You are already master'']",
      OF g(2) _ sendCommand_def texts(1)] srv k1 assms(2) obtain rt2 where
    t: "TakeControl password rt1 = Some (None, rt2)" "idle T peer rt2" "same_config rt1 rt2"
    by (auto simp: TakeControl_def wrapped_def wrap_err_def split: if_splits)
  note k2 = same_config_keeps [OF t(3)]
  let ?xml = "''<QTM_Settings>'' @ images_on v xml @ ''</QTM_Settings>''"
  have "fits rt2 (PacketTypeCommand, to_bytes ''Setting parameters succeeded'' @ [0])" using fit [OF t(2)] k1 k2 assms(3) by simp
  with idle_answer [where send = sendXML and msg = ?xml and expected = "[''Setting parameters succeeded'']",
      OF t(2) _ sendXML_def texts(2)] srv k1 k2 assms(2) obtain rt3 where
    p: "SetParameters (images_on v xml) rt2 = Some (None, rt3)" "idle T peer rt3" "same_config rt2 rt3"
    by (auto simp: SetParameters_def wrapped_def wrap_err_def)
  note k3 = same_config_keeps [OF p(3)]
  from idle_images [where dt' = dt', OF p(2) _ _ _ assms(6,9,10)] srv k1 k2 k3 assms(2,3) obtain rt4 rt5 where
    i: "StreamFramesAll [ComponentTypeImage] rt3 = (None, rt4)" "image_loop [] rt4 = Some ((e, shown frames objss), rt5)"
      "same_config rt3 rt5" by auto
  have "Version rt2 = v" using k1 k2 assms(4) by simp
  from images_on_version [OF this] p(1) i(1,2) have enabled: "enable_images xml rt2 = Some ((e, shown frames objss), rt5)"
    by (simp add: enable_images_def Let_def)
  have "bounded_waits rt3" using p(2) by (simp add: idle_def awaits_def bounded_waits_def)
  with i(3) have "bounded_waits rt5" by (rule bounded_waits_config)
  from releaseControl.returns [OF this] obtain r rt6 where "ReleaseControl rt5 = Some (r, rt6)" by blast
  with g(1) t(1) enabled show ?thesis by (simp add: settings_session_def)
qed

subsection \<open>The whole run\<close>

text \<open>
  C4: The settings program does its job from the first dial to the end of the stream. Against a
  server that welcomes the client, accepts some supported version, hands out the settings, gives
  control, takes back the settings with every disabled section enabled and streams frames, the run
  prints every component of every frame in order until the connection is closed, and returns that
  error; or until the first frame or other packet that is larger than the receive buffer, which the
  program takes for an error packet and stops on. Either way the client is disconnected and no socket
  is open.
\<close>

theorem settings_run_works:
  assumes "server_address addr portFlag interfaces sock = Some (ip, basePort)"
    and "dial (dial_address (NewProtocol ip basePort [])) DefaultConnectTimeout 0 = (Inr c, T)"
    and "welcome_conn LittleEndian T peer c"
    and "List.find accepts (versionCandidates (NewProtocol ip basePort [])) = Some v"
    and "configures accepts state password v xml frames [(dt', ev)] peer" and "ends_stream ev e"
    and "text_string xml" and "length xml < 4000" and "list_all (\<lambda>(dt, timestamp, frame, comps).
      packetHeaderSize + length (enc_frame LittleEndian timestamp frame comps) \<le> 4096) frames"
    and "list_all2 (\<lambda>(dt, timestamp, frame, comps) objs. length comps < 2 ^ 32 \<and> list_all2 decodes comps objs) frames objss"
  shows "\<exists>rt. settings_run interfaces sock dial addr portFlag password = Some ((e, shown frames objss), rt)
    \<and> \<not> IsConnected rt \<and> rt_sockets rt = 0"
proof -
  have "greets LittleEndian accepts state peer" using assms(5) by (simp add: configures_def)
  from fresh_Connect [where dial = dial and accepts = accepts, OF assms(2,3) this assms(4)] obtain rt1 where
    c: "Connect dial (fresh ip basePort) = Some (None, rt1)" and rt1: "idle T peer rt1" "rt_order rt1 = LittleEndian"
      "rt_maxPacketSize rt1 = DefaultMaxPacketSize" "Version rt1 = v" by blast
  from idle_settings [OF rt1 assms(5-10)] obtain rt2 where
    run: "settings_session password rt1 = Some ((e, shown frames objss), rt2)" by blast
  have "client_ok (fresh ip basePort)" by (rule start_ok) simp
  from Disconnect_closes [OF settings_session_ok [OF run Connect_ok [OF c this]]] run c assms(1) show ?thesis
    by (simp add: settings_run_def)
qed


text \<open>A server that accepts every version, and whose stream ends with a large frame.\<close>

definition demo_settings :: string where
  "demo_settings = ''<QTM_Parameters_Ver_1.28><Image><Enabled>false</Enabled></Image></QTM_Parameters_Ver_1.28>''"

definition large_frame :: bytes where
  "large_frame = replicate 5000 60"

definition settings_server :: "bytes list \<Rightarrow> err + inbox" where
  "settings_server sent =
     (let msg = drop 8 (last sent) in
      if take 4 (drop 4 (last sent)) = PutUint32 LittleEndian PacketTypeXML then
        Inr (deliveries LittleEndian [(0, PacketTypeCommand, to_bytes ''Setting parameters succeeded'' @ [0])])
      else if take 8 msg = to_bytes ''Version '' then
        Inr (deliveries LittleEndian [(0, PacketTypeCommand, to_bytes ''Version set to '' @ drop 8 msg)])
      else if msg = to_bytes ''GetState'' @ [0] then Inr (deliveries LittleEndian [(0, PacketTypeEvent, [1])])
      else if msg = to_bytes ''GetParameters Image'' @ [0] then
        Inr (deliveries LittleEndian [(0, PacketTypeXML, to_bytes demo_settings @ [0])])
      else if msg = to_bytes ''TakeControl'' @ [0] then
        Inr (deliveries LittleEndian [(0, PacketTypeCommand, to_bytes ''You are now master'' @ [0])])
      else Inr (deliveries LittleEndian (map (\<lambda>(dt, frame). (dt, frame_packet LittleEndian frame)) demo_frames)
        @ [(30 * Second, Chunk (enc_packet LittleEndian PacketTypeData large_frame))]))"

definition settings_conn :: conn where
  "settings_conn = (demo_conn (deliveries LittleEndian
     [(1, PacketTypeCommand, to_bytes qtmConnectedResponse @ [0])]))\<lparr>cn_peer := settings_server\<rparr>"

lemma settings_server_configures:
  "configures (\<lambda>v. True) 1 '''' v demo_settings demo_frames
    [(30 * Second, Chunk (enc_packet LittleEndian PacketTypeData large_frame))] settings_server"
proof -
  have ne: "PutUint32 LittleEndian PacketTypeCommand \<noteq> PutUint32 LittleEndian PacketTypeXML"
    by code_simp
  have "drop 8 (frame_string LittleEndian s t) = to_bytes s @ [0]"
    "take 4 (drop 4 (frame_string LittleEndian s t)) = PutUint32 LittleEndian t" for s t
    by (simp_all add: frame_string_def Let_def)
  then show ?thesis
    using ne
    by (simp add: configures_def greets_def answers_with_def settings_server_def version_reply_def Let_def to_bytes_def)
qed

theorem settings_run_works_witness:
  "\<exists>rt. settings_run (Inr []) demo_socket (\<lambda>addr tmo now. (Inr settings_conn, now + 1)) ''qtm'' 22222 '''' =
      Some ((Errorf ''receive: error packet returned (%s)'' [AStr (trimStringResponse large_frame)],
        shown demo_frames [[demo_object, ObjUnknown 99 [1, 2, 3]], []]), rt)
    \<and> \<not> IsConnected rt \<and> rt_sockets rt = 0"
proof -
  have "length demo_payload = 28" by (simp add: demo_payload_def)
  then have len: "length (enc_frame LittleEndian 1000 17 demo_components) = 63" "length (enc_frame LittleEndian 2000 18 []) = 16"
    by (simp_all add: enc_frame_def enc_component_def demo_components_def)
  have dec: "list_all2 decodes demo_components [demo_object, ObjUnknown 99 [1, 2, 3]]" "length demo_components = 2"
    using demo_decodes by (simp_all add: demo_components_def)
  show ?thesis
  proof (rule settings_run_works [where ip = "''qtm''" and basePort = 22222 and c = settings_conn and T = 1])
    show "configures (\<lambda>v. True) 1 '''' (1, 28) demo_settings demo_frames
      [(30 * Second, Chunk (enc_packet LittleEndian PacketTypeData large_frame))] settings_server"
      by (rule settings_server_configures)
    show "List.find (\<lambda>v. True) (versionCandidates (NewProtocol ''qtm'' 22222 [])) = Some (1, 28)"
      by (simp add: versionCandidates_def NewProtocol_def)
    show "ends_stream (Chunk (enc_packet LittleEndian PacketTypeData large_frame))
      (Errorf ''receive: error packet returned (%s)'' [AStr (trimStringResponse large_frame)])"
      by (rule too_large) (simp_all add: large_frame_def)
  qed (simp_all add: server_address_def settings_conn_def welcome_conn_def demo_conn_def demo_frames_def len dec
      demo_settings_def text_string_def)
qed

end
