(* ===== verification/Data_Paths.thy ===== *)
theory Data_Paths
  imports Client
begin

text \<open>
  The two paths of the client: commands and packets over TCP, data frames over UDP. The comment on
  \<open>udpBuffer\<close> promises that they do not share a scratch buffer. Here the whole promise: no
  operation of one path reads or writes what belongs to the other.
\<close>

subsection \<open>Operations that are blind to a part of the state\<close>

text \<open>\<open>put\<close> replaces a part of the state; \<open>op\<close> gives the same result whatever it is, and keeps it.\<close>

definition blind :: "('s \<Rightarrow> Protocol \<Rightarrow> Protocol) \<Rightarrow> (Protocol \<Rightarrow> ('r \<times> Protocol) option) \<Rightarrow> bool" where
  "blind put op \<longleftrightarrow> (\<forall>s rt. op (put s rt) = map_option (apsnd (put s)) (op rt))"

locale blind_to =
  fixes get :: "Protocol \<Rightarrow> 's" and put :: "'s \<Rightarrow> Protocol \<Rightarrow> Protocol" and op :: "Protocol \<Rightarrow> ('r \<times> Protocol) option"
  assumes put_get: "put (get rt) rt = rt" and get_put: "get (put s rt) = s"
    and blind: "op (put s rt) = map_option (apsnd (put s)) (op rt)"
begin

lemma keeps: "op rt = Some (r, rt') \<Longrightarrow> get rt' = get rt"
proof -
  assume "op rt = Some (r, rt')"
  with blind [of "get rt" rt] have "rt' = put (get rt) rt'" by (simp add: put_get)
  then show ?thesis by (metis get_put)
qed

lemma unaffected: "op rt = Some (r, rt') \<Longrightarrow> op (put s rt) = Some (r, put s rt')"
  by (simp add: blind)

end

subsection \<open>What belongs to which path\<close>

definition udp_part :: "Protocol \<Rightarrow> udp_conn option \<times> bytes option" where
  "udp_part rt = (rt_udpConn rt, rt_udpBuffer rt)"

definition put_udp :: "udp_conn option \<times> bytes option \<Rightarrow> Protocol \<Rightarrow> Protocol" where
  "put_udp s rt = rt\<lparr>rt_udpConn := fst s, rt_udpBuffer := snd s\<rparr>"

definition tcp_part :: "Protocol \<Rightarrow> conn option \<times> bytes \<times> u8 \<times> u8" where
  "tcp_part rt = (rt_conn rt, rt_buffer rt, rt_lastEvent rt, rt_state rt)"

definition put_tcp :: "conn option \<times> bytes \<times> u8 \<times> u8 \<Rightarrow> Protocol \<Rightarrow> Protocol" where
  "put_tcp s rt = (case s of (c, buf, ev, st) \<Rightarrow>
     rt\<lparr>rt_conn := c, rt_buffer := buf, rt_lastEvent := ev, rt_state := st\<rparr>)"

lemma put_udp_simps [simp]:
  "rt_conn (put_udp s rt) = rt_conn rt" "rt_buffer (put_udp s rt) = rt_buffer rt" "rt_now (put_udp s rt) = rt_now rt"
  "rt_order (put_udp s rt) = rt_order rt" "rt_readTimeout (put_udp s rt) = rt_readTimeout rt"
  "rt_maxPacketSize (put_udp s rt) = rt_maxPacketSize rt" "rt_majorVersion (put_udp s rt) = rt_majorVersion rt"
  "rt_minorVersion (put_udp s rt) = rt_minorVersion rt" "IsConnected (put_udp s rt) = IsConnected rt"
  by (simp_all add: put_udp_def IsConnected_def)

lemma put_udp_updates [simp]:
  "(put_udp s rt)\<lparr>rt_conn := c\<rparr> = put_udp s (rt\<lparr>rt_conn := c\<rparr>)"
  "(put_udp s rt)\<lparr>rt_buffer := buf\<rparr> = put_udp s (rt\<lparr>rt_buffer := buf\<rparr>)"
  "(put_udp s rt)\<lparr>rt_now := t\<rparr> = put_udp s (rt\<lparr>rt_now := t\<rparr>)"
  "(put_udp s rt)\<lparr>rt_lastEvent := ev\<rparr> = put_udp s (rt\<lparr>rt_lastEvent := ev\<rparr>)"
  "(put_udp s rt)\<lparr>rt_state := ev\<rparr> = put_udp s (rt\<lparr>rt_state := ev\<rparr>)"
  "(put_udp s rt)\<lparr>rt_majorVersion := major\<rparr> = put_udp s (rt\<lparr>rt_majorVersion := major\<rparr>)"
  "(put_udp s rt)\<lparr>rt_minorVersion := minor\<rparr> = put_udp s (rt\<lparr>rt_minorVersion := minor\<rparr>)"
  by (simp_all add: put_udp_def)

named_theorems path_simps \<open>operations of the connection on a state with another UDP part\<close>

subsection \<open>The connection does not see the UDP socket\<close>

lemma setReadDeadline_udp [path_simps]:
  "setReadDeadline d (put_udp s rt) = map_option (apsnd (put_udp s)) (setReadDeadline d rt)"
  by (simp add: setReadDeadline_def split: option.split prod.split)

lemma read_buffer_udp [path_simps]:
  "read_buffer a b (put_udp s rt) = map_option (apsnd (put_udp s)) (read_buffer a b rt)"
  by (auto simp: read_buffer_def split: option.split prod.split Option.bind_split)

lemma note_event_udp [path_simps]: "note_event p (put_udp s rt) = put_udp s (note_event p rt)"
  by (simp add: note_event_def Let_def)

text \<open>One step of a computation: both sides do it, and go on from related states.\<close>

lemma bind_put:
  assumes "m' = map_option (apsnd (put s)) m" and "\<And>r rt. m = Some (r, rt) \<Longrightarrow> k' (r, put s rt) = map_option (apsnd (put s)) (k (r, rt))"
  shows "Option.bind m' k' = map_option (apsnd (put s)) (Option.bind m k)"
  unfolding assms(1) using assms(2) by (cases m) auto

lemma bind_pure:
  assumes "\<And>x. m = Some x \<Longrightarrow> k' x = map_option (apsnd (put s)) (k x)"
  shows "Option.bind m k' = map_option (apsnd (put s)) (Option.bind m k)"
  using assms by (cases m) auto

lemma receive_body_udp [path_simps]:
  "receive_body sz (put_udp s rt) = map_option (apsnd (put_udp s)) (receive_body sz rt)"
proof -
  have grow: "(if length (rt_buffer (put_udp s rt)) < sz then put_udp s rt\<lparr>rt_buffer := buf\<rparr> else put_udp s rt)
    = put_udp s (if length (rt_buffer rt) < sz then rt\<lparr>rt_buffer := buf\<rparr> else rt)" for buf
    by simp
  show ?thesis
    unfolding receive_body_def Let_def grow
    by (intro bind_put) (auto intro!: bind_put bind_pure simp: path_simps split: option.split)
qed

lemma ReceiveTimeout_udp [path_simps]:
  "ReceiveTimeout d (put_udp s rt) = map_option (apsnd (put_udp s)) (ReceiveTimeout d rt)"
  unfolding ReceiveTimeout_def
  by (auto intro!: bind_put bind_pure simp: path_simps split: option.split)


lemma skip_events_udp [path_simps]:
  "skip_events timeout deadline (put_udp s rt) = map_option (apsnd (put_udp s)) (skip_events timeout deadline rt)"
proof (induction timeout deadline rt rule: skip_events.induct)
  case (1 timeout deadline rt)
  show ?case
    by (subst (1 2) skip_events.simps)
      (auto simp: path_simps 1 Let_def split: option.split)
qed

lemma poll_udp [path_simps]: "poll deadline pick (put_udp s rt) = map_option (apsnd (put_udp s)) (poll deadline pick rt)"
proof (induction deadline pick rt rule: poll.induct)
  case (1 deadline pick rt)
  show ?case
    by (subst (1 2) poll.simps)
      (auto simp: path_simps 1 split: option.split)
qed

lemma receiveSkippingEvents_udp [path_simps]:
  "receiveSkippingEvents timeout (put_udp s rt) = map_option (apsnd (put_udp s)) (receiveSkippingEvents timeout rt)"
  by (simp add: receiveSkippingEvents_def path_simps)

lemma sendString_udp [path_simps]: "sendString msg t (put_udp s rt) = apsnd (put_udp s) (sendString msg t rt)"
  by (simp add: sendString_def split: option.split prod.split)

lemma sendCommand_udp [path_simps]: "sendCommand msg (put_udp s rt) = apsnd (put_udp s) (sendCommand msg rt)"
  by (simp add: sendCommand_def path_simps split: prod.split)

lemma sendXML_udp [path_simps]: "sendXML msg (put_udp s rt) = apsnd (put_udp s) (sendXML msg rt)"
  by (simp add: sendXML_def path_simps split: prod.split)

lemma case_sent:
  "(case apsnd f x of (None, rt) \<Rightarrow> g rt | (Some e, rt) \<Rightarrow> h e rt) = (case x of (None, rt) \<Rightarrow> g (f rt) | (Some e, rt) \<Rightarrow> h e (f rt))"
  by (cases x) (simp split: option.split)

lemma SendCommand_udp [path_simps]:
  "SendCommand msg (put_udp s rt) = map_option (apsnd (put_udp s)) (SendCommand msg rt)"
  unfolding SendCommand_def
  by (auto intro!: bind_put simp: path_simps case_sent split: option.split prod.split)

lemma answer_udp [path_simps]:
  assumes "\<And>rt. send msg (put_udp s rt) = apsnd (put_udp s) (send msg rt)"
  shows "sendAndWaitForResponse send msg expected (put_udp s rt)
    = map_option (apsnd (put_udp s)) (sendAndWaitForResponse send msg expected rt)"
  unfolding sendAndWaitForResponse_def
  by (auto intro!: bind_put simp: path_simps assms case_sent split: option.split prod.split)

lemma wrapped_udp: "wrapped f (map_option (apsnd g) m) = map_option (apsnd g) (wrapped f m)"
  by (auto simp: wrapped_def option.map_comp intro: option.map_cong0)


lemma SetVersion_udp [path_simps]:
  "SetVersion major minor (put_udp s rt) = map_option (apsnd (put_udp s)) (SetVersion major minor rt)"
  unfolding SetVersion_def Let_def
  by (auto intro!: bind_put simp: path_simps split: option.split)

lemma GetQTMVersion_udp [path_simps]: "GetQTMVersion (put_udp s rt) = map_option (apsnd (put_udp s)) (GetQTMVersion rt)"
  unfolding GetQTMVersion_def
  by (auto intro!: bind_put simp: path_simps split: option.split)

lemma GetState_udp [path_simps]: "GetState (put_udp s rt) = map_option (apsnd (put_udp s)) (GetState rt)"
  unfolding GetState_def Let_def
  by (auto intro!: bind_put simp: path_simps case_sent split: option.split prod.split)

lemma GetParameters_udp [path_simps]:
  "GetParametersWithOptions opts ps (put_udp s rt) = map_option (apsnd (put_udp s)) (GetParametersWithOptions opts ps rt)"
  unfolding GetParametersWithOptions_def
  by (auto intro!: bind_put simp: path_simps case_sent split: option.split prod.split sum.split)

lemma getCapture_udp [path_simps]:
  "getCapture msg want (put_udp s rt) = map_option (apsnd (put_udp s)) (getCapture msg want rt)"
  unfolding getCapture_def
  by (intro bind_put) (auto intro!: bind_put simp: path_simps split: option.split)

lemma Calibrate_udp [path_simps]:
  "Calibrate refine timeout (put_udp s rt) = map_option (apsnd (put_udp s)) (Calibrate refine timeout rt)"
  unfolding Calibrate_def Let_def
  by (intro bind_put) (auto intro!: bind_put simp: path_simps split: option.split sum.split)

lemma Led_udp [path_simps]: "Led n mode color (put_udp s rt) = map_option (apsnd (put_udp s)) (Led n mode color rt)"
  unfolding Led_def Let_def
  by (intro bind_pure) (auto simp: path_simps split: prod.split)

lemma streamFrames_udp [path_simps]:
  "streamFrames rate val udpPort udpAddr opts components (put_udp s rt)
    = apsnd (put_udp s) (streamFrames rate val udpPort udpAddr opts components rt)"
  by (auto simp: streamFrames_def path_simps split: sum.split prod.split)

subsection \<open>The UDP socket does not see the connection\<close>

lemma put_tcp_simps [simp]:
  "rt_udpConn (put_tcp s rt) = rt_udpConn rt" "rt_udpBuffer (put_tcp s rt) = rt_udpBuffer rt"
  "rt_now (put_tcp s rt) = rt_now rt" "rt_order (put_tcp s rt) = rt_order rt"
  "rt_readTimeout (put_tcp s rt) = rt_readTimeout rt"
  "(put_tcp s rt)\<lparr>rt_udpConn := u, rt_now := t, rt_udpBuffer := b\<rparr> =
    put_tcp s (rt\<lparr>rt_udpConn := u, rt_now := t, rt_udpBuffer := b\<rparr>)"
  by (simp_all add: put_tcp_def split: prod.split)

lemma ReceiveUDP_tcp: "ReceiveUDP (put_tcp s rt) = map_option (apsnd (put_tcp s)) (ReceiveUDP rt)"
  unfolding ReceiveUDP_def Let_def
  by (auto intro!: bind_pure split: option.split)

lemma udp_part_laws: "put_udp (udp_part rt) rt = rt" "udp_part (put_udp s rt) = s"
  by (simp_all add: put_udp_def udp_part_def)

lemma tcp_part_laws: "put_tcp (tcp_part rt) rt = rt" "tcp_part (put_tcp s rt) = s"
  by (simp_all add: put_tcp_def tcp_part_def split: prod.split)

interpretation receive_path: blind_to udp_part put_udp "ReceiveTimeout d" for d
  by unfold_locales (simp_all add: udp_part_laws path_simps)
interpretation command_path: blind_to udp_part put_udp "SendCommand msg" for msg
  by unfold_locales (simp_all add: udp_part_laws path_simps)
interpretation send_path: blind_to udp_part put_udp "\<lambda>rt. Some (sendCommand msg rt)" for msg
  by unfold_locales (simp_all add: udp_part_laws path_simps)
interpretation version_path: blind_to udp_part put_udp "SetVersion major minor" for major minor
  by unfold_locales (simp_all add: udp_part_laws path_simps)
interpretation server_version_path: blind_to udp_part put_udp GetQTMVersion
  by unfold_locales (simp_all add: udp_part_laws path_simps)
interpretation state_path: blind_to udp_part put_udp GetState
  by unfold_locales (simp_all add: udp_part_laws path_simps)
interpretation udp_path: blind_to tcp_part put_tcp ReceiveUDP
  by unfold_locales (simp_all add: tcp_part_laws ReceiveUDP_tcp)


text \<open>A command between two datagrams does not change the second: only the time matters.\<close>

lemma only_tcp_changed:
  assumes "same_config rt rt'" and "udp_part rt' = udp_part rt"
  shows "rt' = put_tcp (tcp_part rt') (rt\<lparr>rt_now := rt_now rt'\<rparr>)"
  using assms
  by (intro Protocol.equality) (simp_all add: same_config_def udp_part_def tcp_part_def put_tcp_def)

lemma datagram_after_command:
  assumes "SendCommand msg rt = Some (r, rt')"
  shows "map_option fst (ReceiveUDP rt') = map_option fst (ReceiveUDP (rt\<lparr>rt_now := rt_now rt'\<rparr>))"
proof -
  have "rt' = put_tcp (tcp_part rt') (rt\<lparr>rt_now := rt_now rt'\<rparr>)"
    using sendCommandOp.keeps_config [OF assms] command_path.keeps [OF assms] by (rule only_tcp_changed)
  then have "ReceiveUDP rt' = map_option (apsnd (put_tcp (tcp_part rt'))) (ReceiveUDP (rt\<lparr>rt_now := rt_now rt'\<rparr>))"
    by (metis ReceiveUDP_tcp)
  then show ?thesis by (simp add: option.map_comp comp_def)
qed

subsection \<open>Properties\<close>

text \<open>
  C30: The TCP path and the UDP path share nothing: whatever is put in place of the UDP socket and its
  buffer, receiving over TCP and every command that uses the connection gives the same result, takes
  the same time, has the same effect on the connection and leaves the UDP side as it is; and whatever
  is put in place of the connection, its receive buffer and the last events, receiving a datagram
  gives the same result and leaves them as they are.
\<close>

theorem paths_independent:
  "blind put_udp (ReceiveTimeout d)
   \<and> blind put_udp (SendCommand msg)
   \<and> blind put_udp (sendAndWaitForResponse sendCommand msg expected)
   \<and> blind put_udp (sendAndWaitForResponse sendXML msg expected)
   \<and> blind put_udp (SetVersion major minor)
   \<and> blind put_udp GetState
   \<and> blind put_udp (GetParametersWithOptions opts ps)
   \<and> blind put_udp (getCapture msg want)
   \<and> blind put_udp (Calibrate refine timeout)
   \<and> blind put_udp (Led cameraNumber mode color)
   \<and> blind put_udp (\<lambda>rt. Some (streamFrames rate val udpPort udpAddr copts components rt))
   \<and> blind put_tcp ReceiveUDP"
  by (simp add: blind_def path_simps ReceiveUDP_tcp)

end
