(* ===== verification/Datagram_Session.thy ===== *)
theory Datagram_Session
  imports Session Data_Paths
begin

text \<open>
  The streaming program over UDP, from the first dial to the interrupt: the handshake and the
  request go over the connection, the frames come as datagrams. Nothing reads the connection
  once the frames stream.
\<close>

subsection \<open>Receiving datagrams\<close>

definition udp_waiting :: "int \<Rightarrow> (int \<times> (err + bytes)) list \<Rightarrow> Protocol \<Rightarrow> bool" where
  "udp_waiting t q rt \<longleftrightarrow> hears rt q \<and> (case q of [] \<Rightarrow> True | (t', d) # q \<Rightarrow> t \<le> t')"

lemma udp_timed: "timed_source ReceiveUDP udp_waiting udp_kept"
proof
  show "\<exists>rt'. ReceiveUDP rt = Some ((zero_Packet\<lparr>pk_Type := PacketTypeNoMoreData\<rparr>, None), rt') \<and> udp_waiting t q rt'
      \<and> rt_now rt' = rt_now rt + rt_readTimeout rt \<and> udp_kept rt rt'"
    if "udp_waiting t q rt" "rt_now rt + rt_readTimeout rt \<le> t" for t q rt
    using udp_quiet [of rt q] that by (auto simp: udp_waiting_def split: list.splits)
qed (auto simp: udp_waiting_def hears_def udp_kept_def)

interpretation udp: timed_source ReceiveUDP udp_waiting udp_kept
  by (rule udp_timed)

interpretation udp_rounds: receive_loop ReceiveUDP udp_waiting udp_kept "session_loop ReceiveUDP interrupt out"
    "\<lambda>t. \<not> late interrupt t" for interrupt out
  by unfold_locales (rule session_quiet late_before, assumption+)+

text \<open>Frames as datagrams, one packet each.\<close>

definition datagrams :: "byte_order \<Rightarrow> (int \<times> u64 \<times> u32 \<times> (u32 \<times> bytes) list) list \<Rightarrow> (int \<times> (err + bytes)) list" where
  "datagrams ord frames = map (\<lambda>(t, timestamp, frame, comps).
     (t, Inr (enc_packet ord PacketTypeData (enc_frame ord timestamp frame comps)))) frames"

lemma frame_datagram:
  assumes "hears rt ((t, Inr (enc_packet (rt_order rt) PacketTypeData (enc_frame (rt_order rt) timestamp frame comps))) # q)"
    and "t < rt_now rt + rt_readTimeout rt" and "list_all2 decodes comps objs" and "length comps < 2 ^ 32"
    and "packetHeaderSize + length (enc_frame (rt_order rt) timestamp frame comps) \<le> maxUDPDatagramSize"
  shows "\<exists>p rt'. ReceiveUDP rt = Some ((p, None), rt') \<and> pk_Type p = PacketTypeData \<and> frame_lines (pk_Data p) = printed frame objs
    \<and> hears rt' q \<and> rt_now rt' = max (rt_now rt) t \<and> udp_kept rt rt'"
proof -
  let ?ord = "rt_order rt"
  let ?data = "enc_packet ?ord PacketTypeData (enc_frame ?ord timestamp frame comps)"
  obtain e p where dec: "Packet_UnmarshalBinary (zero_Packet\<lparr>pk_order := Some ?ord\<rparr>) ?data = Some (e, p)"
    using Packet_returns by (auto simp: runs_def) blast
  from packet_result_frame [OF assms(3,4), of ?ord timestamp frame] dec
  have p: "e = None" "pk_Type p = PacketTypeData" "dp_Frame (pk_Data p) = frame" "dp_Components (pk_Data p) = objs"
    by (auto simp: frame_packet_def packet_result_def receive_result_def split: option.splits if_splits)
  then have "frame_lines (pk_Data p) = printed frame objs" by (simp add: frame_lines_printed)
  with udp_datagram_decoded [OF assms(1,2) _ _ dec] assms(5) p(1,2) show ?thesis by auto
qed

text \<open>Each frame is printed, however long the pauses; with nothing more to come the loop waits for the interrupt.\<close>

lemma datagrams_printed:
  assumes "hears rt (datagrams (rt_order rt) frames)" and "rt_now rt < I"
    and "list_all2 (\<lambda>(t, timestamp, frame, comps) objs. length comps < 2 ^ 32 \<and> list_all2 decodes comps objs) frames objss"
    and "list_all (\<lambda>(t, timestamp, frame, comps). t < I
      \<and> packetHeaderSize + length (enc_frame (rt_order rt) timestamp frame comps) \<le> maxUDPDatagramSize) frames"
  shows "\<exists>rt'. session_loop ReceiveUDP (Some I) out rt = Some ((None,
      out @ concat (map2 (\<lambda>(t, timestamp, frame, comps) objs. printed frame objs) frames objss)), rt')"
  using assms
proof (induction frames arbitrary: rt objss out)
  case Nil
  then have "udp_waiting (I + rt_readTimeout rt) [] rt" by (simp add: udp_waiting_def datagrams_def)
  from udp_rounds.stops [OF this, of "Some I" out] obtain rt' where
    "session_loop ReceiveUDP (Some I) out rt = session_loop ReceiveUDP (Some I) out rt'" "late (Some I) (rt_now rt')"
    by (auto simp: late_def)
  then show ?case by (subst (asm) (2) session_loop.simps) simp
next
  case (Cons x frames)
  obtain t timestamp frame comps where x: "x = (t, timestamp, frame, comps)" by (cases x)
  from Cons.prems(3) obtain objs objss' where objss: "objss = objs # objss'"
    and dec: "list_all2 decodes comps objs" "length comps < 2 ^ 32"
    and rest: "list_all2 (\<lambda>(t, timestamp, frame, comps) objs. length comps < 2 ^ 32 \<and> list_all2 decodes comps objs) frames objss'"
    by (auto simp: x list_all2_Cons1)
  let ?ord = "rt_order rt"
  let ?d = "(t, Inr (enc_packet ?ord PacketTypeData (enc_frame ?ord timestamp frame comps)))"
  let ?lines = "out @ printed frame objs"
  have w: "udp_waiting t (?d # datagrams ?ord frames) rt"
    using Cons.prems(1) by (simp add: udp_waiting_def datagrams_def x)
  have l: "\<not> late (Some I) (max (rt_now rt) t)" using Cons.prems(2,4) by (auto simp: x late_def)
  from udp_rounds.reaches [OF w l, of out] obtain rt0 where
    rt0: "session_loop ReceiveUDP (Some I) out rt = session_loop ReceiveUDP (Some I) out rt0" "\<not> late (Some I) (rt_now rt0)"
      "hears rt0 (?d # datagrams ?ord frames)" "t < rt_now rt0 + rt_readTimeout rt0" "max (rt_now rt0) t = max (rt_now rt) t"
      "udp_kept rt rt0"
    by (auto simp: udp_waiting_def)
  then have ord: "rt_order rt0 = ?ord" by (simp add: udp_kept_def)
  from frame_datagram [of rt0 t timestamp frame comps "datagrams ?ord frames", OF _ rt0(4) dec] rt0(3) Cons.prems(4) obtain p rt1 where
    r: "ReceiveUDP rt0 = Some ((p, None), rt1)" "pk_Type p = PacketTypeData" "frame_lines (pk_Data p) = printed frame objs"
    and rt1: "hears rt1 (datagrams ?ord frames)" "rt_now rt1 = max (rt_now rt0) t" "udp_kept rt0 rt1"
    by (auto simp: ord x)
  then have "session_loop ReceiveUDP (Some I) out rt0 = session_loop ReceiveUDP (Some I) ?lines rt1"
    using rt0(2) by (subst session_loop.simps) (simp add: EndOfData_def handlePacket_def)
  moreover have ord1: "rt_order rt1 = ?ord" using rt1(3) ord by (simp add: udp_kept_def)
  moreover have "rt_now rt1 < I" using Cons.prems(2,4) by (simp add: rt1(2) rt0(5) x)
  ultimately show ?case
    using Cons.IH [of rt1 objss' ?lines] rt0(1) rt1(1) rest Cons.prems(4) by (simp add: objss x)
qed

subsection \<open>The buffer of the UDP path\<close>

lemma try_versions_buffer:
  "try_versions vs lastErr rt = Some (None, rt') \<Longrightarrow> rt_udpBuffer rt' = rt_udpBuffer rt"
proof (induction vs lastErr rt rule: try_versions.induct)
  case (2 major minor vs lastErr rt)
  from 2(2) obtain e rt1 where v: "SetVersion major minor rt = Some (e, rt1)" by (auto simp: bind_eq_Some_conv)
  from version_path.keeps [OF v] have keep: "rt_udpBuffer rt1 = rt_udpBuffer rt" by (simp add: udp_part_def)
  show ?case
  proof (cases e)
    case None
    with 2(2) v obtain r where "GetState rt1 = Some (r, rt')" by (auto simp: bind_eq_Some_conv)
    from state_path.keeps [OF this] keep show ?thesis by (simp add: udp_part_def)
  next
    case (Some x)
    with 2(1) [OF v refl, of x] 2(2) v keep show ?thesis by auto
  qed
qed (simp add: Let_def)

lemma Connect_buffer:
  assumes "Connect dial rt = Some (None, rt')"
  shows "rt_udpBuffer rt' = rt_udpBuffer rt"
proof -
  obtain d now where dial: "dial (dial_address rt) (rt_connectTimeout rt) (rt_now rt) = (d, now)" by fastforce
  with assms Connect_failed_dial [of dial rt _ now] obtain c where "d = Inr c" by (cases d) auto
  note conn = assms [unfolded Connect_dialled [of dial rt c now, OF dial [unfolded this]]]
  then obtain p rt1 where "ReceiveTimeout (rt_connectTimeout rt) (dialled c now rt) = Some ((p, None), rt1)"
    and "try_versions (versionCandidates rt1) None rt1 = Some (None, rt')"
    by (auto simp: bind_eq_Some_conv split: option.splits if_splits)
  from receive_path.keeps [OF this(1)] try_versions_buffer [OF this(2)] show ?thesis
    by (auto simp: udp_part_def dialled_def Disconnect_def Let_def)
qed

subsection \<open>The whole run\<close>

definition udp_request :: "int \<Rightarrow> string" where
  "udp_request p = ''StreamFrames AllFrames UDP:'' @ Itoa p @ '' 6DEulerRes''"

lemma start_streaming_udp:
  assumes "idle T peer rt" and "replies (rt_order rt) peer (udp_request p) answer" and "sf_udp flags"
    and "listenUDP 0 = Inr u" and "ud_port u = Some p" and "p \<in> {1..65535}" and "ud_deadline_err u = None"
    and "rt_udpBuffer rt = None"
  shows "\<exists>rt'. start_streaming listenUDP flags rt = (Inr ReceiveUDP, rt') \<and> hears rt' (ud_inbox u)
    \<and> rt_order rt' = rt_order rt \<and> rt_now rt' = T"
proof -
  define rt0 where "rt0 = (if rt_udpConn rt \<noteq> None then close_udp rt else rt)"
  define rt1 where "rt1 = rt0\<lparr>rt_udpConn := Some u, rt_sockets := rt_sockets rt0 + 1\<rparr>"
  have e: "EnableUDPStream listenUDP 0 rt = ((p, None), rt1)"
    using assms(4,5) by (simp add: EnableUDPStream_def rt0_def rt1_def Let_def)
  have rt1: "idle T peer rt1" "rt_order rt1 = rt_order rt" "rt_udpBuffer rt1 = None" "rt_udpConn rt1 = Some u"
    "0 < rt_readTimeout rt1"
    using assms(1,8) by (auto simp: rt1_def rt0_def close_udp_def idle_def awaits_def bound_to_def)
  have "replies (rt_order rt1) peer (udp_request p) answer" using assms(2) rt1(2) by simp
  from idle_sends [OF rt1(1) this] obtain rt' where s: "sendCommand (udp_request p) rt1 = (None, rt')"
    "same_config rt1 rt'" "rt_now rt' = T" by blast
  have cmd: "stream_command StreamRateTypeAllFrames 0 p '''' (zero_ComponentOptions\<lparr>co_AnalogChannels := ch\<rparr>)
      [ComponentType6DEulerResidual] = Inr (udp_request p)" for ch
    using assms(6)
    by (simp add: stream_command_def rate_string_def udp_string_def componentString_def component_part_def componentName_def
        udp_request_def)
  have "start_streaming listenUDP flags rt = (Inr ReceiveUDP, rt')"
    using assms(3,6) s(1) e by (simp add: start_streaming_def StreamFramesUDP_def streamFrames_def cmd wrap_err_def)
  moreover have "udp_part rt' = udp_part rt1" using send_path.keeps s(1) by simp
  with rt1 s(2) assms(7) have "hears rt' (ud_inbox u)" by (simp add: hears_def udp_part_def same_config_def)
  ultimately show ?thesis using s(2,3) rt1(2) by (simp add: same_config_def)
qed

text \<open>
  C5: Over UDP the streaming program prints every frame as well, but nothing it receives ends it:
  it asks for the frames on the port of its own socket, prints each datagram's frame once and in
  order, whatever the pauses, and goes on until it is interrupted, without an error and leaving
  nothing open. What the server sends over the connection in the meantime is never read, not even
  the announcement that QTM shuts down, which ends a run over TCP.
\<close>

theorem udp_run_works:
  assumes "server_address (sf_addr flags) (sf_port flags) interfaces sock = Some (ip, basePort)" and "sf_udp flags"
    and "dial (dial_address (NewProtocol ip basePort [])) DefaultConnectTimeout 0 = (Inr c, T)"
    and "welcome_conn LittleEndian T peer c" and "greets LittleEndian accepts state peer"
    and "accepts (DefaultMajorVersion, minor)" and "minor \<in> {MinSupportedMinorVersion..DefaultMinorVersion}"
    and "replies LittleEndian peer ''QTMVersion'' [(0, PacketTypeCommand, to_bytes version @ [0])]" and "length version < 4000"
    and "listenUDP 0 = Inr u" and "ud_port u = Some p" and "p \<in> {1..65535}" and "ud_deadline_err u = None"
    and "replies LittleEndian peer (udp_request p) answer" and "ud_inbox u = datagrams LittleEndian frames"
    and "list_all (\<lambda>(t, timestamp, frame, comps). t < I
      \<and> packetHeaderSize + length (enc_frame LittleEndian timestamp frame comps) \<le> maxUDPDatagramSize) frames"
    and "list_all2 (\<lambda>(t, timestamp, frame, comps) objs. length comps < 2 ^ 32 \<and> list_all2 decodes comps objs) frames objss"
    and "T < I"
  shows "\<exists>rt. streaming_run interfaces sock dial listenUDP (Some I) flags = Some ((None,
      concat (map2 (\<lambda>(t, timestamp, frame, comps) objs. printed frame objs) frames objss)), rt)
    \<and> \<not> IsConnected rt \<and> rt_sockets rt = 0"
proof -
  from fresh_negotiates [where accepts = accepts, OF assms(6,7)] obtain v where
    v: "List.find accepts (versionCandidates (fresh ip basePort)) = Some v" by blast
  from fresh_Connect [where dial = dial and accepts = accepts, OF assms(3-5) v] obtain rt1 where
    c: "Connect dial (fresh ip basePort) = Some (None, rt1)" and rt1: "idle T peer rt1" "rt_order rt1 = LittleEndian"
    and fit: "fits (fresh ip basePort) q \<Longrightarrow> fits rt1 q" for q by blast
  have "fits rt1 (PacketTypeCommand, to_bytes version @ [0])" using assms(9) by (intro fit) (simp add: fresh_fits)
  from idle_GetQTMVersion [OF rt1(1) _ this] assms(8) rt1(2) obtain r rt2 where
    q: "GetQTMVersion rt1 = Some (r, rt2)" and rt2: "idle T peer rt2" "same_config rt1 rt2" by auto
  have ord: "rt_order rt2 = LittleEndian" using rt2(2) rt1(2) by (simp add: same_config_def)
  have "rt_udpBuffer rt2 = rt_udpBuffer rt1" using server_version_path.keeps [OF q] by (simp add: udp_part_def)
  with Connect_buffer [OF c] have buf: "rt_udpBuffer rt2 = None" by (simp add: NewProtocol_def)
  have "replies (rt_order rt2) peer (udp_request p) answer" using assms(14) ord by simp
  from start_streaming_udp [where listenUDP = listenUDP, OF rt2(1) this assms(2,10-13) buf] obtain rt3 where
    s: "start_streaming listenUDP flags rt2 = (Inr ReceiveUDP, rt3)" and rt3: "hears rt3 (ud_inbox u)"
      "rt_order rt3 = LittleEndian" "rt_now rt3 = T" by (auto simp: ord)
  have "hears rt3 (datagrams (rt_order rt3) frames)" "rt_now rt3 < I" using rt3 assms(15,18) by simp_all
  from datagrams_printed [OF this assms(17), of "[]"] assms(16) obtain rt4 where
    "session_loop ReceiveUDP (Some I) [] rt3 = Some ((None,
      concat (map2 (\<lambda>(t, timestamp, frame, comps) objs. printed frame objs) frames objss)), rt4)"
    by (auto simp: rt3(2))
  then have run: "streaming_session listenUDP (Some I) flags rt1 = Some ((None,
      concat (map2 (\<lambda>(t, timestamp, frame, comps) objs. printed frame objs) frames objss)), rt4)"
    using q s by (simp add: streaming_session_def)
  have "client_ok (fresh ip basePort)" by (rule start_ok) simp
  from Disconnect_closes [OF session_ok [OF run Connect_ok [OF c this]]] run c assms(1) show ?thesis
    by (simp add: streaming_run_def)
qed

text \<open>The server of the run over TCP: its frames and the shutdown stay unread on the connection.\<close>

definition demo_datagrams :: udp_conn where
  "demo_datagrams = \<lparr>ud_inbox = datagrams LittleEndian demo_frames, ud_deadline = None, ud_deadline_err = None,
     ud_port = Some 4000\<rparr>"

theorem udp_run_works_witness:
  "\<exists>rt. streaming_run (Inr []) demo_socket session_dial (\<lambda>p. Inr demo_datagrams) (Some (60 * Second))
      \<lparr>sf_addr = ''qtm'', sf_port = 22222, sf_udp = True, sf_channels = ''''\<rparr> = Some ((None,
      concat (map2 (\<lambda>(t, timestamp, frame, comps) objs. printed frame objs) demo_frames
        [[demo_object, ObjUnknown 99 [1, 2, 3]], []])), rt)
    \<and> \<not> IsConnected rt \<and> rt_sockets rt = 0"
proof (rule udp_run_works [where ip = "''qtm''" and basePort = 22222 and minor = 25 and c = session_conn and T = 1
      and version = "''QTM 2025.1''" and accepts = "\<lambda>v. True" and state = 1 and p = 4000 and u = demo_datagrams
      and answer = "last_frames LittleEndian demo_frames (30 * Second)"])
  show "greets LittleEndian (\<lambda>v. True) 1 session_server"
    "replies LittleEndian session_server ''QTMVersion'' [(0, PacketTypeCommand, to_bytes ''QTM 2025.1'' @ [0])]"
    using session_server_serves by (simp_all add: serves_def)
  show "replies LittleEndian session_server (udp_request 4000) (last_frames LittleEndian demo_frames (30 * Second))"
    by (simp add: answers_with_def session_server_def frame_string_def udp_request_def Let_def to_bytes_def)
  have "length demo_payload = 28" by (simp add: demo_payload_def)
  then show "list_all (\<lambda>(t, timestamp, frame, comps). t < 60 * Second
      \<and> packetHeaderSize + length (enc_frame LittleEndian timestamp frame comps) \<le> maxUDPDatagramSize) demo_frames"
    by (simp add: demo_frames_def enc_frame_def enc_component_def demo_components_def)
  show "list_all2 (\<lambda>(t, timestamp, frame, comps) objs. length comps < 2 ^ 32 \<and> list_all2 decodes comps objs) demo_frames
      [[demo_object, ObjUnknown 99 [1, 2, 3]], []]"
    using demo_decodes by (simp add: demo_frames_def demo_components_def)
qed (simp_all add: server_address_def session_dial_def session_conn_def welcome_conn_def demo_conn_def demo_datagrams_def)

end
