(* ===== verification/Lifecycle.thy ===== *)
theory Lifecycle
  imports Client
begin

text \<open>
  The life of a client, as a small abstract machine: whether there is a connection, with which
  version of the protocol, and whether the UDP socket is open. The client of the other theories
  refines it: every run of calls is a run of the machine with the same outcomes.
\<close>

subsection \<open>Runs and simulations\<close>

inductive run :: "('a \<Rightarrow> 's \<Rightarrow> 's \<Rightarrow> bool) \<Rightarrow> 'a list \<Rightarrow> 's \<Rightarrow> 's \<Rightarrow> bool" for step where
  stop: "run step [] s s"
| go: "step a s s' \<Longrightarrow> run step as s' s'' \<Longrightarrow> run step (a # as) s s''"

inductive_simps run_simps: "run step [] s s'" "run step (a # as) s s'"

text \<open>
  A forward simulation: along the steps of the concrete machine from a good state, the state
  stays good and its abstraction makes a step of the abstract machine with the same label.
\<close>

locale simulation =
  fixes concrete :: "'a \<Rightarrow> 's \<Rightarrow> 's \<Rightarrow> bool" and abstract :: "'a \<Rightarrow> 't \<Rightarrow> 't \<Rightarrow> bool"
    and abs :: "'s \<Rightarrow> 't" and good :: "'s \<Rightarrow> bool"
  assumes step_good: "concrete a s s' \<Longrightarrow> good s \<Longrightarrow> good s'"
    and step_simulated: "concrete a s s' \<Longrightarrow> good s \<Longrightarrow> abstract a (abs s) (abs s')"
begin

lemma run_simulated: "run concrete as s s' \<Longrightarrow> good s \<Longrightarrow> good s' \<and> run abstract as (abs s) (abs s')"
  by (induction rule: run.induct) (auto intro: run.intros step_good step_simulated)

end

subsection \<open>The abstract machine\<close>

text \<open>The negotiated version when there is a connection, and whether the UDP socket is open.\<close>

datatype link = Link (link_version: "(int \<times> int) option") (link_udp: bool)

inductive link_step :: "(int \<times> int) list \<Rightarrow> action \<Rightarrow> link \<Rightarrow> link \<Rightarrow> bool" for ladder where
  dialled: "v \<in> set ladder \<Longrightarrow> link_step ladder (Dialled (Some v)) (Link w u) (Link (Some v) (u \<and> w = None))"
| dial_failed: "u' \<longrightarrow> u \<and> w = None \<Longrightarrow> link_step ladder (Dialled None) (Link w u) (Link None u')"
| hung_up: "link_step ladder HungUp s (Link None False)"
| version_set: "link_step ladder (VersionSet v True) (Link (Some w) u) (Link (Some v) u)"
| version_refused: "link_step ladder (VersionSet v False) s s"
| udp_enabled: "link_step ladder (UDPEnabled ok) (Link w u) (Link w ok)"
| exchanged: "link_step ladder Exchanged s s"

inductive_cases link_stepE: "link_step ladder a s s'"

text \<open>What a history of calls says about the connection.\<close>

fun version_after :: "(int \<times> int) option \<Rightarrow> action \<Rightarrow> (int \<times> int) option" where
  "version_after w (Dialled v) = v"
| "version_after w HungUp = None"
| "version_after w (VersionSet v ok) = (if ok then Some v else w)"
| "version_after w (UDPEnabled ok) = w"
| "version_after w Exchanged = w"

lemma link_step_version: "link_step ladder a s s' \<Longrightarrow> link_version s' = version_after (link_version s) a"
  by (induction rule: link_step.induct) simp_all

lemma link_run_version:
  "run (link_step ladder) as s s' \<Longrightarrow> link_version s' = foldl version_after (link_version s) as"
  by (induction rule: run.induct) (simp_all add: link_step_version)

subsection \<open>The client refines it\<close>

definition link_of :: "Protocol \<Rightarrow> link" where
  "link_of rt = Link (if IsConnected rt then Some (Version rt) else None) (rt_udpConn rt \<noteq> None)"

lemma link_of_world: "same_world rt rt' \<Longrightarrow> link_of rt' = link_of rt"
  by (auto simp: link_of_def same_world_def IsConnected_def)

lemma udp_update [simp]:
  "versionCandidates (rt\<lparr>rt_udpConn := u\<rparr>) = versionCandidates rt" "Version (rt\<lparr>rt_udpConn := u\<rparr>) = Version rt"
  "versionCandidates (rt\<lparr>rt_sockets := n\<rparr>) = versionCandidates rt" "Version (rt\<lparr>rt_sockets := n\<rparr>) = Version rt"
  "versionCandidates (rt\<lparr>rt_now := t\<rparr>) = versionCandidates rt"
  by (simp_all add: versionCandidates_def Version_def)

lemma Connect_udp:
  assumes "Connect dial rt = Some (e, rt')"
  shows "(rt_udpConn rt' \<noteq> None \<longrightarrow> rt_udpConn rt \<noteq> None \<and> rt_conn rt = None)
    \<and> (e = None \<longrightarrow> (rt_udpConn rt' \<noteq> None \<longleftrightarrow> rt_udpConn rt \<noteq> None \<and> rt_conn rt = None))
    \<and> versionCandidates rt' = versionCandidates rt"
proof -
  obtain d now where dial: "dial (dial_address rt) (rt_connectTimeout rt) (rt_now rt) = (d, now)" by fastforce
  show ?thesis
  proof (cases d)
    case (Inl x)
    with assms(1) Connect_failed_dial [of dial rt x now] dial have
      "e \<noteq> None" "rt' = (if IsConnected rt then Disconnect rt else rt)\<lparr>rt_now := now\<rparr>" by auto
    then show ?thesis by (simp add: IsConnected_def)
  next
    case (Inr c)
    let ?rt = "dialled c now rt"
    note conn = assms(1) [unfolded Connect_dialled [of dial rt c now, OF dial [unfolded Inr]]]
    then obtain p e1 rt1 where r: "ReceiveTimeout (rt_connectTimeout ?rt) ?rt = Some ((p, e1), rt1)"
      by (auto simp: bind_eq_Some_conv)
    have start: "rt_udpConn ?rt \<noteq> None \<longleftrightarrow> rt_udpConn rt \<noteq> None \<and> rt_conn rt = None"
      by (auto simp: dialled_def IsConnected_def Let_def)
    from ReceiveTimeout_config [OF r] have link: "same_link ?rt rt1" by (rule same_config_link)
    have keep: "rt_udpConn rt2 = rt_udpConn ?rt \<and> versionCandidates rt2 = versionCandidates rt" if "same_link rt1 rt2" for rt2
      using same_link_trans [OF link that] versionCandidates_link [OF same_link_trans [OF link that]]
      by (simp add: same_link_def same_config_def)
    show ?thesis
    proof (cases "e1 = None \<and> pk_CommandResponse p = qtmConnectedResponse")
      case True
      with conn r have "try_versions (versionCandidates rt1) None rt1 = Some (e, rt')" by simp
      from try_versions_result [OF this] show ?thesis
      proof (elim disjE exE conjE)
        fix x rt2
        assume "e = Some x" "same_link rt1 rt2" "rt' = Disconnect rt2"
        with keep [of rt2] show ?thesis by simp
      qed (use keep [of rt'] start in auto)
    next
      case False
      with conn r have "e \<noteq> None" "rt' = Disconnect rt1" by (auto split: option.splits if_splits)
      with keep [OF same_link_refl] show ?thesis by auto
    qed
  qed
qed

lemma Connect_link:
  assumes "Connect dial rt = Some (e, rt')" and "client_ok rt"
  shows "link_step (versionCandidates rt) (Dialled (if e = None then Some (Version rt') else None)) (link_of rt) (link_of rt')
    \<and> versionCandidates rt' = versionCandidates rt"
proof -
  from assms(2) have ok: "no_leak rt" by (simp add: client_ok_def)
  note result = Connect_result [OF assms(1) ok]
  note udp = Connect_udp [OF assms(1)]
  show ?thesis
  proof (cases e)
    case None
    with result have v: "Version rt' \<in> set (versionCandidates rt)" and c: "IsConnected rt'" by blast+
    from udp None have u: "(rt_udpConn rt' \<noteq> None) = (rt_udpConn rt \<noteq> None \<and> rt_conn rt = None)" by blast
    have eq: "link_of rt' = Link (Some (Version rt')) (rt_udpConn rt \<noteq> None \<and> (if IsConnected rt then Some (Version rt) else None) = None)"
      unfolding link_of_def u by (simp add: c) (simp add: IsConnected_def)
    have "link_step (versionCandidates rt) (Dialled (Some (Version rt'))) (link_of rt) (link_of rt')"
      unfolding eq link_of_def [of rt] by (rule link_step.dialled [OF v])
    with None udp show ?thesis by simp
  next
    case (Some x)
    with result have "link_of rt' = Link None (rt_udpConn rt' \<noteq> None)" by (simp add: link_of_def)
    moreover have "rt_udpConn rt' \<noteq> None \<longrightarrow> rt_udpConn rt \<noteq> None \<and> (if IsConnected rt then Some (Version rt) else None) = None"
      using udp by (simp add: IsConnected_def)
    ultimately have "link_step (versionCandidates rt) (Dialled None) (link_of rt) (link_of rt')"
      unfolding link_of_def [of rt] by (simp only: link_step.dial_failed)
    with Some udp show ?thesis by simp
  qed
qed

lemma SetVersion_link_step:
  assumes "SetVersion major minor rt = Some (e, rt')"
  shows "link_step ladder (VersionSet (major, minor) (e = None)) (link_of rt) (link_of rt')"
proof -
  note link = SetVersion_link [OF assms]
  then have keep: "rt_udpConn rt' = rt_udpConn rt" "IsConnected rt' = IsConnected rt"
    by (auto simp: same_link_def same_config_def IsConnected_def)
  show ?thesis
  proof (cases e)
    case None
    with assms setVersion.not_connected [of rt major minor e rt'] have "IsConnected rt" by (auto simp: IsConnected_def)
    with keep None link link_step.version_set [of ladder "(major, minor)" "Version rt"] show ?thesis
      by (simp add: link_of_def)
  next
    case (Some x)
    with keep link have "link_of rt' = link_of rt" by (simp add: link_of_def)
    with Some link_step.version_refused show ?thesis by simp
  qed
qed

lemma EnableUDPStream_keeps:
  assumes "EnableUDPStream listenUDP p rt = ((local, e), rt')"
  shows "rt_conn rt' = rt_conn rt \<and> Version rt' = Version rt \<and> versionCandidates rt' = versionCandidates rt
    \<and> (rt_udpConn rt' \<noteq> None \<longleftrightarrow> e = None)"
proof -
  define rt0 where "rt0 = (if rt_udpConn rt \<noteq> None then close_udp rt else rt)"
  have rt0: "rt_conn rt0 = rt_conn rt" "Version rt0 = Version rt" "versionCandidates rt0 = versionCandidates rt"
    "rt_udpConn rt0 = None"
    by (simp_all add: rt0_def close_udp_def)
  note def = assms [unfolded EnableUDPStream_def Let_def, folded rt0_def]
  show ?thesis
  proof (cases "listenUDP p")
    case (Inl x)
    with def have "rt' = rt0" "e \<noteq> None" by auto
    with rt0 show ?thesis by simp
  next
    case (Inr u)
    let ?open = "rt0\<lparr>rt_udpConn := Some u, rt_sockets := rt_sockets rt0 + 1\<rparr>"
    from def Inr have "(rt' = ?open \<and> e = None) \<or> (rt' = close_udp ?open \<and> e \<noteq> None)"
      by (cases "ud_port u") auto
    then show ?thesis
      using rt0 by (elim disjE conjE) (simp_all add: close_udp_def)
  qed
qed

lemma EnableUDPStream_link:
  assumes "EnableUDPStream listenUDP p rt = ((local, e), rt')"
  shows "link_step ladder (UDPEnabled (e = None)) (link_of rt) (link_of rt')"
proof -
  from EnableUDPStream_keeps [OF assms]
  have "link_of rt' = Link (if IsConnected rt then Some (Version rt) else None) (e = None)"
    by (simp add: link_of_def IsConnected_def)
  then show ?thesis using link_step.udp_enabled [of ladder "e = None"] by (simp add: link_of_def)
qed

lemma SetVersion_candidates: "SetVersion major minor rt = Some (e, rt') \<Longrightarrow> versionCandidates rt' = versionCandidates rt"
  by (simp add: SetVersion_link versionCandidates_link)

lemma client_link_step:
  assumes "client_step a rt rt'" and "client_ok rt"
  shows "link_step (versionCandidates rt) a (link_of rt) (link_of rt') \<and> versionCandidates rt' = versionCandidates rt"
  using assms
proof (cases rule: client_step.cases)
  case (connect dial e)
  with Connect_link [of dial rt e rt'] assms(2) show ?thesis by simp
next
  case disconnect
  then show ?thesis using link_step.hung_up by (simp add: link_of_def IsConnected_def)
next
  case (set_version major minor e)
  then show ?thesis by (simp add: SetVersion_link_step SetVersion_candidates)
next
  case (enable_udp listenUDP p local e)
  then show ?thesis by (simp add: EnableUDPStream_link EnableUDPStream_keeps)
next
  case exchanged
  from exchange_world [OF exchanged(2)] show ?thesis
    using exchanged(1) link_step.exchanged by (simp add: link_of_world) (simp add: same_world_def)
qed

interpretation lifecycle: simulation client_step "link_step ladder" link_of
  "\<lambda>rt. client_ok rt \<and> versionCandidates rt = ladder" for ladder
  by unfold_locales (use client_step_ok client_link_step in blast)+

lemma options_link:
  "(\<And>opt. opt \<in> set opts \<Longrightarrow> is_option opt) \<Longrightarrow> link_of (foldl (\<lambda>rt opt. opt rt) rt opts) = link_of rt"
proof (induction opts arbitrary: rt)
  case (Cons opt opts)
  have "is_option opt \<Longrightarrow> link_of (opt rt) = link_of rt"
    by (induction rule: is_option.induct)
      (simp_all add: link_of_def IsConnected_def Version_def WithVersion_def WithoutVersionNegotiation_def
        WithBigEndian_def WithReadTimeout_def WithConnectTimeout_def WithMaxPacketSize_def)
  with Cons show ?case by simp
qed simp

text \<open>
  C10: The client refines the machine of its life cycle. In every run of calls, in any order and
  with any outcomes, a successful \<open>Connect\<close> ends at a version of the ladder and a failed one
  without a connection; the version changes only by \<open>Connect\<close>, \<open>Disconnect\<close> and an accepted
  \<open>SetVersion\<close>; the UDP socket outlives neither a \<open>Disconnect\<close> nor a reconnection; and no other
  call, no data and no error changes any of it. So whether the client reports a connection, and
  with which version, is what the outcomes of the calls say.
\<close>

theorem lifecycle_refined:
  assumes "\<And>opt. opt \<in> set opts \<Longrightarrow> is_option opt"
    and "run client_step actions (NewProtocol ip basePort opts) rt"
  shows "run (link_step (versionCandidates (NewProtocol ip basePort opts))) actions (Link None False) (link_of rt)
    \<and> (if IsConnected rt then Some (Version rt) else None) = foldl version_after None actions"
proof -
  let ?rt = "NewProtocol ip basePort opts"
  have start: "link_of ?rt = Link None False"
    unfolding NewProtocol_def using assms(1) by (subst options_link) (simp_all add: link_of_def IsConnected_def)
  have "client_ok ?rt" using assms(1) by (rule start_ok)
  with lifecycle.run_simulated [OF assms(2)] start
  have "run (link_step (versionCandidates ?rt)) actions (Link None False) (link_of rt)" by simp
  with link_run_version [OF this] show ?thesis by (simp add: link_of_def)
qed

theorem lifecycle_refined_witness:
  "\<exists>rt. Connect demo_dial demo_start = Some (None, rt) \<and> IsConnected rt \<and> Version rt = (1, 25)
    \<and> link_of (Disconnect rt) = Link None False"
proof -
  obtain rt where c: "Connect demo_dial demo_start = Some (None, rt)" and v: "Version rt = (1, 25)"
    using Connect_negotiated [where dial = demo_dial and accepts = only_125, OF demo_handshake] demo_found by auto
  have "run client_step [Dialled (Some (Version rt))] demo_start rt"
    using client_step.connect [OF c] by (simp add: run_simps)
  from lifecycle_refined [OF _ this] v have "IsConnected rt" by (simp split: if_splits)
  moreover have "run client_step [Dialled (Some (Version rt)), HungUp] demo_start (Disconnect rt)"
    using client_step.connect [OF c] client_step.disconnect [of rt] by (auto simp: run_simps)
  from lifecycle_refined [OF _ this] have "run (link_step (versionCandidates demo_start))
    [Dialled (Some (Version rt)), HungUp] (Link None False) (link_of (Disconnect rt))" by simp
  then have "link_of (Disconnect rt) = Link None False" by (auto simp: run_simps elim: link_stepE)
  ultimately show ?thesis using c v by blast
qed

end
