(* ===== verification/Settings_XML.thy ===== *)
theory Settings_XML
  imports Go_Errors
begin

text \<open>
  The helpers of \<open>pkg/settings\<close>, which take the names of the 3D labels and of the 6D bodies out of
  the settings XML. They call \<open>xml.Unmarshal\<close> with tagged structs. The tokenizer of
  \<open>encoding/xml\<close> is a parameter: a document is the tokens before the first error, and that
  error (the end of the input or a syntax error); as the package promises, an end tag is only
  delivered when it closes the last open element. What \<open>Unmarshal\<close> does with the tokens
  is modelled for the field types the structs use: strings, structs, slices of structs and
  string attributes.
\<close>

subsection \<open>Tokens and elements\<close>

type_synonym attributes = "(string \<times> string) list"

datatype xml_token =
    StartElement string attributes
  | EndElement
  | CharData string
  | Markup

text \<open>Names are local names: a prefix and a name space are of no account to the structs' tags.\<close>

datatype xml_node = Element string attributes "xml_node list" | Text string

type_synonym xml_document = "xml_token list \<times> err"
type_synonym xml_decoder = "string \<Rightarrow> xml_document"

text \<open>
  The first element of the document: the start tags that are open, with what was read inside
  of them in reverse order. \<open>None\<close> when the tokens end before the element does.
\<close>

fun read_element :: "xml_token list \<Rightarrow> (string \<times> attributes \<times> xml_node list) list \<Rightarrow> xml_node option" where
  "read_element [] st = None"
| "read_element (StartElement n as # ts) st = read_element ts ((n, as, []) # st)"
| "read_element (EndElement # ts) [] = None"
| "read_element (EndElement # ts) [(n, as, kids)] = Some (Element n as (rev kids))"
| "read_element (EndElement # ts) ((n, as, kids) # (n', as', kids') # st) =
     read_element ts ((n', as', Element n as (rev kids) # kids') # st)"
| "read_element (CharData s # ts) [] = read_element ts []"
| "read_element (CharData s # ts) ((n, as, kids) # st) = read_element ts ((n, as, Text s # kids) # st)"
| "read_element (Markup # ts) st = read_element ts st"

text \<open>A string field takes the character data directly inside of its element.\<close>

fun char_data :: "xml_node list \<Rightarrow> string" where
  "char_data [] = ''''"
| "char_data (Text s # ns) = s @ char_data ns"
| "char_data (Element n as kids # ns) = char_data ns"

text \<open>
  The fields of a struct are set element by element in the order of the document; an element
  without a field is skipped, and a second one for a field starts from what the first has left.
\<close>

fun set_fields :: "(string \<Rightarrow> attributes \<Rightarrow> xml_node list \<Rightarrow> 's \<Rightarrow> 's) \<Rightarrow> xml_node list \<Rightarrow> 's \<Rightarrow> 's" where
  "set_fields field [] s = s"
| "set_fields field (Text t # ns) s = set_fields field ns s"
| "set_fields field (Element n as kids # ns) s = set_fields field ns (field n as kids s)"

fun set_attributes :: "(string \<Rightarrow> string \<Rightarrow> 's \<Rightarrow> 's) \<Rightarrow> attributes \<Rightarrow> 's \<Rightarrow> 's" where
  "set_attributes field [] s = s"
| "set_attributes field ((n, v) # as) s = set_attributes field as (field n v s)"

subsection \<open>The structs\<close>

record Label =
  lb_Name :: string

definition Label_field :: "string \<Rightarrow> attributes \<Rightarrow> xml_node list \<Rightarrow> Label \<Rightarrow> Label" where
  "Label_field n as kids l = (if n = ''Name'' then l\<lparr>lb_Name := char_data kids\<rparr> else l)"

record Q3DXml =
  q3_Labels :: "Label list"

definition Q3DXml_field :: "string \<Rightarrow> attributes \<Rightarrow> xml_node list \<Rightarrow> Q3DXml \<Rightarrow> Q3DXml" where
  "Q3DXml_field n as kids q =
     (if n = ''Label'' then q\<lparr>q3_Labels := q3_Labels q @ [set_fields Label_field kids \<lparr>lb_Name = ''''\<rparr>]\<rparr> else q)"

record Color =
  cl_R :: string
  cl_G :: string
  cl_B :: string

definition Color_attribute :: "string \<Rightarrow> string \<Rightarrow> Color \<Rightarrow> Color" where
  "Color_attribute n v c =
     (if n = ''R'' then c\<lparr>cl_R := v\<rparr> else if n = ''G'' then c\<lparr>cl_G := v\<rparr> else if n = ''B'' then c\<lparr>cl_B := v\<rparr> else c)"

record XmlPoint =
  xp_Name :: string

definition XmlPoint_attribute :: "string \<Rightarrow> string \<Rightarrow> XmlPoint \<Rightarrow> XmlPoint" where
  "XmlPoint_attribute n v p = (if n = ''Name'' then p\<lparr>xp_Name := v\<rparr> else p)"

record Points =
  ps_Points :: "XmlPoint list"

definition Points_field :: "string \<Rightarrow> attributes \<Rightarrow> xml_node list \<Rightarrow> Points \<Rightarrow> Points" where
  "Points_field n as kids p =
     (if n = ''Point'' then p\<lparr>ps_Points := ps_Points p @ [set_attributes XmlPoint_attribute as \<lparr>xp_Name = ''''\<rparr>]\<rparr> else p)"

record Body =
  bd_Name :: string
  bd_Color :: Color
  bd_Points :: Points
  bd_MaximumResidual :: string
  bd_MinimumMarkersInBody :: string
  bd_BoneLengthTolerance :: string
  bd_Filter :: string

definition zero_Body :: Body where
  "zero_Body = \<lparr>bd_Name = '''', bd_Color = \<lparr>cl_R = '''', cl_G = '''', cl_B = ''''\<rparr>, bd_Points = \<lparr>ps_Points = []\<rparr>,
     bd_MaximumResidual = '''', bd_MinimumMarkersInBody = '''', bd_BoneLengthTolerance = '''', bd_Filter = ''''\<rparr>"

definition Body_field :: "string \<Rightarrow> attributes \<Rightarrow> xml_node list \<Rightarrow> Body \<Rightarrow> Body" where
  "Body_field n as kids b =
     (if n = ''Name'' then b\<lparr>bd_Name := char_data kids\<rparr>
      else if n = ''Color'' then b\<lparr>bd_Color := set_attributes Color_attribute as (bd_Color b)\<rparr>
      else if n = ''Points'' then b\<lparr>bd_Points := set_fields Points_field kids (bd_Points b)\<rparr>
      else if n = ''MaximumResidual'' then b\<lparr>bd_MaximumResidual := char_data kids\<rparr>
      else if n = ''MinimumMarkersInBody'' then b\<lparr>bd_MinimumMarkersInBody := char_data kids\<rparr>
      else if n = ''BoneLengthTolerance'' then b\<lparr>bd_BoneLengthTolerance := char_data kids\<rparr>
      else if n = ''Filter'' then b\<lparr>bd_Filter := char_data kids\<rparr>
      else b)"

record Q6DXml =
  q6_Bodies :: "Body list"

definition Q6DXml_field :: "string \<Rightarrow> attributes \<Rightarrow> xml_node list \<Rightarrow> Q6DXml \<Rightarrow> Q6DXml" where
  "Q6DXml_field n as kids q =
     (if n = ''Body'' then q\<lparr>q6_Bodies := q6_Bodies q @ [set_fields Body_field kids zero_Body]\<rparr> else q)"

record QXml =
  qx_Q6DXml :: Q6DXml
  qx_Q3DXml :: Q3DXml

definition zero_QXml :: QXml where
  "zero_QXml = \<lparr>qx_Q6DXml = \<lparr>q6_Bodies = []\<rparr>, qx_Q3DXml = \<lparr>q3_Labels = []\<rparr>\<rparr>"

definition QXml_field :: "string \<Rightarrow> attributes \<Rightarrow> xml_node list \<Rightarrow> QXml \<Rightarrow> QXml" where
  "QXml_field n as kids q =
     (if n = ''The_6D'' then q\<lparr>qx_Q6DXml := set_fields Q6DXml_field kids (qx_Q6DXml q)\<rparr>
      else if n = ''The_3D'' then q\<lparr>qx_Q3DXml := set_fields Q3DXml_field kids (qx_Q3DXml q)\<rparr>
      else q)"

text \<open>
  \<open>xml.Unmarshal\<close> into a \<open>QXml\<close>: the first element of the document, whatever its name; nothing
  after it is read.
\<close>

definition Unmarshal_QXml :: "xml_document \<Rightarrow> err + QXml" where
  "Unmarshal_QXml doc = (case doc of (tokens, e) \<Rightarrow> (case read_element tokens [] of
       Some (Element n as kids) \<Rightarrow> Inr (set_fields QXml_field kids zero_QXml)
     | _ \<Rightarrow> Inl e))"

definition Parse3DLabelsFromXML :: "xml_decoder \<Rightarrow> string \<Rightarrow> string list option \<times> err option" where
  "Parse3DLabelsFromXML decoder s = (case Unmarshal_QXml (decoder s) of
       Inl e \<Rightarrow> (None, Some e)
     | Inr qxml \<Rightarrow> (Some (map lb_Name (q3_Labels (qx_Q3DXml qxml))), None))"

definition Parse6DBodyNamesFromXML :: "xml_decoder \<Rightarrow> string \<Rightarrow> string list option \<times> err option" where
  "Parse6DBodyNamesFromXML decoder s = (case Unmarshal_QXml (decoder s) of
       Inl e \<Rightarrow> (None, Some e)
     | Inr qxml \<Rightarrow> (Some (map bd_Name (q6_Bodies (qx_Q6DXml qxml))), None))"

subsection \<open>Reading what was written\<close>

fun tokens_of :: "xml_node \<Rightarrow> xml_token list" where
  "tokens_of (Element n as kids) = StartElement n as # concat (map tokens_of kids) @ [EndElement]"
| "tokens_of (Text s) = [CharData s]"

lemma read_tokens:
  "read_element (tokens_of node @ ts) ((n, as, kids) # st) = read_element ts ((n, as, node # kids) # st)"
proof (induction node arbitrary: n as kids st ts)
  case (Element m bs nodes)
  have "read_element (concat (map tokens_of nodes) @ ts) ((m, bs, kids) # st)
      = read_element ts ((m, bs, rev nodes @ kids) # st)" for m bs kids st ts
    using Element.IH by (induction nodes arbitrary: kids) simp_all
  then show ?case by simp
qed simp

lemma read_root: "read_element (tokens_of (Element n as kids) @ rest) [] = Some (Element n as kids)"
proof -
  have "read_element (concat (map tokens_of nodes) @ ts) ((n, as, kids) # st)
      = read_element ts ((n, as, rev nodes @ kids) # st)" for nodes kids st ts
    by (induction nodes arbitrary: kids) (simp_all add: read_tokens)
  then show ?thesis by simp
qed

text \<open>Comments, white space and the XML declaration before the first element.\<close>

definition prolog :: "xml_token list \<Rightarrow> bool" where
  "prolog ts \<longleftrightarrow> list_all (\<lambda>t. case t of CharData s \<Rightarrow> True | Markup \<Rightarrow> True | _ \<Rightarrow> False) ts"

lemma read_prolog: "prolog ts \<Longrightarrow> read_element (ts @ rest) [] = read_element rest []"
  by (induction ts) (auto simp: prolog_def split: xml_token.splits)

text \<open>The elements still open after some tokens; an element ends only when none is.\<close>

fun opened :: "xml_token list \<Rightarrow> int" where
  "opened [] = 0"
| "opened (StartElement n as # ts) = 1 + opened ts"
| "opened (EndElement # ts) = opened ts - 1"
| "opened (CharData s # ts) = opened ts"
| "opened (Markup # ts) = opened ts"

lemma opened_append [simp]: "opened (ts @ us) = opened ts + opened us"
  by (induction ts rule: opened.induct) simp_all

lemma opened_tokens [simp]: "opened (tokens_of node) = 0"
proof (induction node)
  case (Element n as kids)
  then have "opened (concat (map tokens_of kids)) = 0" by (induction kids) simp_all
  then show ?case by simp
qed simp

lemma read_complete:
  "read_element ts st = Some node \<Longrightarrow> \<exists>k. 0 < k \<and> k \<le> length ts \<and> opened (take k ts) + int (length st) = 0"
proof (induction ts st rule: read_element.induct)
  case (4 ts n as kids)
  then show ?case by (intro exI [of _ 1]) simp
qed (fastforce intro: exI [of _ "Suc _"])+

lemma opened_concat:
  assumes "\<And>node k. node \<in> set nodes \<Longrightarrow> 0 \<le> opened (take k (tokens_of node))"
  shows "0 \<le> opened (take k (concat (map tokens_of nodes)))"
  using assms
proof (induction nodes arbitrary: k)
  case (Cons node nodes)
  then have "0 \<le> opened (take k (tokens_of node))"
    "0 \<le> opened (take (k - length (tokens_of node)) (concat (map tokens_of nodes)))" by simp_all
  then show ?case by simp
qed simp

lemma opened_prefix: "0 \<le> opened (take k (tokens_of node))"
proof (induction node arbitrary: k)
  case (Element n as kids)
  have "0 \<le> opened (take m (concat (map tokens_of kids)))" for m
    by (rule opened_concat) (rule Element.IH)
  from this [of "k - 1"] show ?case
    by (cases k) (auto simp: take_Cons' split: if_splits)
next
  case (Text s)
  then show ?case by (cases k) simp_all
qed

lemma opened_open:
  assumes "0 < k" and "k < length (tokens_of (Element n as kids))"
  shows "0 < opened (take k (tokens_of (Element n as kids)))"
proof -
  from assms obtain j where j: "k = Suc j" "j \<le> length (concat (map tokens_of kids))" by (cases k) auto
  have "0 \<le> opened (take j (concat (map tokens_of kids)))"
    by (rule opened_concat) (rule opened_prefix)
  with j show ?thesis by simp
qed

lemma read_truncated:
  assumes "k < length (tokens_of (Element n as kids))"
  shows "read_element (take k (tokens_of (Element n as kids))) [] = None"
proof (rule ccontr)
  let ?ts = "tokens_of (Element n as kids)"
  assume "read_element (take k ?ts) [] \<noteq> None"
  then obtain j where "0 < j" "j \<le> k" "opened (take j ?ts) = 0"
    using read_complete [of "take k ?ts" "[]"] assms by (auto simp: min_def split: if_splits)
  with opened_open [of j n as kids] assms show False by simp
qed

subsection \<open>The names\<close>

text \<open>What is looked for, as one reads it off the document.\<close>

fun children :: "string \<Rightarrow> xml_node list \<Rightarrow> xml_node list list" where
  "children n [] = []"
| "children n (Text s # ns) = children n ns"
| "children n (Element m as kids # ns) = (if m = n then kids # children n ns else children n ns)"

definition name_of :: "xml_node list \<Rightarrow> string" where
  "name_of kids = last ('''' # map char_data (children ''Name'' kids))"

definition names_in :: "string \<Rightarrow> string \<Rightarrow> xml_node list \<Rightarrow> string list" where
  "names_in section item kids = map name_of (concat (map (children item) (children section kids)))"

lemma Label_name: "lb_Name (set_fields Label_field kids l) = last (lb_Name l # map char_data (children ''Name'' kids))"
  by (induction "''Name''" kids arbitrary: l rule: children.induct) (simp_all add: Label_field_def)

lemma Body_name: "bd_Name (set_fields Body_field kids b) = last (bd_Name b # map char_data (children ''Name'' kids))"
  by (induction "''Name''" kids arbitrary: b rule: children.induct) (simp_all add: Body_field_def)

lemma Q3DXml_names:
  "map lb_Name (q3_Labels (set_fields Q3DXml_field kids q))
    = map lb_Name (q3_Labels q) @ map name_of (children ''Label'' kids)"
  by (induction "''Label''" kids arbitrary: q rule: children.induct)
    (simp_all add: Q3DXml_field_def Label_name name_of_def)

lemma Q6DXml_names:
  "map bd_Name (q6_Bodies (set_fields Q6DXml_field kids q))
    = map bd_Name (q6_Bodies q) @ map name_of (children ''Body'' kids)"
  by (induction "''Body''" kids arbitrary: q rule: children.induct)
    (simp_all add: Q6DXml_field_def Body_name name_of_def zero_Body_def)

lemma QXml_labels:
  "map lb_Name (q3_Labels (qx_Q3DXml (set_fields QXml_field kids q)))
    = map lb_Name (q3_Labels (qx_Q3DXml q)) @ names_in ''The_3D'' ''Label'' kids"
  by (induction "''The_3D''" kids arbitrary: q rule: children.induct)
    (simp_all add: QXml_field_def Q3DXml_names names_in_def)

lemma QXml_bodies:
  "map bd_Name (q6_Bodies (qx_Q6DXml (set_fields QXml_field kids q)))
    = map bd_Name (q6_Bodies (qx_Q6DXml q)) @ names_in ''The_6D'' ''Body'' kids"
  by (induction "''The_6D''" kids arbitrary: q rule: children.induct)
    (simp_all add: QXml_field_def Q6DXml_names names_in_def)

text \<open>
  C25: The names of the labels and of the bodies are those the document gives them, one for each
  \<open>Label\<close> in \<open>The_3D\<close> and for each \<open>Body\<close> in \<open>The_6D\<close>, in document order, with an empty
  name for one without a \<open>Name\<close>, whatever the root element is called and whatever else the
  document holds; and when the document breaks off inside of the root element, at any token,
  both functions return the error and no names.
\<close>

theorem settings_names:
  assumes "prolog pre" and "decoder s = (pre @ tokens_of (Element root as kids) @ rest, e)"
    and "decoder t = (pre @ take k (tokens_of (Element root as kids)), e')"
    and "k < length (tokens_of (Element root as kids))"
  shows "Parse3DLabelsFromXML decoder s = (Some (names_in ''The_3D'' ''Label'' kids), None)
    \<and> Parse6DBodyNamesFromXML decoder s = (Some (names_in ''The_6D'' ''Body'' kids), None)
    \<and> Parse3DLabelsFromXML decoder t = (None, Some e') \<and> Parse6DBodyNamesFromXML decoder t = (None, Some e')"
proof -
  have "Unmarshal_QXml (decoder s) = Inr (set_fields QXml_field kids zero_QXml)"
    using assms(2) read_prolog [OF assms(1)] read_root [of root as kids rest] by (simp add: Unmarshal_QXml_def)
  moreover have "Unmarshal_QXml (decoder t) = Inl e'"
    using assms(3) read_prolog [OF assms(1)] read_truncated [OF assms(4)] by (simp add: Unmarshal_QXml_def)
  ultimately show ?thesis
    by (simp add: Parse3DLabelsFromXML_def Parse6DBodyNamesFromXML_def QXml_labels QXml_bodies) (simp add: zero_QXml_def)
qed

text \<open>A small document, and the same one cut off after its first label.\<close>

definition demo_settings :: xml_node where
  "demo_settings = Element ''QTM_Parameters_Ver_1.28'' [] [
     Element ''The_3D'' [] [
       Element ''AxisUpwards'' [] [Text ''+Z''],
       Element ''Label'' [] [Element ''Name'' [] [Text ''head''], Element ''RGBColor'' [] [Text ''255'']],
       Element ''Label'' [] [Element ''Name'' [] [Text ''hand'']]],
     Element ''The_6D'' [] [
       Element ''Body'' [] [Element ''Color'' [(''R'', ''9'')] [], Element ''Name'' [] [Text ''wand'']],
       Element ''Body'' [] []]]"

theorem settings_names_witness:
  "\<exists>decoder. Parse3DLabelsFromXML decoder ''whole'' = (Some [''head'', ''hand''], None)
    \<and> Parse6DBodyNamesFromXML decoder ''whole'' = (Some [''wand'', ''''], None)
    \<and> Parse3DLabelsFromXML decoder ''part'' = (None, Some IoUnexpectedEOF)"
proof -
  define decoder where "decoder s = (if s = ''whole'' then ([Markup] @ tokens_of demo_settings, IoEOF)
     else ([Markup] @ take 12 (tokens_of demo_settings), IoUnexpectedEOF))" for s
  obtain root as kids where demo: "demo_settings = Element root as kids"
    and kids: "names_in ''The_3D'' ''Label'' kids = [''head'', ''hand'']" "names_in ''The_6D'' ''Body'' kids = [''wand'', '''']"
    by (simp add: demo_settings_def names_in_def name_of_def)
  have "12 < length (tokens_of demo_settings)" by (simp add: demo_settings_def)
  with settings_names [of "[Markup]" decoder "''whole''" root as kids "[]" IoEOF "''part''" 12 IoUnexpectedEOF] kids
  show ?thesis unfolding demo [symmetric] by (intro exI [of _ decoder]) (simp add: decoder_def prolog_def)
qed

end
