(* ===== verification/Enumerations.thy ===== *)
theory Enumerations
  imports Stringer
begin

text \<open>
  The enumerations: the \<open>const\<close> blocks that declare them, and what the files generated from them
  (\<open>*_string.go\<close>) promise. Each of these files starts with a function \<open>_\<close> that does not compile
  when a constant has another value than at the time of generation; its lines are the table of
  \<open>pins\<close>.
\<close>

subsection \<open>Constant blocks\<close>

text \<open>\<open>const ( n0 T = iota + first; n1; ... )\<close>: the names with their values.\<close>

definition iota :: "int \<Rightarrow> string list \<Rightarrow> (string \<times> int) list" where
  "iota first names = map (\<lambda>(k, name). (name, first + int k)) (enumerate 0 names)"

definition ComponentType_constants :: "(string \<times> int) list" where
  "ComponentType_constants = iota 1
    [''ComponentType3D'', ''ComponentType3DNoLabels'', ''ComponentTypeAnalog'', ''ComponentTypeForce'',
     ''ComponentType6D'', ''ComponentType6DEuler'', ''ComponentType2D'', ''ComponentType2DLinearized'',
     ''ComponentType3DResidual'', ''ComponentType3DNoLabelsResidual'', ''ComponentType6DResidual'',
     ''ComponentType6DEulerResidual'', ''ComponentTypeAnalogSingle'', ''ComponentTypeImage'',
     ''ComponentTypeForceSingle'', ''ComponentTypeGazeVector'', ''ComponentTypeTimecode'',
     ''ComponentTypeSkeleton'', ''ComponentTypeEyeTracker'']"

definition EventType_constants :: "(string \<times> int) list" where
  "EventType_constants = iota 1
    [''EventTypeConnected'', ''EventTypeConnectionClosed'', ''EventTypeCaptureStarted'',
     ''EventTypeCaptureStopped'', ''EventTypeCaptureFetchingFinished'', ''EventTypeCalibrationStarted'',
     ''EventTypeCalibrationStopped'', ''EventTypeRtFromFileStarted'', ''EventTypeRtFromFileStopped'',
     ''EventTypeWaitingForTrigger'', ''EventTypeCameraSettingsChanged'', ''EventTypeQTMShuttingDown'',
     ''EventTypeCaptureSaved'', ''EventTypeReprocessingStarted'', ''EventTypeReprocessingStopped'',
     ''EventTypeTrigger'', ''EventTypeNone'']"

definition PacketType_constants :: "(string \<times> int) list" where
  "PacketType_constants = iota 0
    [''PacketTypeError'', ''PacketTypeCommand'', ''PacketTypeXML'', ''PacketTypeData'',
     ''PacketTypeNoMoreData'', ''PacketTypeC3DFile'', ''PacketTypeEvent'', ''PacketTypeDiscover'',
     ''PacketTypeQTMFile'', ''PacketTypeNone'']"

definition ParameterType_constants :: "(string \<times> int) list" where
  "ParameterType_constants = iota 0
    [''ParameterTypeAll'', ''ParameterTypeGeneral'', ''ParameterTypeCalibration'', ''ParameterType3D'',
     ''ParameterType6D'', ''ParameterTypeAnalog'', ''ParameterTypeForce'', ''ParameterTypeImage'',
     ''ParameterTypeGazeVector'', ''ParameterTypeEyeTracker'', ''ParameterTypeSkeleton'']"

definition StreamRateType_constants :: "(string \<times> int) list" where
  "StreamRateType_constants = iota 0
    [''StreamRateTypeAllFrames'', ''StreamRateTypeFrequency'', ''StreamRateTypeFrequencyDivisor'']"

definition LedMode_constants :: "(string \<times> int) list" where
  "LedMode_constants = iota 0
    [''LedModeOn'', ''LedModeOff'', ''LedModePulsing'']"

definition LedColor_constants :: "(string \<times> int) list" where
  "LedColor_constants = iota 0
    [''LedColorAmber'', ''LedColorGreen'', ''LedColorAll'']"

definition ImageFormatType_constants :: "(string \<times> int) list" where
  "ImageFormatType_constants = iota 0
    [''ImageFormatTypeRawGreyscale'', ''ImageFormatTypeRawBGR'', ''ImageFormatTypeJPG'',
     ''ImageFormatTypePNG'']"

definition TimecodeType_constants :: "(string \<times> int) list" where
  "TimecodeType_constants = iota 0
    [''TimecodeTypeSMPTE'', ''TimecodeTypeIRIG'', ''TimecodeTypeCameraTime'']"

definition FileType_constants :: "(string \<times> int) list" where
  "FileType_constants = [(''FileTypeC3D'', 5), (''FileTypeQTM'', 8)]"

subsection \<open>The pins of the generated files\<close>

text \<open>\<open>_ = x[Name-n]\<close> compiles when the constant \<open>Name\<close> is \<open>n\<close>.\<close>

definition compiles :: "(string \<times> int) list \<Rightarrow> (string \<times> int) list \<Rightarrow> bool" where
  "compiles constants pins \<longleftrightarrow> list_all (\<lambda>(name, n). map_of constants name = Some n) pins"

definition ComponentType_pins :: "(string \<times> int) list" where
  "ComponentType_pins =
    [(''ComponentType3D'', 1), (''ComponentType3DNoLabels'', 2), (''ComponentTypeAnalog'', 3),
     (''ComponentTypeForce'', 4), (''ComponentType6D'', 5), (''ComponentType6DEuler'', 6),
     (''ComponentType2D'', 7), (''ComponentType2DLinearized'', 8), (''ComponentType3DResidual'', 9),
     (''ComponentType3DNoLabelsResidual'', 10), (''ComponentType6DResidual'', 11),
     (''ComponentType6DEulerResidual'', 12), (''ComponentTypeAnalogSingle'', 13),
     (''ComponentTypeImage'', 14), (''ComponentTypeForceSingle'', 15), (''ComponentTypeGazeVector'', 16),
     (''ComponentTypeTimecode'', 17), (''ComponentTypeSkeleton'', 18), (''ComponentTypeEyeTracker'', 19)]"

definition EventType_pins :: "(string \<times> int) list" where
  "EventType_pins =
    [(''EventTypeConnected'', 1), (''EventTypeConnectionClosed'', 2), (''EventTypeCaptureStarted'', 3),
     (''EventTypeCaptureStopped'', 4), (''EventTypeCaptureFetchingFinished'', 5),
     (''EventTypeCalibrationStarted'', 6), (''EventTypeCalibrationStopped'', 7),
     (''EventTypeRtFromFileStarted'', 8), (''EventTypeRtFromFileStopped'', 9),
     (''EventTypeWaitingForTrigger'', 10), (''EventTypeCameraSettingsChanged'', 11),
     (''EventTypeQTMShuttingDown'', 12), (''EventTypeCaptureSaved'', 13),
     (''EventTypeReprocessingStarted'', 14), (''EventTypeReprocessingStopped'', 15),
     (''EventTypeTrigger'', 16), (''EventTypeNone'', 17)]"

definition PacketType_pins :: "(string \<times> int) list" where
  "PacketType_pins =
    [(''PacketTypeError'', 0), (''PacketTypeCommand'', 1), (''PacketTypeXML'', 2), (''PacketTypeData'', 3),
     (''PacketTypeNoMoreData'', 4), (''PacketTypeC3DFile'', 5), (''PacketTypeEvent'', 6),
     (''PacketTypeDiscover'', 7), (''PacketTypeQTMFile'', 8), (''PacketTypeNone'', 9)]"

definition ParameterType_pins :: "(string \<times> int) list" where
  "ParameterType_pins =
    [(''ParameterTypeAll'', 0), (''ParameterTypeGeneral'', 1), (''ParameterTypeCalibration'', 2),
     (''ParameterType3D'', 3), (''ParameterType6D'', 4), (''ParameterTypeAnalog'', 5),
     (''ParameterTypeForce'', 6), (''ParameterTypeImage'', 7), (''ParameterTypeGazeVector'', 8),
     (''ParameterTypeEyeTracker'', 9), (''ParameterTypeSkeleton'', 10)]"

definition StreamRateType_pins :: "(string \<times> int) list" where
  "StreamRateType_pins =
    [(''StreamRateTypeAllFrames'', 0), (''StreamRateTypeFrequency'', 1),
     (''StreamRateTypeFrequencyDivisor'', 2)]"

definition LedMode_pins :: "(string \<times> int) list" where
  "LedMode_pins =
    [(''LedModeOn'', 0), (''LedModeOff'', 1), (''LedModePulsing'', 2)]"

definition LedColor_pins :: "(string \<times> int) list" where
  "LedColor_pins =
    [(''LedColorAmber'', 0), (''LedColorGreen'', 1), (''LedColorAll'', 2)]"

definition ImageFormatType_pins :: "(string \<times> int) list" where
  "ImageFormatType_pins =
    [(''ImageFormatTypeRawGreyscale'', 0), (''ImageFormatTypeRawBGR'', 1), (''ImageFormatTypeJPG'', 2),
     (''ImageFormatTypePNG'', 3)]"

definition TimecodeType_pins :: "(string \<times> int) list" where
  "TimecodeType_pins =
    [(''TimecodeTypeSMPTE'', 0), (''TimecodeTypeIRIG'', 1), (''TimecodeTypeCameraTime'', 2)]"

definition FileType_pins :: "(string \<times> int) list" where
  "FileType_pins =
    [(''FileTypeC3D'', 5), (''FileTypeQTM'', 8)]"

subsection \<open>The generated method is up to date\<close>

text \<open>
  What \<open>stringer -type T -trimprefix T\<close> stands for: a value that is one of the constants prints as
  the name of the constant without the prefix, any other as \<open>T(n)\<close>.
\<close>

definition constant_text :: "string \<Rightarrow> (string \<times> int) list \<Rightarrow> int \<Rightarrow> string" where
  "constant_text ty constants n = (case List.find (\<lambda>(name, m). m = n) constants of
       Some (name, _) \<Rightarrow> drop (length ty) name
     | None \<Rightarrow> ty @ ''('' @ Itoa n @ '')'')"

lemma find_iota:
  "List.find (\<lambda>(name, m). m = n) (iota first names) =
    (if first \<le> n \<and> n < first + int (length names) then Some (names ! nat (n - first), n) else None)"
proof (induction names arbitrary: first)
  case (Cons name names)
  have "iota first (name # names) = (name, first) # iota (first + 1) names"
    by (simp add: iota_def enumerate_Suc_eq split_def algebra_simps)
  moreover have "nat (n - (first + 1)) = nat (n - first) - 1" by linarith
  ultimately show ?case using Cons by (auto simp: nth_Cons split: nat.split)
qed (simp add: iota_def)

text \<open>The tables of \<open>stringer\<close> for the names \<open>ns\<close>.\<close>

fun positions :: "nat \<Rightarrow> string list \<Rightarrow> nat list" where
  "positions k [] = [k]"
| "positions k (name # names) = k # positions (k + length name) names"

lemma length_positions [simp]: "length (positions k names) = Suc (length names)"
  by (induction names arbitrary: k) simp_all

lemma slice_positions:
  "i < length names \<Longrightarrow> slice (pre @ concat names) (positions (length pre) names ! i) (positions (length pre) names ! Suc i)
    = Some (names ! i)"
proof (induction names arbitrary: pre i)
  case (Cons name names)
  show ?case
  proof (cases i)
    case 0
    have "positions k ns ! 0 = k" for k ns by (cases ns) simp_all
    with 0 show ?thesis by (simp add: slice_def)
  next
    case (Suc j)
    with Cons.IH [of j "pre @ name"] Cons.prems show ?thesis by simp
  qed
qed simp

lemma stringer_current:
  "stringer ty first (concat names) (positions 0 names) n = Some (constant_text ty (iota first (map ((@) ty) names)) n)"
proof (cases "first \<le> n \<and> n < first + int (length names)")
  case True
  then have "nat (n - first) < length names" by auto
  with slice_positions [of "nat (n - first)" names "[]"] True show ?thesis
    by (auto simp: stringer_def constant_text_def find_iota Let_def)
next
  case False
  then show ?thesis by (auto simp: stringer_def constant_text_def find_iota Let_def)
qed

text \<open>The tables of a generated file, taken apart into the names of the constants.\<close>

lemma generated:
  assumes "constants = iota first (map ((@) ty) names)" and "names_text = concat names" and "index = positions 0 names"
  shows "stringer ty first names_text index n = Some (constant_text ty constants n)"
  unfolding assms by (rule stringer_current)

lemma ComponentType_current: "ComponentType_String n = Some (constant_text ''ComponentType'' ComponentType_constants n)"
  unfolding ComponentType_String_def
  by (rule generated [where names = "[''3D'', ''3DNoLabels'', ''Analog'', ''Force'', ''6D'', ''6DEuler'', ''2D'', ''2DLinearized'',
    ''3DResidual'', ''3DNoLabelsResidual'', ''6DResidual'', ''6DEulerResidual'', ''AnalogSingle'',
    ''Image'', ''ForceSingle'', ''GazeVector'', ''Timecode'', ''Skeleton'', ''EyeTracker'']"])
    (simp_all add: ComponentType_constants_def ComponentType_index_def)

lemma EventType_current: "EventType_String n = Some (constant_text ''EventType'' EventType_constants (uint n))"
  unfolding EventType_String_def
  by (rule generated [where names = "[''Connected'', ''ConnectionClosed'', ''CaptureStarted'', ''CaptureStopped'',
    ''CaptureFetchingFinished'', ''CalibrationStarted'', ''CalibrationStopped'',
    ''RtFromFileStarted'', ''RtFromFileStopped'', ''WaitingForTrigger'', ''CameraSettingsChanged'',
    ''QTMShuttingDown'', ''CaptureSaved'', ''ReprocessingStarted'', ''ReprocessingStopped'',
    ''Trigger'', ''None'']"])
    (simp_all add: EventType_constants_def EventType_index_def)

lemma PacketType_current: "PacketType_String n = Some (constant_text ''PacketType'' PacketType_constants (uint n))"
  unfolding PacketType_String_def
  by (rule generated [where names = "[''Error'', ''Command'', ''XML'', ''Data'', ''NoMoreData'', ''C3DFile'', ''Event'',
    ''Discover'', ''QTMFile'', ''None'']"])
    (simp_all add: PacketType_constants_def)

lemma ParameterType_current: "ParameterType_String n = Some (constant_text ''ParameterType'' ParameterType_constants n)"
  unfolding ParameterType_String_def
  by (rule generated [where names = "[''All'', ''General'', ''Calibration'', ''3D'', ''6D'', ''Analog'', ''Force'', ''Image'',
    ''GazeVector'', ''EyeTracker'', ''Skeleton'']"])
    (simp_all add: ParameterType_constants_def)

lemma StreamRateType_current: "StreamRateType_String n = Some (constant_text ''StreamRateType'' StreamRateType_constants n)"
  unfolding StreamRateType_String_def
  by (rule generated [where names = "[''AllFrames'', ''Frequency'', ''FrequencyDivisor'']"])
    (simp_all add: StreamRateType_constants_def)

lemma LedMode_current: "LedMode_String n = Some (constant_text ''LedMode'' LedMode_constants (uint n))"
  unfolding LedMode_String_def
  by (rule generated [where names = "[''On'', ''Off'', ''Pulsing'']"])
    (simp_all add: LedMode_constants_def)

lemma LedColor_current: "LedColor_String n = Some (constant_text ''LedColor'' LedColor_constants (uint n))"
  unfolding LedColor_String_def
  by (rule generated [where names = "[''Amber'', ''Green'', ''All'']"])
    (simp_all add: LedColor_constants_def)

lemma ImageFormatType_current: "ImageFormatType_String n = Some (constant_text ''ImageFormatType'' ImageFormatType_constants (uint n))"
  unfolding ImageFormatType_String_def
  by (rule generated [where names = "[''RawGreyscale'', ''RawBGR'', ''JPG'', ''PNG'']"])
    (simp_all add: ImageFormatType_constants_def)

lemma TimecodeType_current: "TimecodeType_String n = Some (constant_text ''TimecodeType'' TimecodeType_constants (uint n))"
  unfolding TimecodeType_String_def
  by (rule generated [where names = "[''SMPTE'', ''IRIG'', ''CameraTime'']"])
    (simp_all add: TimecodeType_constants_def)

lemma FileType_current: "FileType_String n = constant_text ''FileType'' FileType_constants (uint n)"
  by (auto simp: FileType_String_def constant_text_def FileType_constants_def word_uint_eq_iff)

lemma pins_compile:
  "compiles ComponentType_constants ComponentType_pins"
  "compiles EventType_constants EventType_pins"
  "compiles PacketType_constants PacketType_pins"
  "compiles ParameterType_constants ParameterType_pins"
  "compiles StreamRateType_constants StreamRateType_pins"
  "compiles LedMode_constants LedMode_pins"
  "compiles LedColor_constants LedColor_pins"
  "compiles ImageFormatType_constants ImageFormatType_pins"
  "compiles TimecodeType_constants TimecodeType_pins"
  "compiles FileType_constants FileType_pins"
  by (simp_all add: compiles_def iota_def
      ComponentType_constants_def ComponentType_pins_def
      EventType_constants_def EventType_pins_def
      PacketType_constants_def PacketType_pins_def
      ParameterType_constants_def ParameterType_pins_def
      StreamRateType_constants_def StreamRateType_pins_def
      LedMode_constants_def LedMode_pins_def
      LedColor_constants_def LedColor_pins_def
      ImageFormatType_constants_def ImageFormatType_pins_def
      TimecodeType_constants_def TimecodeType_pins_def
      FileType_constants_def FileType_pins_def)

text \<open>
  C37: The generated \<open>String\<close> methods are up to date with the constants: each of the ten generated
  files compiles with the constants as they are, and prints every value of its type that is one
  of the constants as the name of that constant without the prefix, and any other as \<open>T(n)\<close>.
\<close>

theorem constant_names:
  "compiles ComponentType_constants ComponentType_pins
   \<and> compiles EventType_constants EventType_pins
   \<and> compiles PacketType_constants PacketType_pins
   \<and> compiles ParameterType_constants ParameterType_pins
   \<and> compiles StreamRateType_constants StreamRateType_pins
   \<and> compiles LedMode_constants LedMode_pins
   \<and> compiles LedColor_constants LedColor_pins
   \<and> compiles ImageFormatType_constants ImageFormatType_pins
   \<and> compiles TimecodeType_constants TimecodeType_pins
   \<and> compiles FileType_constants FileType_pins
   \<and> ComponentType_String a = Some (constant_text ''ComponentType'' ComponentType_constants a)
   \<and> EventType_String b = Some (constant_text ''EventType'' EventType_constants (uint b))
   \<and> PacketType_String c = Some (constant_text ''PacketType'' PacketType_constants (uint c))
   \<and> ParameterType_String d = Some (constant_text ''ParameterType'' ParameterType_constants d)
   \<and> StreamRateType_String e = Some (constant_text ''StreamRateType'' StreamRateType_constants e)
   \<and> LedMode_String f = Some (constant_text ''LedMode'' LedMode_constants (uint f))
   \<and> LedColor_String g = Some (constant_text ''LedColor'' LedColor_constants (uint g))
   \<and> ImageFormatType_String h = Some (constant_text ''ImageFormatType'' ImageFormatType_constants (uint h))
   \<and> TimecodeType_String i = Some (constant_text ''TimecodeType'' TimecodeType_constants (uint i))
   \<and> FileType_String k = constant_text ''FileType'' FileType_constants (uint k)"
  by (intro conjI ComponentType_current EventType_current PacketType_current ParameterType_current
      StreamRateType_current LedMode_current LedColor_current ImageFormatType_current TimecodeType_current
      FileType_current pins_compile)

end
