(* ===== verification/Spec2Isabelle.thy ===== *)
theory Spec2Isabelle
  imports Programs Session Settings_Session Datagram_Session Data_Paths Lifecycle Settings_XML Enumerations
begin

text \<open>
  \<^bold>\<open>The Qualisys RT client\<close>

  \<open>qualisys-go\<close> is a client of the real-time protocol of Qualisys Track Manager (QTM). It finds
  servers by UDP broadcast (\<open>pkg/discover\<close>), connects to one over TCP and negotiates a protocol
  version (\<open>protocol.go\<close>), sends text commands and XML settings (\<open>commands.go\<close>,
  \<open>parameters.go\<close>), and decodes what comes back (\<open>packet.go\<close>, \<open>file.go\<close>, \<open>pkg/packets\<close>):
  responses, events, files, and data frames that hold up to nineteen kinds of components.

  \<^bold>\<open>How the model is laid out\<close>

  \<^item> \<open>Go_Prelude\<close>, \<open>Go_Errors\<close>, \<open>Go_Strings\<close>: what the code uses of Go. Computations that can panic
    (an option; the predicate \<open>runs\<close> says that one returns and what it returns), slices, byte
    orders (locale \<open>byte_codec\<close>), error values with \<open>errors.Is\<close> and \<open>errors.As\<close>, and the string
    functions (\<open>EqualFold\<close>, \<open>TrimSpace\<close>, \<open>Itoa\<close>, \<open>Atoi\<close>, \<open>Split\<close>, \<open>Join\<close>).
  \<^item> \<open>Cursor\<close>: the bounds-checked reader of \<open>pkg/packets/cursor.go\<close> with its sticky error.
  \<^item> \<open>Wire_Format\<close>: the contract of a decoder built on the cursor (locale \<open>wire_reader\<close>: a reader
    accepts exactly the encodings of its format, consumes no more, rejects each proper prefix),
    closed under sequence, branches, guarded loops; and of a component
    (\<open>wire_component\<close>, which extends \<open>data_object\<close>).
  \<^item> \<open>Markers\<close>, \<open>Objects\<close>, \<open>Force\<close>, \<open>Gaze_Eye\<close>, \<open>Analog\<close>, \<open>Timecode\<close>: the decoders of
    \<open>pkg/packets\<close>, one theory per file or pair of files. Each has the records of the Go structs, the
    step of each loop as its own definition, the decoder, its wire format, and an interpretation
    of \<open>wire_component\<close> on it.
  \<^item> \<open>Data_Packet\<close>: \<open>IDataObject\<close> and \<open>DataPacket\<close> of \<open>packet.go\<close>, the frame decoder and the
    typed accessors.
  \<^item> \<open>Packet\<close>: the packet decoder and \<open>file.go\<close>.
  \<^item> \<open>Network\<close>: a TCP connection with read deadlines, \<open>io.ReadFull\<close> (locale \<open>byte_stream\<close>), a UDP
    socket. A connection is a script of timed events and a peer that answers each write.
  \<^item> \<open>Protocol\<close>: the state of \<open>protocol.go\<close> (record \<open>Protocol\<close>, one field per field of the
    struct, and the clock and the number of open sockets), its options, \<open>ReceiveTimeout\<close> and
    \<open>receiveSkippingEvents\<close>.
  \<^item> \<open>Stringer\<close>, \<open>Enumerations\<close>: the generated \<open>String\<close> methods of the enumerations, and the
    constant blocks they were generated from with the pins the compiler checks.
  \<^item> \<open>Printing\<close>: \<open>fmt.Sprintf\<close> and the \<open>String\<close> methods of \<open>pkg/packets\<close>, which make the text that
    the programs log of a frame.
  \<^item> \<open>Settings_XML\<close>: \<open>pkg/settings\<close>, the names in the settings XML.
  \<^item> \<open>Commands\<close>, \<open>Parameters\<close>: every operation of \<open>commands.go\<close> and \<open>parameters.go\<close>.
  \<^item> \<open>Handshake\<close>: \<open>Connect\<close> and the version ladder (locale \<open>sender\<close> for the two senders).
  \<^item> \<open>Client\<close>: the operations under one contract (locales \<open>client_op\<close>, \<open>connected_op\<close>,
    \<open>exchange_op\<close> and \<open>connected_exchange\<close>, interpreted on every operation), the labelled step
    relation \<open>client_step\<close> and the reachable states.
  \<^item> \<open>Lifecycle\<close>: the abstract machine of a client's life (connected with which version, UDP
    socket open or not) and the refinement, by a forward simulation (locale \<open>simulation\<close>).
  \<^item> \<open>Requests\<close>, \<open>Exchanges\<close>: what is written to the server, and command-response exchanges.
  \<^item> \<open>Discover\<close>: \<open>pkg/discover\<close>.
  \<^item> \<open>Polling\<close>: the commands whose answer may take long, over schedules of packets.
  \<^item> \<open>Data_Paths\<close>: the TCP path and the UDP path of the client (locale \<open>blind_to\<close>: an operation
    that neither reads nor writes a part of the state).
  \<^item> \<open>Programs\<close>: \<open>cmd/discover\<close>, \<open>cmd/streaming\<close> and \<open>cmd/settings\<close>, which put discovery, the
    handshake, streaming and receiving together (locale \<open>packet_source\<close> for the two receivers,
    \<open>timed_source\<close> and \<open>receive_loop\<close> for the loops that wait for what comes next).
  \<^item> \<open>Session\<close>, \<open>Settings_Session\<close>, \<open>Datagram_Session\<close>: a server that does its part (\<open>greets\<close>,
    \<open>serves\<close>, \<open>configures\<close>), and whole runs against it: the streaming program over TCP, the
    settings program, the streaming program over UDP. The frames of these runs fit into the
    receive buffer of a new client, 4096 bytes (65536 for datagrams), and so do the other packets;
    over TCP the runs may also end with the first packet that does not, or with the end of the
    connection (\<open>ends_stream\<close>, \<open>ends_run\<close>).
  \<^item> This theory: from the bytes on the socket to the typed objects of a frame.

  Definitions carry the names of the code (\<open>Component3D_UnmarshalBinary\<close> is the method of
  \<open>Component3D\<close>). State is passed explicitly; a result \<open>None\<close> means that the Go code does not
  return there, because it panics or waits for ever; errors are values of type \<open>err\<close> that keep
  the format string and the operands. Integers have the width of the code where it matters
  (\<open>u8\<close> to \<open>u64\<close>, the product of the count guards wraps at 64 bits); Go's \<open>int\<close> is \<open>int\<close> where
  the values come from 32 bit fields or small constants and cannot overflow on a 64 bit
  platform; times and durations are integers of nanoseconds. A \<open>float32\<close> is its 32 bits: the
  code moves them and never computes with them.

  \<^bold>\<open>What the theorems show\<close>

  \<^item> Decoding: the nineteen component decoders accept exactly their wire format
    (\<open>component_exact\<close>), reject each truncation as such, never panic; a frame is accepted exactly
    when it is well formed, and then holds the objects of its components in order
    (\<open>data_frame_iff\<close>); unknown components are kept.
  \<^item> Receiving: packets come out one by one, however TCP cuts the stream, those that fit the
    receive buffer as they were sent and a larger one as an error packet, which leaves the stream
    aligned and the buffer enlarged (\<open>stream_delivered\<close>, and \<open>frames_streamed\<close> for both layers
    together); a response is found behind any number of events; waiting ends
    (\<open>command_acknowledged\<close>, \<open>response_wait_ends\<close>); a datagram gives what the connection gives,
    except for the larger packets (\<open>udp_same_as_tcp\<close>), and the two paths share no state
    (\<open>paths_independent\<close>). The theorems on downloads, settings and calibrations say what comes
    of an answer that fits the buffer and of one that does not.
  \<^item> The client: the invariant of all reachable states; every operation returns in them when
    the timeouts that bound it are positive (\<open>operations_return\<close>); a client that is offline refuses (\<open>Client\<close>); the handshake against every server, and
    against one that negotiates (\<open>Handshake\<close>); every run of calls is a run of the abstract
    machine, and what the client reports of its connection is what the calls have reported
    (\<open>lifecycle_refined\<close>).
  \<^item> Commands: framing, requests, answers, captures, settings, calibration, UDP streaming.
  \<^item> Programs: a run leaves nothing open (\<open>programs_close\<close>), an interrupt ends it
    (\<open>streaming_ends\<close>), a run against a working server prints the frames in order and
    ends as it should, over TCP (\<open>streaming_run_works\<close>, \<open>settings_run_works\<close>) and over UDP
    (\<open>udp_run_works\<close>), no line of the log panics (\<open>log_text_total\<close>), and the text of
    a time code is exact (\<open>time_text_exact\<close>).
  \<^item> Enumerations: the generated methods print the constants as they are (\<open>constant_names\<close>).
  \<^item> Settings: the names of labels and bodies are those of the document (\<open>settings_names\<close>).
  \<^item> Discovery: replies, broadcast addresses, the receive loop.
  \<^item> Where the code does not do what its comments promise, the theorem states what it does:
    \<open>large_packet_misread\<close>, \<open>partial_header_lost\<close>, \<open>big_endian_payload_rejected\<close>,
    \<open>analog_guard_wraps\<close>, \<open>bare_error_packet_accepted\<close>, \<open>error_response_branch_dead\<close>,
    \<open>version_ladder_newer\<close>, \<open>address_without_mask_panics\<close>, \<open>camera_time_exact\<close>,
    \<open>late_answer_misattributed\<close>.

  \<^bold>\<open>Loops\<close>

  No definition uses fuel. The receive loops of the programs may run for ever and are partial
  functions; \<open>streaming_ends\<close> says when they do not. The loops over records are structural in
  their count, the loop over XML tokens in the tokens. The loop of \<open>io.ReadFull\<close> is measured by
  the bytes still wanted; the loops that wait for a packet by the rounds that are left, which
  each successful receive lowers because it takes bytes or events from the inbox or comes to a
  deadline (\<open>Protocol\<close>, \<open>skip_events\<close> and \<open>poll\<close>). A wait that never ends is the value \<open>None\<close>,
  so each theorem that an operation returns excludes it.

  \<^bold>\<open>Parameters\<close>

  The dialer, \<open>net.ListenUDP\<close>, the interfaces of the machine and the discovery socket,
  \<open>os.WriteFile\<close>, and the server (what a peer answers to what has been written) are arguments
  of the definitions, arbitrary unless a theorem says how the server behaves. So are the
  tokenizer of \<open>encoding/xml\<close> and the decimal text of a \<open>float32\<close> (\<open>strconv\<close>).

  \<^bold>\<open>Not modelled\<close>

  The build file (\<open>.sage\<close>), \<open>dialer.go\<close> (a file of comments), the \<open>main\<close> functions around the
  \<open>run\<close> functions (flags, exit status) and the messages of the programs about their own
  progress. A write fails or succeeds at once: the code sets no write deadline, and a peer that
  stops reading and blocks a write for ever is outside the model, so that the theorems on
  termination are about reads. An allocation always succeeds (\<open>decodeAnalog\<close> may build up to
  \<open>2\<^sup>32\<close> channels). The socket of a discovery lives in one call; its deferred \<open>Close\<close> is not
  modelled, and the number of open sockets counts those of the client only. Goroutines are not part of the model: the client has no lock and is used by one
  goroutine at a time. Strings are sequences of bytes, and \<open>EqualFold\<close> and \<open>TrimSpace\<close> are those
  of ASCII text. The quotient of \<open>NormalizedSubFrame\<close> is given by its two numbers, not as a
  \<open>float64\<close>.
\<close>

section \<open>Streaming, end to end\<close>

text \<open>
  C11: Streaming from the socket to the typed objects: data frames written one after the other
  to the connection, cut into any chunks, are received one per call; no frame is lost, split or
  merged.  A frame whose packet fits in the receive buffer is received without an error, with the
  time stamp, the frame number and the objects its components stand for; the buffer has the size
  it had at first (4096 bytes for a new client), or that of the largest packet received since.  A
  frame whose packet is larger than that, up to the packet limit, is reported as an error.
\<close>

theorem frames_streamed:
  assumes "healthy rt" and "timely T d rt"
    and "incoming T rt = enc_packets (rt_order rt) (map (frame_packet (rt_order rt)) frames) @ rest"
    and "list_all (\<lambda>frame. acceptable rt (snd (frame_packet (rt_order rt) frame))) frames"
    and "list_all2 (\<lambda>(timestamp, frame, comps) objs. length comps < 2 ^ 32 \<and> list_all2 decodes comps objs) frames objss"
  shows "\<exists>rs rt'. receive_many d (length frames) rt = Some (rs, rt') \<and> incoming T rt' = rest \<and> length rs = length frames \<and>
    (\<forall>i < length frames. case (frames ! i, rs ! i) of ((timestamp, frame, comps), (p, e)) \<Rightarrow>
      if packet_size (frame_packet (rt_order rt) (frames ! i))
          \<le> foldl max (length (rt_buffer rt)) (map (\<lambda>f. packet_size (frame_packet (rt_order rt) f)) (take i frames))
      then e = None \<and> pk_Type p = PacketTypeData \<and> dp_Timestamp (pk_Data p) = timestamp
        \<and> dp_Frame (pk_Data p) = frame \<and> dp_Components (pk_Data p) = objss ! i
      else e \<noteq> None)"
proof -
  let ?ord = "rt_order rt"
  let ?ps = "map (frame_packet ?ord) frames"
  have "list_all (\<lambda>(t, payload). payload \<noteq> [] \<and> acceptable rt payload) ?ps"
    using assms(4) by (auto simp: list_all_iff frame_packet_def enc_frame_nonempty)
  from receive_many_received [OF assms(1-3) this] obtain rt' where
    r: "receive_many d (length frames) rt = Some (received_as ?ord (length (rt_buffer rt)) ?ps, rt')" "incoming T rt' = rest"
    by auto
  have "case (frames ! i, received_as ?ord (length (rt_buffer rt)) ?ps ! i) of ((timestamp, frame, comps), (p, e)) \<Rightarrow>
      if packet_size (frame_packet ?ord (frames ! i))
          \<le> foldl max (length (rt_buffer rt)) (map (\<lambda>f. packet_size (frame_packet ?ord f)) (take i frames))
      then e = None \<and> pk_Type p = PacketTypeData \<and> dp_Timestamp (pk_Data p) = timestamp
        \<and> dp_Frame (pk_Data p) = frame \<and> dp_Components (pk_Data p) = objss ! i
      else e \<noteq> None" if i: "i < length frames" for i
  proof -
    obtain timestamp frame comps where f: "frames ! i = (timestamp, frame, comps)" by (cases "frames ! i")
    with list_all2_nthD [OF assms(5) i] have "list_all2 decodes comps (objss ! i)" "length comps < 2 ^ 32" by simp_all
    from packet_result_frame [OF this, of ?ord timestamp frame] i show ?thesis
      by (auto simp: f received_as_nth take_map comp_def misread_def)
  qed
  with r show ?thesis by auto
qed

theorem frames_streamed_witness:
  "\<exists>p1 e1 p2 e2 rt'. receive_many Second 2
      (demo_client (enc_packets LittleEndian (map (frame_packet LittleEndian)
        [(1000, 17, demo_components), (2000, 18, [(99, replicate 5000 7)])]) @ [7])) = Some ([(p1, e1), (p2, e2)], rt')
    \<and> incoming 2 rt' = [7] \<and> e1 = None \<and> dp_Frame (pk_Data p1) = 17
    \<and> dp_Components (pk_Data p1) = [demo_object, ObjUnknown 99 [1, 2, 3]] \<and> e2 \<noteq> None"
proof -
  let ?frames = "[(1000, 17, demo_components), (2000, 18, [(99, replicate 5000 7)])]"
  let ?objss = "[[demo_object, ObjUnknown 99 [1, 2, 3]], [ObjUnknown 99 (replicate 5000 7)]]"
  let ?rt = "demo_client (enc_packets LittleEndian (map (frame_packet LittleEndian) ?frames) @ [7])"
  have "length demo_payload = 28" by (simp add: demo_payload_def)
  then have len: "length (enc_frame LittleEndian 1000 17 demo_components) = 63"
    "length (enc_frame LittleEndian 2000 18 [(99, replicate 5000 7)]) = 5024"
    by (simp_all add: enc_frame_def enc_component_def demo_components_def)
  have acc: "list_all (\<lambda>frame. acceptable ?rt (snd (frame_packet (rt_order ?rt) frame))) ?frames"
    by (simp add: acceptable_def frame_packet_def len)
  have "decodes (99, replicate 5000 7) (ObjUnknown 99 (replicate 5000 7))"
    by (rule decodes_fmt) (simp_all add: getComponentObject_eq_None)
  then have obj: "list_all2 (\<lambda>(timestamp, frame, comps) objs. length comps < 2 ^ 32 \<and> list_all2 decodes comps objs)
      ?frames ?objss"
    using demo_decodes by (simp add: demo_components_def)
  from frames_streamed [OF demo_client(1,3) _ acc obj, of "[7]"] obtain rs rt' where
    r: "receive_many Second 2 ?rt = Some (rs, rt')" "incoming 2 rt' = [7]" "length rs = Suc (Suc 0)"
    and each: "\<forall>i < 2. case (?frames ! i, rs ! i) of ((timestamp, frame, comps), (p, e)) \<Rightarrow>
      if packet_size (frame_packet LittleEndian (?frames ! i))
          \<le> foldl max 4096 (map (\<lambda>f. packet_size (frame_packet LittleEndian f)) (take i ?frames))
      then e = None \<and> pk_Type p = PacketTypeData \<and> dp_Timestamp (pk_Data p) = timestamp
        \<and> dp_Frame (pk_Data p) = frame \<and> dp_Components (pk_Data p) = ?objss ! i
      else e \<noteq> None"
    by (auto simp: numeral_2_eq_2)
  from r(3) obtain p1 e1 p2 e2 where rs: "rs = [(p1, e1), (p2, e2)]" by (auto simp: length_Suc_conv)
  from spec [OF each, of 0] spec [OF each, of 1] r show ?thesis
    by (simp add: rs packet_size_def frame_packet_def len)
qed

end
